theory Spec2Isabelle
  imports Main "HOL-Library.Word"
begin

section \<open>The analog axis filter of platform/linux/event.c\<close>

text \<open>
  Modelled from the spec: the enumeration \<^verbatim>\<open>ARCAN_ANALOGFILTER_KIND\<close> is declared in
  arcan_event.h, which is not among the sources. The spec names four modes (Disabled,
  PassThrough, Average, KeepLast); they carry the names that event.c uses for them.
\<close>

datatype ARCAN_ANALOGFILTER_KIND =
    ARCAN_ANALOGFILTER_NONE
  | ARCAN_ANALOGFILTER_PASS
  | ARCAN_ANALOGFILTER_AVG
  | ARCAN_ANALOGFILTER_ALAST

text \<open>
  \<^verbatim>\<open>struct axis_opts\<close>. The \<^verbatim>\<open>int\<close> fields are kept as integers, the kernel
  \<^verbatim>\<open>int32_t flt_kernel[64]\<close> is a list of 64 integers.
\<close>

record axis_opts =
  mode :: ARCAN_ANALOGFILTER_KIND
  oldmode :: ARCAN_ANALOGFILTER_KIND
  lower :: int
  upper :: int
  deadzone :: int
  inlzone :: bool
  inuzone :: bool
  indzone :: bool
  kernel_sz :: int
  kernel_ofs :: int
  flt_kernel :: "int list"

text \<open>C division of \<^verbatim>\<open>int\<close> truncates toward zero; HOL's \<open>div\<close> rounds down.\<close>

definition c_div :: "int \<Rightarrow> int \<Rightarrow> int" where
  "c_div a b = sgn a * sgn b * (\<bar>a\<bar> div \<bar>b\<bar>)"

text \<open>
  \<^verbatim>\<open>process_axis\<close>, lines 268-278: the deadzone test. \<open>None\<close> is the
  \<^verbatim>\<open>return false\<close> of a sample that stays inside the zone; otherwise the (possibly
  zeroed) sample goes on together with the updated flag. \<^verbatim>\<open>abs(samplev)\<close> is computed
  on the sample promoted to \<^verbatim>\<open>int\<close>.
\<close>

definition deadzone_check :: "axis_opts \<Rightarrow> 16 word \<Rightarrow> (axis_opts \<times> 16 word) option" where
  "deadzone_check daxis samplev =
     (if \<bar>sint samplev\<bar> < deadzone daxis then
        (if \<not> indzone daxis then Some (daxis\<lparr>indzone := True\<rparr>, 0) else None)
      else Some (daxis\<lparr>indzone := False\<rparr>, samplev))"

text \<open>
  Lines 280-300: the edge test. Storing \<^verbatim>\<open>daxis->lower\<close> (an \<^verbatim>\<open>int\<close>) in the
  \<^verbatim>\<open>int16_t samplev\<close> keeps its low 16 bits.
\<close>

definition edge_check :: "axis_opts \<Rightarrow> 16 word \<Rightarrow> (axis_opts \<times> 16 word) option" where
  "edge_check daxis samplev =
     (if sint samplev < lower daxis then
        (if \<not> inlzone daxis
         then Some (daxis\<lparr>inlzone := True, inuzone := False\<rparr>, word_of_int (lower daxis))
         else None)
      else if sint samplev > upper daxis then
        (if \<not> inuzone daxis
         then Some (daxis\<lparr>inuzone := True, inlzone := False\<rparr>, word_of_int (upper daxis))
         else None)
      else Some (daxis\<lparr>inlzone := False, inuzone := False\<rparr>, samplev))"

text \<open>
  Lines 302-323: the sample is written at the kernel offset, which is then incremented;
  a kernel that is not yet full gives no output. A full kernel of more than one slot gives
  its last slot (\<^verbatim>\<open>ALAST\<close>) or the truncated mean of its first \<^verbatim>\<open>kernel_sz\<close> slots, and
  the offset returns to 0. The write is inside the array for offsets 0..63 only; the C
  code has no check, and the offset invariant proved below shows that no other offset is
  reached from a filter that \<^verbatim>\<open>map_axes\<close> has created or that has been configured.
\<close>

definition kernel_step :: "axis_opts \<Rightarrow> 16 word \<Rightarrow> axis_opts \<times> 16 word option" where
  "kernel_step daxis samplev =
     (let d1 = daxis\<lparr>flt_kernel := (flt_kernel daxis)[nat (kernel_ofs daxis) := sint samplev],
                     kernel_ofs := kernel_ofs daxis + 1\<rparr>
      in if kernel_ofs d1 < kernel_sz d1 then (d1, None)
         else
           (let outv =
              (if kernel_sz d1 > 1 then
                 (if mode d1 = ARCAN_ANALOGFILTER_ALAST
                  then word_of_int (flt_kernel d1 ! nat (kernel_sz d1 - 1))
                  else
                    (let tot = sum_list (take (nat (kernel_sz d1)) (flt_kernel d1))
                     in word_of_int (if tot \<noteq> 0 then c_div tot (kernel_sz d1) else 0)))
               else samplev)
            in (d1\<lparr>kernel_ofs := 0\<rparr>, Some outv)))"

text \<open>
  \<^verbatim>\<open>process_axis\<close>: the updated filter and the value written to \<^verbatim>\<open>*outv\<close>
  (\<open>None\<close> when the function returns false). A rejection by the edge test keeps the
  deadzone flag that the first test has just written.
\<close>

definition process_axis :: "axis_opts \<Rightarrow> 16 word \<Rightarrow> axis_opts \<times> 16 word option" where
  "process_axis daxis samplev =
     (if mode daxis = ARCAN_ANALOGFILTER_NONE then (daxis, None)
      else if mode daxis = ARCAN_ANALOGFILTER_PASS then (daxis, Some samplev)
      else
        (case deadzone_check daxis samplev of
           None \<Rightarrow> (daxis, None)
         | Some (d1, s1) \<Rightarrow>
             (case edge_check d1 s1 of
                None \<Rightarrow> (d1, None)
              | Some (d2, s2) \<Rightarrow> kernel_step d2 s2)))"

text \<open>\<^verbatim>\<open>set_analogstate\<close>, lines 330-341.\<close>

definition set_analogstate ::
  "axis_opts \<Rightarrow> int \<Rightarrow> int \<Rightarrow> int \<Rightarrow> int \<Rightarrow> ARCAN_ANALOGFILTER_KIND \<Rightarrow> axis_opts" where
  "set_analogstate dst lower_bound upper_bound dz kernel_size kind =
     dst\<lparr>lower := lower_bound, upper := upper_bound, deadzone := dz,
         kernel_sz := kernel_size, mode := kind, kernel_ofs := 0\<rparr>"

text \<open>
  The body of \<^verbatim>\<open>platform_event_analogfilter\<close> once the axis has been found
  (lines 416-424); \<^verbatim>\<open>kernel_lim\<close> is the length of \<^verbatim>\<open>flt_kernel\<close>, 64.
\<close>

definition kernel_lim :: int where
  "kernel_lim = 64"

definition analogfilter_axis ::
  "axis_opts \<Rightarrow> int \<Rightarrow> int \<Rightarrow> int \<Rightarrow> int \<Rightarrow> ARCAN_ANALOGFILTER_KIND \<Rightarrow> axis_opts" where
  "analogfilter_axis axis lower_bound upper_bound dz buffer_sz kind =
     (let b1 = (if buffer_sz > kernel_lim then kernel_lim else buffer_sz);
          b2 = (if b1 \<le> 0 then 1 else b1)
      in set_analogstate axis lower_bound upper_bound dz b2 kind)"

text \<open>A run of samples through one filter: the final filter and the output of each call.\<close>

fun feed :: "axis_opts \<Rightarrow> 16 word list \<Rightarrow> axis_opts \<times> 16 word option list" where
  "feed daxis [] = (daxis, [])"
| "feed daxis (s # ss) =
     (case process_axis daxis s of
        (d1, r) \<Rightarrow> (case feed d1 ss of (d2, rs) \<Rightarrow> (d2, r # rs)))"

subsection \<open>The sample stages in the words of the spec\<close>

text \<open>
  The three hysteresis flags of a filter as the spec names them (in-lower-zone,
  in-upper-zone, in-deadzone), and an integer read as a signed 16-bit sample.
\<close>

record hysteresis =
  in_lower_zone :: bool
  in_upper_zone :: bool
  in_deadzone :: bool

definition as_int16 :: "int \<Rightarrow> int" where
  "as_int16 v = (v + 32768) mod 65536 - 32768"

text \<open>
  Steps 3 and 4 of the spec's \<open>sample\<close>, on the raw value of a sample: the flags
  afterwards and the value that goes on to the kernel, if any. Step 3: a value inside the
  deadzone is rejected when the deadzone flag is set, and otherwise goes on as 0 with the
  flag set; a value outside clears the flag. Step 4: a value below \<open>lower\<close> is rejected
  when the lower-zone flag is set, and otherwise goes on as \<open>lower\<close> with that flag set
  and the upper-zone flag cleared; symmetrically for \<open>upper\<close>; a value within the bounds
  clears both flags. A bound goes on as the 16-bit sample it is stored as.
\<close>

definition spec_stages :: "int \<Rightarrow> int \<Rightarrow> int \<Rightarrow> hysteresis \<Rightarrow> int \<Rightarrow> hysteresis \<times> int option" where
  "spec_stages lo hi dz h raw =
     (if \<bar>raw\<bar> < dz \<and> in_deadzone h then (h, None)
      else
        (let v = (if \<bar>raw\<bar> < dz then 0 else raw);
             h1 = h\<lparr>in_deadzone := (\<bar>raw\<bar> < dz)\<rparr>
         in if v < lo then
              (if in_lower_zone h1 then (h1, None)
               else (h1\<lparr>in_lower_zone := True, in_upper_zone := False\<rparr>, Some (as_int16 lo)))
            else if hi < v then
              (if in_upper_zone h1 then (h1, None)
               else (h1\<lparr>in_upper_zone := True, in_lower_zone := False\<rparr>, Some (as_int16 hi)))
            else (h1\<lparr>in_lower_zone := False, in_upper_zone := False\<rparr>, Some v)))"

text \<open>The values that a run of raw samples appends to the rolling kernel (step 5).\<close>

fun spec_stored :: "int \<Rightarrow> int \<Rightarrow> int \<Rightarrow> hysteresis \<Rightarrow> int list \<Rightarrow> int list" where
  "spec_stored lo hi dz h [] = []"
| "spec_stored lo hi dz h (raw # raws) =
     (case spec_stages lo hi dz h raw of
        (h1, None) \<Rightarrow> spec_stored lo hi dz h1 raws
      | (h1, Some v) \<Rightarrow> v # spec_stored lo hi dz h1 raws)"

text \<open>The flags of a filter.\<close>

definition flags_of :: "axis_opts \<Rightarrow> hysteresis" where
  "flags_of d = \<lparr>in_lower_zone = inlzone d, in_upper_zone = inuzone d, in_deadzone = indzone d\<rparr>"

text \<open>A sample is in band when it is outside the deadzone and within the clamp bounds.\<close>

definition in_band :: "axis_opts \<Rightarrow> 16 word \<Rightarrow> bool" where
  "in_band d s = (\<not> \<bar>sint s\<bar> < deadzone d \<and> lower d \<le> sint s \<and> sint s \<le> upper d)"

text \<open>
  The calls that touch a filter after its creation: the configuration call
  \<^verbatim>\<open>platform_event_analogfilter\<close> and the sampling call \<^verbatim>\<open>process_axis\<close>.
\<close>

datatype axis_call =
    Configure int int int int ARCAN_ANALOGFILTER_KIND
  | Sample "16 word"

fun axis_call_step :: "axis_opts \<Rightarrow> axis_call \<Rightarrow> axis_opts" where
  "axis_call_step ax (Configure lo hi dz sz kind) = analogfilter_axis ax lo hi dz sz kind"
| "axis_call_step ax (Sample s) = fst (process_axis ax s)"

fun is_Configure :: "axis_call \<Rightarrow> bool" where
  "is_Configure (Configure _ _ _ _ _) = True"
| "is_Configure (Sample _) = False"

text \<open>
  A filter as \<^verbatim>\<open>memset(ax, 0, sizeof(struct axis_opts))\<close> and the zero initialisation of
  a device node leave it. The enumerator of \<^verbatim>\<open>ARCAN_ANALOGFILTER_KIND\<close> with value 0 is
  taken to be \<^verbatim>\<open>ARCAN_ANALOGFILTER_NONE\<close>; every filter that the code creates has its
  mode assigned right after the zeroing, except the one of a sensor.
\<close>

definition axis_zero :: axis_opts where
  "axis_zero =
     \<lparr>mode = ARCAN_ANALOGFILTER_NONE, oldmode = ARCAN_ANALOGFILTER_NONE,
      lower = 0, upper = 0, deadzone = 0,
      inlzone = False, inuzone = False, indzone = False,
      kernel_sz = 0, kernel_ofs = 0, flt_kernel = replicate 64 0\<rparr>"

section \<open>Device nodes and the registry\<close>

text \<open>Constants of linux/input.h used by event.c.\<close>

definition EV_KEY :: nat where "EV_KEY = 1"
definition EV_REL :: nat where "EV_REL = 2"
definition EV_ABS :: nat where "EV_ABS = 3"
definition EV_MAX :: nat where "EV_MAX = 31"
definition KEY_MAX :: nat where "KEY_MAX = 767"
definition ABS_MAX :: nat where "ABS_MAX = 63"
definition REL_X :: nat where "REL_X = 0"
definition REL_Y :: nat where "REL_Y = 1"
definition BTN_MOUSE :: nat where "BTN_MOUSE = 272"
definition BTN_LEFT :: nat where "BTN_LEFT = 272"
definition BTN_RIGHT :: nat where "BTN_RIGHT = 273"
definition BTN_MIDDLE :: nat where "BTN_MIDDLE = 274"
definition BTN_JOYSTICK :: nat where "BTN_JOYSTICK = 288"
definition BTN_GAMEPAD :: nat where "BTN_GAMEPAD = 304"
definition BTN_WHEEL :: nat where "BTN_WHEEL = 336"
definition POLLIN :: int where "POLLIN = 1"

definition MAX_DEVICES :: nat where
  "MAX_DEVICES = 256"

text \<open>
  Modelled from the spec: \<^verbatim>\<open>enum devnode_type\<close> is declared in device_db.h, which is not
  among the sources. The spec names six device classes (Keyboard, Mouse, GameController,
  Sensor, Touch, Unclassified); the five that event.c names carry its names.
\<close>

datatype devnode_type =
    DEVNODE_SENSOR
  | DEVNODE_GAME
  | DEVNODE_MOUSE
  | DEVNODE_TOUCH
  | DEVNODE_KEYBOARD
  | DEVNODE_UNCLASSIFIED

text \<open>
  Modelled from the spec: \<^verbatim>\<open>struct evhandler\<close> is declared in device_db.h as well; the
  fields are those that event.c reads. A handler is a function pointer: \<open>None\<close> is the
  null pointer.
\<close>

record evhandler =
  handler :: "nat option"
  eh_type :: devnode_type
  button_mask :: nat
  axis_mask :: nat
  digital_hat :: bool

text \<open>
  \<^verbatim>\<open>struct arcan_devnode\<close>. The C struct overlays the class sub-states in a union; the
  model keeps the members side by side (\<open>sensor_data\<close>; \<open>game_axes\<close>, \<open>game_buttons\<close>,
  \<open>game_hats\<close>, \<open>game_adata\<close>; \<open>cursor_mx\<close>, \<open>cursor_my\<close>, \<open>cursor_flt\<close>;
  \<open>keyboard_state\<close> and the three lock flags; \<open>touch_incomplete\<close>), and the member that
  matters is the one of the node's \<open>type\<close>. Where the code reads one member after it has
  written another (a node that reports absolute axes and is then made a mouse or a
  keyboard, or gets its class from the override table), \<open>union_view\<close> below gives the
  members what the shared storage holds. \<open>game_adata\<close> is the allocated array of
  \<open>game_axes\<close> filters, empty for the null pointer.
\<close>

record arcan_devnode =
  handle :: int
  hnd :: evhandler
  label :: string
  devnum :: nat
  button_count :: nat
  type :: devnode_type
  sensor_data :: axis_opts
  game_axes :: nat
  game_buttons :: nat
  game_hats :: "int list"
  game_adata :: "axis_opts list"
  cursor_mx :: nat
  cursor_my :: nat
  cursor_flt :: "axis_opts list"
  keyboard_state :: "32 word"
  keyboard_numlock :: bool
  keyboard_capslock :: bool
  keyboard_scrolllock :: bool
  touch_incomplete :: bool

record pollfd =
  fd :: int
  events :: int

text \<open>
  The global \<^verbatim>\<open>iodev\<close>, together with the descriptors handed to \<^verbatim>\<open>close\<close> so far
  (\<open>closed\<close>, latest last), which makes that effect visible.
\<close>

record iodev =
  n_devs :: nat
  sz_nodes :: nat
  mouseid :: nat
  nodes :: "arcan_devnode list"
  pollset :: "pollfd list"
  closed :: "int list"

text \<open>
  The value that zero initialisation gives the enumeration \<^verbatim>\<open>devnode_type\<close>. Which
  enumerator has the value 0 is not known without device_db.h; no property below depends
  on the choice.
\<close>

definition devnode_type_zero :: devnode_type where
  "devnode_type_zero = DEVNODE_SENSOR"

definition evhandler_zero :: evhandler where
  "evhandler_zero =
     \<lparr>handler = None, eh_type = devnode_type_zero, button_mask = 0, axis_mask = 0,
      digital_hat = False\<rparr>"

definition devnode_zero :: arcan_devnode where
  "devnode_zero =
     \<lparr>handle = 0, hnd = evhandler_zero, label = [], devnum = 0, button_count = 0,
      type = devnode_type_zero, sensor_data = axis_zero,
      game_axes = 0, game_buttons = 0, game_hats = replicate 16 0, game_adata = [],
      cursor_mx = 0, cursor_my = 0, cursor_flt = [axis_zero, axis_zero],
      keyboard_state = 0, keyboard_numlock = False, keyboard_capslock = False,
      keyboard_scrolllock = False, touch_incomplete = False\<rparr>"

definition pollfd_zero :: pollfd where
  "pollfd_zero = \<lparr>fd = 0, events = 0\<rparr>"

text \<open>\<^verbatim>\<open>iodev = {0}\<close>: the registry at program start.\<close>

definition iodev_init :: iodev where
  "iodev_init =
     \<lparr>n_devs = 0, sz_nodes = 0, mouseid = 0, nodes = [], pollset = [], closed = []\<rparr>"

text \<open>
  \<^verbatim>\<open>lookup_devnode\<close>, lines 167-181. The pointer it returns is the index of the slot;
  \<open>None\<close> is the null pointer.
\<close>

definition lookup_devnode :: "iodev \<Rightarrow> int \<Rightarrow> nat option" where
  "lookup_devnode st devid0 =
     (let devid = (if devid0 < 0 then int (mouseid st) else devid0)
      in if devid < int (n_devs st) then Some (nat devid)
         else List.find (\<lambda>i. int (devnum (nodes st ! i)) = devid) [0..<n_devs st])"

subsection \<open>Discovery: identification and classification\<close>

text \<open>
  What the system answers while \<^verbatim>\<open>got_device\<close> handles one descriptor:
  \<^item> \<open>fstat_ok\<close>: \<^verbatim>\<open>fstat\<close> does not return -1; \<open>st_chr_or_blk\<close>: the mode has
    \<^verbatim>\<open>S_IFCHR\<close> or \<^verbatim>\<open>S_IFBLK\<close>;
  \<^item> \<open>name\<close>: the name given by \<^verbatim>\<open>EVIOCGNAME\<close> (\<open>None\<close> when the call returns -1);
  \<^item> \<open>id_hash\<close>: \<open>None\<close> when \<^verbatim>\<open>EVIOCGID\<close> returns -1, otherwise the value of
    \<^verbatim>\<open>hash\<close> reached at line 250 of \<^verbatim>\<open>identify\<close> (the bytes that are hashed are not
    modelled);
  \<^item> \<open>evbit n\<close>: the bit array filled by \<^verbatim>\<open>EVIOCGBIT(n, ...)\<close> as a bit test
    (\<open>None\<close> when the call returns -1);
  \<^item> \<open>absinfo i\<close>: minimum and maximum given by \<^verbatim>\<open>EVIOCGABS(i)\<close>;
  \<^item> \<open>nodes_realloc_ok\<close>, \<open>pollset_realloc_ok\<close>: the two \<^verbatim>\<open>realloc\<close> calls succeed;
  \<^item> \<open>aliased\<close>: the class sub-states of a node share the storage of a union. Once
    \<^verbatim>\<open>map_axes\<close> has stored a non-zero axis count and the pointer to the allocated
    filters in the member \<^verbatim>\<open>game\<close>, the members \<^verbatim>\<open>sensor\<close>, \<^verbatim>\<open>cursor\<close>,
    \<^verbatim>\<open>keyboard\<close> and \<^verbatim>\<open>touch\<close> read those bytes. What they read depends on the layout
    of the union and on the value of the pointer, and is an answer of the system like the
    others; nothing is assumed about it.
\<close>

record union_alias =
  al_sensor_data :: axis_opts
  al_cursor_mx :: nat
  al_cursor_my :: nat
  al_cursor_flt0 :: axis_opts
  al_cursor_flt1 :: axis_opts
  al_keyboard_state :: "32 word"
  al_keyboard_numlock :: bool
  al_keyboard_capslock :: bool
  al_keyboard_scrolllock :: bool
  al_touch_incomplete :: bool

record devenv =
  fstat_ok :: bool
  st_chr_or_blk :: bool
  name :: "string option"
  id_hash :: "nat option"
  evbit :: "nat \<Rightarrow> (nat \<Rightarrow> bool) option"
  absinfo :: "nat \<Rightarrow> (int \<times> int) option"
  nodes_realloc_ok :: bool
  pollset_realloc_ok :: bool
  aliased :: union_alias

text \<open>
  The parts of device_db.h that \<^verbatim>\<open>got_device\<close> uses, taken as parameters: the label
  override table \<^verbatim>\<open>lookup_dev_handler\<close> and the table \<^verbatim>\<open>defhandlers\<close>.
\<close>

record device_db =
  lookup_dev_handler :: "string \<Rightarrow> evhandler"
  defhandlers :: "devnode_type \<Rightarrow> nat option"

text \<open>A failed \<^verbatim>\<open>assert\<close> ends the process.\<close>

datatype abort = Assertion_failed

text \<open>
  \<^verbatim>\<open>identify\<close>, lines 187-257: label and device number. The 16-bit clamp of the hash
  and the shift out of the slot-index range are lines 250-252.
\<close>

definition identify :: "devenv \<Rightarrow> (string \<times> nat) option" where
  "identify e =
     (let lbl = (case name e of None \<Rightarrow> ''unknown'' | Some n \<Rightarrow> n)
      in case id_hash e of
           None \<Rightarrow> None
         | Some hash \<Rightarrow>
             (let dnum = hash mod 65536
              in Some (lbl, if dnum < MAX_DEVICES then dnum + MAX_DEVICES else dnum)))"

text \<open>
  \<^verbatim>\<open>button_count\<close>, lines 538-560: the count, and the two flags, which keep their
  values when the ioctl fails (the function then returns \<^verbatim>\<open>false\<close>, that is 0).
\<close>

definition button_count_fn :: "devenv \<Rightarrow> nat \<Rightarrow> bool \<Rightarrow> bool \<Rightarrow> nat \<times> bool \<times> bool" where
  "button_count_fn e bitn got_mouse got_joy =
     (case evbit e bitn of
        None \<Rightarrow> (0, got_mouse, got_joy)
      | Some bits \<Rightarrow>
          (length (filter bits [0..<KEY_MAX]),
           bits BTN_MOUSE \<or> bits BTN_LEFT \<or> bits BTN_RIGHT \<or> bits BTN_MIDDLE,
           bits BTN_JOYSTICK \<or> bits BTN_GAMEPAD \<or> bits BTN_WHEEL))"

text \<open>\<^verbatim>\<open>check_mouse_axis\<close>, lines 562-571.\<close>

definition check_mouse_axis :: "devenv \<Rightarrow> nat \<Rightarrow> bool" where
  "check_mouse_axis e bitn =
     (case evbit e bitn of None \<Rightarrow> False | Some bits \<Rightarrow> bits REL_X \<and> bits REL_Y)"

text \<open>
  \<^verbatim>\<open>map_axes\<close>, lines 573-617. One filter per supported absolute axis (lines 605-615):
  zeroed, averaging mode, the signed 16-bit range unless \<^verbatim>\<open>EVIOCGABS\<close> answers, and an
  assertion on the answered range.
\<close>

definition axis_default :: axis_opts where
  "axis_default =
     axis_zero\<lparr>mode := ARCAN_ANALOGFILTER_AVG, oldmode := ARCAN_ANALOGFILTER_AVG,
               lower := - 32768, upper := 32767\<rparr>"

definition axis_created :: "(int \<times> int) option \<Rightarrow> abort + axis_opts" where
  "axis_created ainf =
     (case ainf of
        None \<Rightarrow> Inr axis_default
      | Some (minimum, maximum) \<Rightarrow>
          if maximum \<noteq> minimum \<and> maximum > minimum
          then Inr (axis_default\<lparr>upper := maximum, lower := minimum\<rparr>)
          else Inl Assertion_failed)"

fun map_axes_loop :: "devenv \<Rightarrow> (nat \<Rightarrow> bool) \<Rightarrow> nat list \<Rightarrow> abort + axis_opts list" where
  "map_axes_loop e bits [] = Inr []"
| "map_axes_loop e bits (i # is) =
     (if bits i then
        (case axis_created (absinfo e i) of
           Inl a \<Rightarrow> Inl a
         | Inr ax \<Rightarrow>
             (case map_axes_loop e bits is of
                Inl a \<Rightarrow> Inl a
              | Inr axs \<Rightarrow> Inr (ax # axs)))
      else map_axes_loop e bits is)"

definition map_axes :: "devenv \<Rightarrow> nat \<Rightarrow> arcan_devnode \<Rightarrow> abort + arcan_devnode" where
  "map_axes e bitn node =
     (case evbit e bitn of
        None \<Rightarrow> Inr node
      | Some bits \<Rightarrow>
          if type node \<noteq> DEVNODE_GAME then Inl Assertion_failed
          else if game_adata node \<noteq> [] then Inr node
          else
            (let axes = length (filter bits [0..<ABS_MAX])
             in if axes = 0 then Inr (node\<lparr>game_axes := 0\<rparr>)
                else
                  (case map_axes_loop e bits [0..<ABS_MAX] of
                     Inl a \<Rightarrow> Inl a
                   | Inr axs \<Rightarrow> Inr (node\<lparr>game_axes := axes, game_adata := axs\<rparr>))))"

text \<open>
  The capability loop of \<^verbatim>\<open>got_device\<close>, lines 682-713: the node under construction
  and the three flags \<^verbatim>\<open>mouse_ax\<close>, \<^verbatim>\<open>mouse_btn\<close>, \<^verbatim>\<open>joystick_btn\<close>. \<open>probe_case\<close> is
  the \<^verbatim>\<open>switch\<close>, \<open>probe_bits\<close> the \<^verbatim>\<open>for\<close> over the bits that are set.
\<close>

record probe_acc =
  acc_node :: arcan_devnode
  mouse_ax :: bool
  mouse_btn :: bool
  joystick_btn :: bool

definition probe_case :: "devenv \<Rightarrow> nat \<Rightarrow> probe_acc \<Rightarrow> abort + probe_acc" where
  "probe_case e bitn acc =
     (if bitn = EV_KEY then
        (case button_count_fn e bitn (mouse_btn acc) (joystick_btn acc) of
           (c, m, j) \<Rightarrow>
             Inr (acc\<lparr>acc_node := (acc_node acc)\<lparr>button_count := c\<rparr>,
                      mouse_btn := m, joystick_btn := j\<rparr>))
      else if bitn = EV_REL then Inr (acc\<lparr>mouse_ax := check_mouse_axis e bitn\<rparr>)
      else if bitn = EV_ABS then
        (case map_axes e bitn (acc_node acc) of
           Inl a \<Rightarrow> Inl a
         | Inr n \<Rightarrow> Inr (acc\<lparr>acc_node := n\<rparr>))
      else Inr acc)"

fun probe_bits :: "devenv \<Rightarrow> (nat \<Rightarrow> bool) \<Rightarrow> nat list \<Rightarrow> probe_acc \<Rightarrow> abort + probe_acc" where
  "probe_bits e prop [] acc = Inr acc"
| "probe_bits e prop (bitn # bitns) acc =
     (if prop bitn then
        (case probe_case e bitn acc of
           Inl a \<Rightarrow> Inl a
         | Inr acc1 \<Rightarrow> probe_bits e prop bitns acc1)
      else probe_bits e prop bitns acc)"

text \<open>
  The classification decision, lines 715-737: the node with its class and handler, and
  the registry, whose \<^verbatim>\<open>mouseid\<close> the first mouse sets. The \<^verbatim>\<open>KDKBDREP\<close> ioctl on a
  keyboard leaves no trace in the registry. Up to here only the member \<^verbatim>\<open>game\<close> of the
  union has been written (by \<^verbatim>\<open>map_axes\<close>); from here on the other members are read
  through \<open>union_view\<close>: with no filters allocated all of them are still zero, otherwise
  they hold what the system says of the shared storage.
\<close>

definition union_view :: "devenv \<Rightarrow> arcan_devnode \<Rightarrow> arcan_devnode" where
  "union_view e node =
     (if game_adata node = [] then node
      else node\<lparr>sensor_data := al_sensor_data (aliased e),
                cursor_mx := al_cursor_mx (aliased e), cursor_my := al_cursor_my (aliased e),
                cursor_flt := [al_cursor_flt0 (aliased e), al_cursor_flt1 (aliased e)],
                keyboard_state := al_keyboard_state (aliased e),
                keyboard_numlock := al_keyboard_numlock (aliased e),
                keyboard_capslock := al_keyboard_capslock (aliased e),
                keyboard_scrolllock := al_keyboard_scrolllock (aliased e),
                touch_incomplete := al_touch_incomplete (aliased e)\<rparr>)"

definition classify ::
  "device_db \<Rightarrow> devenv \<Rightarrow> evhandler \<Rightarrow> probe_acc \<Rightarrow> iodev \<Rightarrow> arcan_devnode \<times> iodev" where
  "classify db e eh acc st =
     (let node = union_view e (acc_node acc)
      in if handler eh = None then
           (let (n1, st1) =
              (if mouse_ax acc \<and> mouse_btn acc then
                 (node\<lparr>type := DEVNODE_MOUSE,
                       cursor_flt := [(cursor_flt node ! 0)\<lparr>mode := ARCAN_ANALOGFILTER_PASS\<rparr>,
                                      (cursor_flt node ! 1)\<lparr>mode := ARCAN_ANALOGFILTER_PASS\<rparr>]\<rparr>,
                  if mouseid st = 0 then st\<lparr>mouseid := devnum node\<rparr> else st)
               else if \<not> mouse_btn acc \<and> \<not> joystick_btn acc \<and> button_count node > 84 then
                 (node\<lparr>type := DEVNODE_KEYBOARD\<rparr>, st)
               else (node, st))
            in (n1\<lparr>hnd := (hnd n1)\<lparr>handler := defhandlers db (type n1)\<rparr>\<rparr>, st1))
         else (node\<lparr>hnd := eh, type := eh_type eh\<rparr>, st))"

subsection \<open>Registration\<close>

text \<open>
  The slot scan, lines 740-758, over the slot indices still to visit: \<open>Inl i\<close> when slot
  \<open>i\<close> holds the device number (the reconnect case), \<open>Inr hole\<close> when the scan ends, with
  the first free slot or -1.
\<close>

fun find_slot :: "arcan_devnode list \<Rightarrow> nat \<Rightarrow> nat list \<Rightarrow> int \<Rightarrow> nat + int" where
  "find_slot ns dn [] hole = Inr hole"
| "find_slot ns dn (i # is) hole =
     (if hole = - 1 \<and> handle (ns ! i) \<le> 0 then find_slot ns dn is (int i)
      else if devnum (ns ! i) = dn then Inl i
      else find_slot ns dn is hole)"

text \<open>
  Lines 739-795. Growth replaces both arrays by arrays of 8 more zeroed entries; when the
  second \<^verbatim>\<open>realloc\<close> fails the node array has grown already while \<^verbatim>\<open>sz_nodes\<close> has not.
  The \<^verbatim>\<open>cleanup\<close> label closes the new descriptor.
\<close>

definition register_node :: "iodev \<Rightarrow> arcan_devnode \<Rightarrow> int \<Rightarrow> devenv \<Rightarrow> iodev" where
  "register_node st node new_fd e =
     (let ins = (\<lambda>s h. s\<lparr>n_devs := n_devs s + 1,
                          pollset := (pollset s)[h := \<lparr>fd = new_fd, events = POLLIN\<rparr>],
                          nodes := (nodes s)[h := node]\<rparr>);
          cleanup = (\<lambda>s. s\<lparr>closed := closed s @ [new_fd]\<rparr>)
      in case find_slot (nodes st) (devnum node) [0..<sz_nodes st] (- 1) of
           Inl i \<Rightarrow>
             (let st1 = (if handle (nodes st ! i) > 0
                         then st\<lparr>closed := closed st @ [handle (nodes st ! i)]\<rparr> else st)
              in st1\<lparr>nodes := (nodes st1)[i := (nodes st1 ! i)\<lparr>handle := new_fd\<rparr>],
                     pollset := (pollset st1)[i := \<lparr>fd = new_fd, events = POLLIN\<rparr>]\<rparr>)
         | Inr hole \<Rightarrow>
             if hole = - 1 then
               (if \<not> nodes_realloc_ok e then cleanup st
                else
                  (let st1 = st\<lparr>nodes := take (sz_nodes st) (nodes st) @ replicate 8 devnode_zero\<rparr>
                   in if \<not> pollset_realloc_ok e then cleanup st1
                      else ins (st1\<lparr>pollset := take (sz_nodes st) (pollset st) @
                                                  replicate 8 pollfd_zero,
                                      sz_nodes := sz_nodes st + 8\<rparr>)
                               (sz_nodes st)))
             else ins st (nat hole))"

text \<open>
  \<^verbatim>\<open>got_device\<close>, lines 619-737: everything before the slot scan. The result is the
  registry (descriptors closed, \<^verbatim>\<open>mouseid\<close>) and the classified node, or no node when
  the function has returned early. The path is used for messages and inside the hash only
  and is left out. Lines 647-650 close the descriptor of a device over the limit and go
  on; the \<^verbatim>\<open>EVIOCGBIT\<close> ioctl of line 675 is then made on a closed descriptor and
  returns -1, so lines 678-679 close it once more and return.
\<close>

definition probe_device ::
  "device_db \<Rightarrow> iodev \<Rightarrow> int \<Rightarrow> devenv \<Rightarrow> abort + (iodev \<times> arcan_devnode option)" where
  "probe_device db st new_fd e =
     (if \<not> fstat_ok e then Inr (st, None)
      else if \<not> st_chr_or_blk e then Inr (st, None)
      else
        (case identify e of
           None \<Rightarrow> Inr (st\<lparr>closed := closed st @ [new_fd]\<rparr>, None)
         | Some (lbl, dnum) \<Rightarrow>
             (let node = devnode_zero\<lparr>handle := new_fd, label := lbl, devnum := dnum\<rparr>;
                  st1 = (if n_devs st \<ge> MAX_DEVICES
                         then st\<lparr>closed := closed st @ [new_fd]\<rparr> else st);
                  eh = lookup_dev_handler db lbl;
                  node1 = node\<lparr>type := DEVNODE_GAME\<rparr>
              in case (if n_devs st \<ge> MAX_DEVICES then None else evbit e 0) of
                   None \<Rightarrow> Inr (st1\<lparr>closed := closed st1 @ [new_fd]\<rparr>, None)
                 | Some prop \<Rightarrow>
                     (case probe_bits e prop [0..<EV_MAX]
                             \<lparr>acc_node = node1, mouse_ax = False, mouse_btn = False,
                              joystick_btn = False\<rparr> of
                        Inl a \<Rightarrow> Inl a
                      | Inr acc \<Rightarrow>
                          (case classify db e eh acc st1 of
                             (node2, st2) \<Rightarrow> Inr (st2, Some node2))))))"

text \<open>\<^verbatim>\<open>got_device\<close>, lines 619-796.\<close>

definition got_device :: "device_db \<Rightarrow> iodev \<Rightarrow> int \<Rightarrow> devenv \<Rightarrow> abort + iodev" where
  "got_device db st new_fd e =
     (case probe_device db st new_fd e of
        Inl a \<Rightarrow> Inl a
      | Inr (st1, None) \<Rightarrow> Inr st1
      | Inr (st1, Some node) \<Rightarrow> Inr (register_node st1 node new_fd e))"

text \<open>Registering a sequence of discovered descriptors, each with the answers it gets.\<close>

fun got_devices :: "device_db \<Rightarrow> iodev \<Rightarrow> (int \<times> devenv) list \<Rightarrow> abort + iodev" where
  "got_devices db st [] = Inr st"
| "got_devices db st ((new_fd, e) # ds) =
     (case got_device db st new_fd e of
        Inl a \<Rightarrow> Inl a
      | Inr st1 \<Rightarrow> got_devices db st1 ds)"

text \<open>\<^verbatim>\<open>disconnect\<close>, lines 862-874, called on the node in slot \<open>j\<close>.\<close>

definition disconnect :: "iodev \<Rightarrow> nat \<Rightarrow> iodev" where
  "disconnect st j =
     (case List.find (\<lambda>i. devnum (nodes st ! j) = devnum (nodes st ! i)) [0..<n_devs st] of
        None \<Rightarrow> st
      | Some i \<Rightarrow>
          st\<lparr>closed := closed st @ [handle (nodes st ! j)],
             nodes := (nodes st)[j := (nodes st ! j)\<lparr>handle := 0\<rparr>],
             pollset := (pollset st)[i := \<lparr>fd = 0, events = 0\<rparr>],
             n_devs := (if i = n_devs st - 1 then n_devs st - 1 else n_devs st)\<rparr>)"

subsection \<open>The analog state interface\<close>

text \<open>
  \<^verbatim>\<open>find_axis\<close>, lines 343-373. The pointer to a filter is the place it lives in:
  the slot, and the index within the node's filters. The first component is \<^verbatim>\<open>*outn\<close>.
\<close>

datatype axis_ref =
    Sensor_data nat
  | Game_adata nat nat
  | Cursor_flt nat nat

definition find_axis :: "iodev \<Rightarrow> int \<Rightarrow> nat \<Rightarrow> bool \<times> axis_ref option" where
  "find_axis st devid axisid =
     (case lookup_devnode st devid of
        None \<Rightarrow> (False, None)
      | Some n \<Rightarrow>
          (True,
           (case type (nodes st ! n) of
              DEVNODE_SENSOR \<Rightarrow> if axisid = 0 then Some (Sensor_data n) else None
            | DEVNODE_GAME \<Rightarrow>
                if axisid < game_axes (nodes st ! n) then Some (Game_adata n axisid) else None
            | DEVNODE_MOUSE \<Rightarrow>
                if axisid = 0 then Some (Cursor_flt n 0)
                else if axisid = 1 then Some (Cursor_flt n 1)
                else None
            | _ \<Rightarrow> None)))"

fun get_axis :: "iodev \<Rightarrow> axis_ref \<Rightarrow> axis_opts" where
  "get_axis st (Sensor_data n) = sensor_data (nodes st ! n)"
| "get_axis st (Game_adata n a) = game_adata (nodes st ! n) ! a"
| "get_axis st (Cursor_flt n a) = cursor_flt (nodes st ! n) ! a"

fun put_axis :: "iodev \<Rightarrow> axis_ref \<Rightarrow> axis_opts \<Rightarrow> iodev" where
  "put_axis st (Sensor_data n) ax =
     st\<lparr>nodes := (nodes st)[n := (nodes st ! n)\<lparr>sensor_data := ax\<rparr>]\<rparr>"
| "put_axis st (Game_adata n a) ax =
     st\<lparr>nodes := (nodes st)[n := (nodes st ! n)\<lparr>game_adata := (game_adata (nodes st ! n))[a := ax]\<rparr>]\<rparr>"
| "put_axis st (Cursor_flt n a) ax =
     st\<lparr>nodes := (nodes st)[n := (nodes st ! n)\<lparr>cursor_flt := (cursor_flt (nodes st ! n))[a := ax]\<rparr>]\<rparr>"

text \<open>
  Modelled from the spec: the error codes are declared in a header that is not among the
  sources; the three that \<^verbatim>\<open>platform_event_analogstate\<close> returns are listed.
\<close>

datatype arcan_errc =
    ARCAN_OK
  | ARCAN_ERRC_BAD_RESOURCE
  | ARCAN_ERRC_NO_SUCH_OBJECT

text \<open>The five locations that \<^verbatim>\<open>platform_event_analogstate\<close> writes through its pointers.\<close>

record analog_outs =
  lower_bound :: int
  upper_bound :: int
  deadzone_out :: int
  kernel_size :: int
  mode_out :: ARCAN_ANALOGFILTER_KIND

text \<open>
  \<^verbatim>\<open>platform_event_analogstate\<close>, lines 375-393: the return code and the contents of the
  five locations afterwards, given their contents before. The \<^verbatim>\<open>int axisid\<close> is passed to
  the \<^verbatim>\<open>unsigned\<close> parameter of \<^verbatim>\<open>find_axis\<close>.
\<close>

definition platform_event_analogstate ::
  "iodev \<Rightarrow> int \<Rightarrow> int \<Rightarrow> analog_outs \<Rightarrow> arcan_errc \<times> analog_outs" where
  "platform_event_analogstate st devid axisid outs =
     (case find_axis st devid (nat (axisid mod 2 ^ 32)) of
        (gotnode, None) \<Rightarrow>
          (if gotnode then ARCAN_ERRC_BAD_RESOURCE else ARCAN_ERRC_NO_SUCH_OBJECT, outs)
      | (gotnode, Some r) \<Rightarrow>
          (ARCAN_OK,
           \<lparr>lower_bound = lower (get_axis st r), upper_bound = upper (get_axis st r),
            deadzone_out = deadzone (get_axis st r), kernel_size = kernel_sz (get_axis st r),
            mode_out = mode (get_axis st r)\<rparr>))"

text \<open>\<^verbatim>\<open>platform_event_analogfilter\<close>, lines 407-425.\<close>

definition platform_event_analogfilter ::
  "iodev \<Rightarrow> int \<Rightarrow> int \<Rightarrow> int \<Rightarrow> int \<Rightarrow> int \<Rightarrow> int \<Rightarrow> ARCAN_ANALOGFILTER_KIND \<Rightarrow> iodev" where
  "platform_event_analogfilter st devid axisid lo hi dz buffer_sz kind =
     (case snd (find_axis st devid (nat (axisid mod 2 ^ 32))) of
        None \<Rightarrow> st
      | Some r \<Rightarrow> put_axis st r (analogfilter_axis (get_axis st r) lo hi dz buffer_sz kind))"

section \<open>Event decoders\<close>

text \<open>
  Modelled from the spec: \<^verbatim>\<open>arcan_event\<close> is declared in arcan_event.h, which is not
  among the sources. The spec describes a normalized event by its category (digital
  button, analog axis move, translated key), device identity, sub-identifier and payload;
  the events handed to \<^verbatim>\<open>arcan_event_enqueue\<close> carry the fields that the decoders write:
  \<^item> \<open>Translated devid scancode keysym modifiers subid active\<close>,
  \<^item> \<open>Digital devkind devid subid active\<close>,
  \<^item> \<open>Analog devkind gotrel subid devid axisval0 axisval1 nvalues\<close>.
\<close>

datatype devkind =
    EVENT_IDEVKIND_KEYBOARD
  | EVENT_IDEVKIND_MOUSE
  | EVENT_IDEVKIND_GAMEDEV

datatype arcan_event =
    Translated nat nat nat "32 word" nat bool
  | Digital devkind nat int bool
  | Analog devkind bool nat nat int int nat

text \<open>\<^verbatim>\<open>struct input_event\<close> without its time stamp, and what \<^verbatim>\<open>read\<close> gives a decoder:
  -1, or the complete records of the batch.\<close>

record input_event =
  ev_type :: nat
  ev_code :: nat
  ev_value :: int

datatype read_result =
    Read_error
  | Read_records "input_event list"

subsection \<open>Hat switches\<close>

text \<open>
  \<^verbatim>\<open>decode_hat\<close>, lines 932-981, on the hat states of a game device: the node and the
  events enqueued, in order. \<open>ind\<close> is the hat axis, 0..7 from \<^verbatim>\<open>defhandler_game\<close>.
\<close>

definition decode_hat :: "arcan_devnode \<Rightarrow> nat \<Rightarrow> int \<Rightarrow> arcan_devnode \<times> arcan_event list" where
  "decode_hat node ind0 val0 =
     (let ind = ind0 * 2; base = 64
      in if val0 = 0 then
           (let (n1, e1) =
                  (if game_hats node ! ind \<noteq> 0
                   then (node\<lparr>game_hats := (game_hats node)[ind := 0]\<rparr>,
                         [Digital EVENT_IDEVKIND_GAMEDEV (devnum node) (base + int ind) False])
                   else (node, []));
                (n2, e2) =
                  (if game_hats n1 ! (ind + 1) \<noteq> 0
                   then (n1\<lparr>game_hats := (game_hats n1)[ind + 1 := 0]\<rparr>,
                         [Digital EVENT_IDEVKIND_GAMEDEV (devnum node) (base + int ind + 1) False])
                   else (n1, []))
            in (n2, e1 @ e2))
         else
           (let val = (if val0 < 0 then - 1 else 1);
                ind1 = (if val > 0 then ind + 1 else ind)
            in (node\<lparr>game_hats := (game_hats node)[ind1 := val]\<rparr>,
                [Digital EVENT_IDEVKIND_GAMEDEV (devnum node) (base + int ind1) True])))"

text \<open>A sequence of values reported for one hat axis.\<close>

fun decode_hats :: "arcan_devnode \<Rightarrow> nat \<Rightarrow> int list \<Rightarrow> arcan_devnode \<times> arcan_event list" where
  "decode_hats node ind [] = (node, [])"
| "decode_hats node ind (v # vs) =
     (case decode_hat node ind v of
        (n1, e1) \<Rightarrow> (case decode_hats n1 ind vs of (n2, e2) \<Rightarrow> (n2, e1 @ e2)))"

text \<open>What a consumer of the events holds as the state of a digital sub-id.\<close>

fun digital_active :: "int \<Rightarrow> bool \<Rightarrow> arcan_event list \<Rightarrow> bool" where
  "digital_active subid a [] = a"
| "digital_active subid a (Digital k d s act # es) =
     digital_active subid (if s = subid then act else a) es"
| "digital_active subid a (e # es) = digital_active subid a es"

subsection \<open>Keyboard\<close>

text \<open>
  The parts of keycode_xlate.h and arcan_event.h that the keyboard decoder uses, taken as
  parameters: the table \<^verbatim>\<open>klut\<close>, the functions \<^verbatim>\<open>lookup_keycode\<close> and
  \<^verbatim>\<open>lookup_character\<close>, the key symbols of the five tracked modifier keys and the
  \<^verbatim>\<open>ARKMOD_\<close> constants.
\<close>

record keycode_xlate =
  klut :: "nat \<Rightarrow> nat"
  lookup_keycode :: "nat \<Rightarrow> nat"
  lookup_character :: "nat \<Rightarrow> 32 word \<Rightarrow> nat"
  K_LSHIFT :: nat
  K_RSHIFT :: nat
  K_LCTRL :: nat
  K_RCTRL :: nat
  K_CAPSLOCK :: nat
  ARKMOD_LSHIFT :: nat
  ARKMOD_RSHIFT :: nat
  ARKMOD_LCTRL :: nat
  ARKMOD_RCTRL :: nat
  ARKMOD_CAPS :: nat

text \<open>
  \<^verbatim>\<open>update_state\<close>, lines 832-860, on the \<^verbatim>\<open>unsigned\<close> modifier state.
  \<^verbatim>\<open>1 << modifier\<close> is bit \<open>modifier\<close>; C leaves the shift undefined from 31 on, where
  the 32-bit word here has no bit to set.
\<close>

definition update_state :: "keycode_xlate \<Rightarrow> nat \<Rightarrow> bool \<Rightarrow> 32 word \<Rightarrow> 32 word" where
  "update_state x code state statev =
     (let upd = (\<lambda>modifier. if state then or statev (push_bit modifier 1)
                              else and statev (not (push_bit modifier 1)))
      in if klut x code = K_LSHIFT x then upd (ARKMOD_LSHIFT x)
         else if klut x code = K_RSHIFT x then upd (ARKMOD_RSHIFT x)
         else if klut x code = K_LCTRL x then upd (ARKMOD_LCTRL x)
         else if klut x code = K_RCTRL x then upd (ARKMOD_RCTRL x)
         else if klut x code = K_CAPSLOCK x then upd (ARKMOD_CAPS x)
         else statev)"

text \<open>
  The record loop of \<^verbatim>\<open>defhandler_kbd\<close>, lines 900-929: the modifier state after the
  batch and the events enqueued, in order.
\<close>

fun kbd_records ::
  "keycode_xlate \<Rightarrow> nat \<Rightarrow> 32 word \<Rightarrow> input_event list \<Rightarrow> 32 word \<times> arcan_event list" where
  "kbd_records x dev statev [] = (statev, [])"
| "kbd_records x dev statev (inev # rest) =
     (if ev_type inev = EV_KEY then
        (let st1 = update_state x (ev_code inev) (ev_value inev \<noteq> 0) statev;
             newev = Translated dev (ev_code inev) (lookup_keycode x (ev_code inev)) st1
                       (lookup_character x (ev_code inev) st1);
             out = (if ev_value inev = 2 then [newev False, newev True]
                    else [newev (ev_value inev \<noteq> 0)])
         in case kbd_records x dev st1 rest of (st2, es) \<Rightarrow> (st2, out @ es))
      else kbd_records x dev statev rest)"

text \<open>
  \<^verbatim>\<open>defhandler_kbd\<close>, lines 876-930, for the node in slot \<open>j\<close>: a failed read
  disconnects the device, a batch without a complete record does nothing.
\<close>

definition defhandler_kbd ::
  "keycode_xlate \<Rightarrow> iodev \<Rightarrow> nat \<Rightarrow> read_result \<Rightarrow> iodev \<times> arcan_event list" where
  "defhandler_kbd x st j rr =
     (case rr of
        Read_error \<Rightarrow> (disconnect st j, [])
      | Read_records inev \<Rightarrow>
          (case kbd_records x (devnum (nodes st ! j)) (keyboard_state (nodes st ! j)) inev of
             (st2, es) \<Rightarrow>
               (st\<lparr>nodes := (nodes st)[j := (nodes st ! j)\<lparr>keyboard_state := st2\<rparr>]\<rparr>, es)))"

subsection \<open>Mouse\<close>

text \<open>\<^verbatim>\<open>code_to_mouse\<close>, lines 1052-1056.\<close>

definition code_to_mouse :: "nat \<Rightarrow> int" where
  "code_to_mouse code =
     (if code < BTN_MOUSE \<or> code \<ge> BTN_JOYSTICK then - 1 else int code - int BTN_MOUSE + 1)"

text \<open>
  Storing \<^verbatim>\<open>mx + samplev\<close> in the \<^verbatim>\<open>uint16_t\<close> counter keeps its low 16 bits
  (lines 1101-1102 and 1118-1119).
\<close>

definition cursor_add :: "nat \<Rightarrow> int \<Rightarrow> nat" where
  "cursor_add m samplev = (if int m + samplev < 0 then 0 else nat ((int m + samplev) mod 65536))"

text \<open>
  One record of the loop of \<^verbatim>\<open>defhandler_mouse\<close>, lines 1081-1139. The 32-bit value of
  the record is passed to the \<^verbatim>\<open>int16_t\<close> parameter of \<^verbatim>\<open>process_axis\<close>; on the X axis
  line 1099 then overwrites the filter's output with the record's value.
\<close>

definition mouse_record :: "arcan_devnode \<Rightarrow> input_event \<Rightarrow> arcan_devnode \<times> arcan_event list" where
  "mouse_record node inev =
     (if ev_type inev = EV_KEY then
        (let samplev = code_to_mouse (ev_code inev)
         in if samplev < 0 then (node, [])
            else (node, [Digital EVENT_IDEVKIND_MOUSE (devnum node) samplev (ev_value inev \<noteq> 0)]))
      else if ev_type inev = EV_REL then
        (if ev_code inev = REL_X then
           (case process_axis (cursor_flt node ! 0) (word_of_int (ev_value inev)) of
              (f, None) \<Rightarrow> (node\<lparr>cursor_flt := (cursor_flt node)[0 := f]\<rparr>, [])
            | (f, Some outv) \<Rightarrow>
                (let samplev = sint (word_of_int (ev_value inev) :: 16 word);
                     m = cursor_add (cursor_mx node) samplev
                 in (node\<lparr>cursor_flt := (cursor_flt node)[0 := f], cursor_mx := m\<rparr>,
                     [Analog EVENT_IDEVKIND_MOUSE True 0 (devnum node) (int m) samplev 2])))
         else if ev_code inev = REL_Y then
           (case process_axis (cursor_flt node ! 1) (word_of_int (ev_value inev)) of
              (f, None) \<Rightarrow> (node\<lparr>cursor_flt := (cursor_flt node)[1 := f]\<rparr>, [])
            | (f, Some outv) \<Rightarrow>
                (let samplev = sint outv;
                     m = cursor_add (cursor_my node) samplev
                 in (node\<lparr>cursor_flt := (cursor_flt node)[1 := f], cursor_my := m\<rparr>,
                     [Analog EVENT_IDEVKIND_MOUSE True 1 (devnum node) (int m) samplev 2])))
         else (node, []))
      else (node, []))"

fun mouse_records :: "arcan_devnode \<Rightarrow> input_event list \<Rightarrow> arcan_devnode \<times> arcan_event list" where
  "mouse_records node [] = (node, [])"
| "mouse_records node (inev # rest) =
     (case mouse_record node inev of
        (n1, e1) \<Rightarrow> (case mouse_records n1 rest of (n2, e2) \<Rightarrow> (n2, e1 @ e2)))"

text \<open>\<^verbatim>\<open>defhandler_mouse\<close>, lines 1058-1141, for the node in slot \<open>j\<close>.\<close>

definition defhandler_mouse :: "iodev \<Rightarrow> nat \<Rightarrow> read_result \<Rightarrow> iodev \<times> arcan_event list" where
  "defhandler_mouse st j rr =
     (case rr of
        Read_error \<Rightarrow> (disconnect st j, [])
      | Read_records inev \<Rightarrow>
          (case mouse_records (nodes st ! j) inev of
             (n1, es) \<Rightarrow> (st\<lparr>nodes := (nodes st)[j := n1]\<rparr>, es)))"

section \<open>Capability signatures of a discovered device\<close>

text \<open>
  What the capability bits of a device say, as the classification rules name it: the
  relative X and Y axes, a mouse button, a joystick button, and the number of buttons.
  A category counts only when the device reports the event type and answers the query.
\<close>

definition has_rel_xy :: "devenv \<Rightarrow> bool" where
  "has_rel_xy e =
     (case evbit e 0 of
        None \<Rightarrow> False
      | Some prop \<Rightarrow>
          prop EV_REL \<and>
          (case evbit e EV_REL of None \<Rightarrow> False | Some bits \<Rightarrow> bits REL_X \<and> bits REL_Y))"

definition has_mouse_button :: "devenv \<Rightarrow> bool" where
  "has_mouse_button e =
     (case evbit e 0 of
        None \<Rightarrow> False
      | Some prop \<Rightarrow>
          prop EV_KEY \<and>
          (case evbit e EV_KEY of
             None \<Rightarrow> False
           | Some bits \<Rightarrow> bits BTN_MOUSE \<or> bits BTN_LEFT \<or> bits BTN_RIGHT \<or> bits BTN_MIDDLE))"

definition has_joystick_button :: "devenv \<Rightarrow> bool" where
  "has_joystick_button e =
     (case evbit e 0 of
        None \<Rightarrow> False
      | Some prop \<Rightarrow>
          prop EV_KEY \<and>
          (case evbit e EV_KEY of
             None \<Rightarrow> False
           | Some bits \<Rightarrow> bits BTN_JOYSTICK \<or> bits BTN_GAMEPAD \<or> bits BTN_WHEEL))"

definition counted_buttons :: "devenv \<Rightarrow> nat" where
  "counted_buttons e =
     (case evbit e 0 of
        None \<Rightarrow> 0
      | Some prop \<Rightarrow>
          if prop EV_KEY then
            (case evbit e EV_KEY of
               None \<Rightarrow> 0
             | Some bits \<Rightarrow> length (filter bits [0..<KEY_MAX]))
          else 0)"

text \<open>
  Every absolute axis that the device reports answers \<^verbatim>\<open>EVIOCGABS\<close> with a range whose
  maximum is above its minimum, or does not answer: no assertion of \<^verbatim>\<open>map_axes\<close> fails.
\<close>

definition abs_ranges_ok :: "devenv \<Rightarrow> bool" where
  "abs_ranges_ok e =
     (case evbit e EV_ABS of
        None \<Rightarrow> True
      | Some bits \<Rightarrow>
          list_all (\<lambda>i. bits i \<longrightarrow>
                      (case absinfo e i of None \<Rightarrow> True | Some (mn, mx) \<Rightarrow> mn < mx))
            [0..<ABS_MAX])"

text \<open>A device that \<^verbatim>\<open>got_device\<close> takes as far as the classification.\<close>

definition discoverable :: "devenv \<Rightarrow> bool" where
  "discoverable e =
     (fstat_ok e \<and> st_chr_or_blk e \<and> id_hash e \<noteq> None \<and> evbit e 0 \<noteq> None \<and> abs_ranges_ok e)"

text \<open>
  What an id names, in the words of the spec's \<open>lookup\<close>: a negative id stands for the
  recorded pointing device; an id below the device count is a slot offset; any other id
  names the first of the counted slots that stores it as identity. Whether the slot still
  holds a valid handle plays no part.
\<close>

definition names_slot :: "iodev \<Rightarrow> int \<Rightarrow> nat \<Rightarrow> bool" where
  "names_slot st devid n =
     (let ident = (if devid < 0 then int (mouseid st) else devid)
      in n < n_devs st \<and>
         (if ident < int (n_devs st) then int n = ident
          else int (devnum (nodes st ! n)) = ident \<and>
               (\<forall>k \<in> {0..<n}. int (devnum (nodes st ! k)) \<noteq> ident)))"

text \<open>An activation among the digital events.\<close>

fun is_activation :: "arcan_event \<Rightarrow> bool" where
  "is_activation (Digital k d s act) = act"
| "is_activation e = False"

text \<open>The device number that \<^verbatim>\<open>identify\<close> derives for a device, if it answers.\<close>

definition derived_identity :: "devenv \<Rightarrow> nat option" where
  "derived_identity e = (case identify e of None \<Rightarrow> None | Some (lbl, dnum) \<Rightarrow> Some dnum)"

section \<open>Example inputs\<close>

text \<open>A registry holding one game controller without axes in slot 0.\<close>

definition example_registry :: iodev where
  "example_registry =
     iodev_init\<lparr>n_devs := 1, sz_nodes := 8,
       nodes := devnode_zero\<lparr>handle := 5, devnum := 300, type := DEVNODE_GAME\<rparr> #
                replicate 7 devnode_zero,
       pollset := \<lparr>fd = 5, events = POLLIN\<rparr> # replicate 7 pollfd_zero\<rparr>"

definition example_outs :: analog_outs where
  "example_outs =
     \<lparr>lower_bound = 1, upper_bound = 2, deadzone_out = 3, kernel_size = 4,
      mode_out = ARCAN_ANALOGFILTER_NONE\<rparr>"

text \<open>
  A key table in which code 42 is the left shift key and code 54 the right shift key, with
  modifier bits 0 and 1; key symbols are the codes themselves.
\<close>

definition example_xlate :: keycode_xlate where
  "example_xlate =
     \<lparr>klut = (\<lambda>c. c), lookup_keycode = (\<lambda>c. c), lookup_character = (\<lambda>c m. c),
      K_LSHIFT = 42, K_RSHIFT = 54, K_LCTRL = 29, K_RCTRL = 97, K_CAPSLOCK = 58,
      ARKMOD_LSHIFT = 0, ARKMOD_RSHIFT = 1, ARKMOD_LCTRL = 6, ARKMOD_RCTRL = 7,
      ARKMOD_CAPS = 13\<rparr>"

text \<open>
  A mouse at position (100, 100) whose two filters were configured for averaging over two
  samples and hold one sample of value 10 each.
\<close>

definition example_avg_mouse :: arcan_devnode where
  "example_avg_mouse =
     devnode_zero\<lparr>handle := 6, devnum := 400, type := DEVNODE_MOUSE,
       cursor_mx := 100, cursor_my := 100,
       cursor_flt :=
         [fst (process_axis
                 (analogfilter_axis axis_zero (- 1000) 1000 0 2 ARCAN_ANALOGFILTER_AVG) 10),
          fst (process_axis
                 (analogfilter_axis axis_zero (- 1000) 1000 0 2 ARCAN_ANALOGFILTER_AVG) 10)]\<rparr>"

text \<open>A mouse as the classification leaves it, at position (5, 5).\<close>

definition example_pass_mouse :: arcan_devnode where
  "example_pass_mouse =
     devnode_zero\<lparr>handle := 6, devnum := 400, type := DEVNODE_MOUSE,
       cursor_mx := 5, cursor_my := 5,
       cursor_flt := [axis_zero\<lparr>mode := ARCAN_ANALOGFILTER_PASS\<rparr>,
                      axis_zero\<lparr>mode := ARCAN_ANALOGFILTER_PASS\<rparr>]\<rparr>"

text \<open>
  A device table without label overrides, and the answers of three devices: a mouse with
  three buttons and two relative axes, a keyboard with 120 keys, and a game pad with one
  joystick button and two absolute axes, one of which reports the range 0..255.
\<close>

definition alias_zero :: union_alias where
  "alias_zero =
     \<lparr>al_sensor_data = axis_zero, al_cursor_mx = 0, al_cursor_my = 0,
      al_cursor_flt0 = axis_zero, al_cursor_flt1 = axis_zero, al_keyboard_state = 0,
      al_keyboard_numlock = False, al_keyboard_capslock = False,
      al_keyboard_scrolllock = False, al_touch_incomplete = False\<rparr>"

text \<open>
  What the other members read on a device with two absolute axes and no counted game
  buttons, on a little-endian system with 64-bit pointers that has allocated the filters
  at the address 0x5555557692a0: the axis count is read as \<^verbatim>\<open>cursor.mx\<close>, as
  \<^verbatim>\<open>keyboard.state\<close> and as \<^verbatim>\<open>touch.incomplete\<close>; the three low bytes of the pointer
  are the three zone flags of \<^verbatim>\<open>cursor.flt[0]\<close> and its upper half is the kernel size
  of that filter; the two halves of the pointer are the kernel size and the kernel offset
  of \<^verbatim>\<open>sensor.data\<close>. The hat states, all zero, are read as the modes and bounds.
\<close>

definition alias_two_axes :: union_alias where
  "alias_two_axes =
     \<lparr>al_sensor_data = axis_zero\<lparr>kernel_sz := 1433834144, kernel_ofs := 21845\<rparr>,
      al_cursor_mx = 2, al_cursor_my = 0,
      al_cursor_flt0 = axis_zero\<lparr>inlzone := True, inuzone := True, indzone := True,
                                  kernel_sz := 21845\<rparr>,
      al_cursor_flt1 = axis_zero, al_keyboard_state = 2,
      al_keyboard_numlock = False, al_keyboard_capslock = False,
      al_keyboard_scrolllock = False, al_touch_incomplete = True\<rparr>"

definition example_db :: device_db where
  "example_db = \<lparr>lookup_dev_handler = (\<lambda>l. evhandler_zero), defhandlers = (\<lambda>t. Some 1)\<rparr>"

definition example_mouse_env :: devenv where
  "example_mouse_env =
     \<lparr>fstat_ok = True, st_chr_or_blk = True, name = Some ''mouse'', id_hash = Some 70000,
      evbit = (\<lambda>n. if n = 0 then Some (\<lambda>b. b \<le> 2)
                     else if n = 1 then Some (\<lambda>b. 272 \<le> b \<and> b \<le> 274)
                     else if n = 2 then Some (\<lambda>b. b \<le> 1)
                     else None),
      absinfo = (\<lambda>i. None), nodes_realloc_ok = True, pollset_realloc_ok = True,
      aliased = alias_zero\<rparr>"

definition example_kbd_env :: devenv where
  "example_kbd_env =
     \<lparr>fstat_ok = True, st_chr_or_blk = True, name = Some ''keyboard'', id_hash = Some 70001,
      evbit = (\<lambda>n. if n = 0 then Some (\<lambda>b. b \<le> 1)
                     else if n = 1 then Some (\<lambda>b. b < 120)
                     else None),
      absinfo = (\<lambda>i. None), nodes_realloc_ok = True, pollset_realloc_ok = True,
      aliased = alias_zero\<rparr>"

definition example_pad_env :: devenv where
  "example_pad_env =
     \<lparr>fstat_ok = True, st_chr_or_blk = True, name = None, id_hash = Some 70002,
      evbit = (\<lambda>n. if n = 0 then Some (\<lambda>b. b = 0 \<or> b = 1 \<or> b = 3)
                     else if n = 1 then Some (\<lambda>b. b = 288)
                     else if n = 3 then Some (\<lambda>b. b \<le> 1)
                     else None),
      absinfo = (\<lambda>i. if i = 0 then Some (0, 255) else None),
      nodes_realloc_ok = True, pollset_realloc_ok = True, aliased = alias_two_axes\<rparr>"

text \<open>
  300 devices with the distinct identities 256..555, descriptors 1..300, no capabilities
  beyond the event types and no label.
\<close>

definition example_plain_env :: "nat \<Rightarrow> devenv" where
  "example_plain_env h =
     \<lparr>fstat_ok = True, st_chr_or_blk = True, name = None, id_hash = Some h,
      evbit = (\<lambda>n. if n = 0 then Some (\<lambda>b. False) else None),
      absinfo = (\<lambda>i. None), nodes_realloc_ok = True, pollset_realloc_ok = True,
      aliased = alias_zero\<rparr>"

definition example_300 :: "(int \<times> devenv) list" where
  "example_300 = map (\<lambda>k. (int k + 1, example_plain_env (256 + k))) [0..<300]"

text \<open>
  A stick with two absolute axes and nothing else, the first with the range 0..255. It is
  registered with two plain devices; then its first filter is configured for a kernel of
  four samples, a failed read disconnects it, and it is discovered again.
  \<open>example_stick_node\<close> and \<open>example_plain_node\<close> are the nodes that the discovery
  builds for these devices.
\<close>

definition example_stick_env :: devenv where
  "example_stick_env =
     \<lparr>fstat_ok = True, st_chr_or_blk = True, name = None, id_hash = Some 70003,
      evbit = (\<lambda>n. if n = 0 then Some (\<lambda>b. b = 0 \<or> b = 3)
                     else if n = 3 then Some (\<lambda>b. b < 2)
                     else None),
      absinfo = (\<lambda>i. if i = 0 then Some (0, 255) else None),
      nodes_realloc_ok = True, pollset_realloc_ok = True, aliased = alias_two_axes\<rparr>"

definition example_stick_node :: "int \<Rightarrow> arcan_devnode" where
  "example_stick_node new_fd =
     devnode_zero\<lparr>handle := new_fd, hnd := evhandler_zero\<lparr>handler := Some 1\<rparr>,
       label := ''unknown'', devnum := 4467, type := DEVNODE_GAME, game_axes := 2,
       game_adata := [axis_default\<lparr>upper := 255, lower := 0\<rparr>, axis_default],
       sensor_data := al_sensor_data alias_two_axes, cursor_mx := 2,
       cursor_flt := [al_cursor_flt0 alias_two_axes, axis_zero],
       keyboard_state := 2, touch_incomplete := True\<rparr>"

definition example_plain_node :: "nat \<Rightarrow> int \<Rightarrow> arcan_devnode" where
  "example_plain_node h new_fd =
     devnode_zero\<lparr>handle := new_fd, hnd := evhandler_zero\<lparr>handler := Some 1\<rparr>,
       label := ''unknown'', devnum := h, type := DEVNODE_GAME\<rparr>"

definition example_three :: iodev where
  "example_three =
     projr (got_devices example_db iodev_init
              [(7, example_stick_env), (8, example_plain_env 300), (9, example_plain_env 301)])"

definition example_unplugged :: iodev where
  "example_unplugged =
     disconnect
       (platform_event_analogfilter example_three 4467 0 (- 100) 100 5 4 ARCAN_ANALOGFILTER_AVG)
       0"

definition example_replugged :: iodev where
  "example_replugged = projr (got_device example_db example_unplugged 10 example_stick_env)"

section \<open>Invariants used in the proofs\<close>

text \<open>
  The samples that pass the deadzone and edge tests (lines 268-300) and reach the kernel,
  with the value they are stored with.
\<close>

definition admit :: "axis_opts \<Rightarrow> 16 word \<Rightarrow> axis_opts \<times> 16 word option" where
  "admit d s =
     (case deadzone_check d s of
        None \<Rightarrow> (d, None)
      | Some (d1, s1) \<Rightarrow>
          (case edge_check d1 s1 of
             None \<Rightarrow> (d1, None)
           | Some (d2, s2) \<Rightarrow> (d2, Some s2)))"

text \<open>The values accepted into the kernel during a run of \<^verbatim>\<open>process_axis\<close> calls.\<close>

fun accepted :: "axis_opts \<Rightarrow> 16 word list \<Rightarrow> int list" where
  "accepted d [] = []"
| "accepted d (s # ss) =
     (case snd (admit d s) of
        None \<Rightarrow> accepted (fst (process_axis d s)) ss
      | Some v \<Rightarrow> sint v # accepted (fst (process_axis d s)) ss)"

text \<open>
  The offset invariant of a filter: before any configuration call the kernel size and the
  offset are both 0; after one the size is within 1..64 and the offset below it.
\<close>

definition ofs_inv :: "bool \<Rightarrow> axis_opts \<Rightarrow> bool" where
  "ofs_inv configured ax =
     (if configured
      then 1 \<le> kernel_sz ax \<and> kernel_sz ax \<le> 64 \<and> 0 \<le> kernel_ofs ax \<and>
           kernel_ofs ax < kernel_sz ax
      else kernel_sz ax = 0 \<and> kernel_ofs ax = 0)"

text \<open>A filter that has been configured holds the offset below the size, within 1..64.\<close>

definition cfg_inv :: "bool \<Rightarrow> axis_opts \<Rightarrow> bool" where
  "cfg_inv configured ax =
     (configured \<longrightarrow>
        1 \<le> kernel_sz ax \<and> kernel_sz ax \<le> 64 \<and> 0 \<le> kernel_ofs ax \<and>
        kernel_ofs ax < kernel_sz ax)"

text \<open>
  An averaging filter of kernel size \<open>K\<close> whose kernel holds the pending values \<open>p\<close>
  in its first slots.
\<close>

definition avg_inv :: "axis_opts \<Rightarrow> nat \<Rightarrow> int list \<Rightarrow> bool" where
  "avg_inv d K p =
     (mode d = ARCAN_ANALOGFILTER_AVG \<and> kernel_sz d = int K \<and> 1 \<le> K \<and> K \<le> 64 \<and>
      length (flt_kernel d) = 64 \<and> kernel_ofs d = int (length p) \<and> length p < K \<and>
      take (length p) (flt_kernel d) = p \<and> (\<forall>e \<in> set p. - 32768 \<le> e \<and> e \<le> 32767))"

text \<open>
  A registry filled from the start by registrations of devices with the identities \<open>ids\<close>
  and descriptors \<open>fds\<close>: device \<open>k\<close> is in slot \<open>k\<close>, the slots behind are zeroed,
  and no descriptor has been closed.
\<close>

definition reg_inv :: "iodev \<Rightarrow> nat list \<Rightarrow> int list \<Rightarrow> bool" where
  "reg_inv st ids fds =
     (n_devs st = length ids \<and> length fds = length ids \<and> closed st = [] \<and>
      sz_nodes st = length (nodes st) \<and> length (pollset st) = length (nodes st) \<and>
      length ids \<le> length (nodes st) \<and>
      (\<forall>k < length ids. devnum (nodes st ! k) = ids ! k \<and> handle (nodes st ! k) = fds ! k \<and>
                          0 < fds ! k) \<and>
      (\<forall>k. length ids \<le> k \<and> k < length (nodes st) \<longrightarrow> nodes st ! k = devnode_zero))"

section \<open>Properties of the axis filter\<close>

lemma sint16_range: "- 32768 \<le> sint (w :: 16 word) \<and> sint w \<le> 32767"
  using sint_ge [of w] sint_lt [of w] by simp

lemma sint16_of_int: "- 32768 \<le> k \<Longrightarrow> k \<le> 32767 \<Longrightarrow> sint (word_of_int k :: 16 word) = k"
  by (simp add: sint_sbintrunc' signed_take_bit_int_eq_self)

lemma c_div_zero: "c_div 0 b = 0"
  by (simp add: c_div_def)

lemma c_div_one: "c_div a 1 = a"
  by (simp add: c_div_def mult.commute abs_mult_sgn)

lemma sum_list_bounds:
  "\<forall>e \<in> set vs. - 32768 \<le> e \<and> e \<le> (32767 :: int) \<Longrightarrow>
     - 32768 * int (length vs) \<le> sum_list vs \<and> sum_list vs \<le> 32767 * int (length vs)"
  by (induction vs) auto

lemma c_div_bounds:
  assumes "0 < k" and "- 32768 * k \<le> t" and "t \<le> 32767 * k"
  shows "- 32768 \<le> c_div t k \<and> c_div t k \<le> 32767"
proof (cases "0 \<le> t")
  case True
  then have "c_div t k = t div k" using assms(1)
    by (cases "t = 0") (simp_all add: c_div_def)
  moreover have "t div k \<le> 32767" using assms(1,3)
  proof -
    have "t div k \<le> (32767 * k) div k" using assms(1,3) by (intro zdiv_mono1) auto
    then show ?thesis using assms(1) by simp
  qed
  moreover have "0 \<le> t div k" using True assms(1) by (simp add: pos_imp_zdiv_nonneg_iff)
  ultimately show ?thesis by simp
next
  case False
  then have eq: "c_div t k = - ((- t) div k)" using assms(1)
    by (simp add: c_div_def)
  have "(- t) div k \<le> (32768 * k) div k" using assms(1,2) by (intro zdiv_mono1) auto
  then have "(- t) div k \<le> 32768" using assms(1) by simp
  moreover have "0 \<le> (- t) div k" using False assms(1) by (simp add: pos_imp_zdiv_nonneg_iff)
  ultimately show ?thesis using eq by simp
qed

lemma deadzone_check_kernel:
  "deadzone_check d s = Some (d1, s1) \<Longrightarrow>
     kernel_sz d1 = kernel_sz d \<and> kernel_ofs d1 = kernel_ofs d \<and> flt_kernel d1 = flt_kernel d \<and> mode d1 = mode d"
  by (auto simp: deadzone_check_def split: if_splits)

lemma edge_check_kernel:
  "edge_check d s = Some (d1, s1) \<Longrightarrow>
     kernel_sz d1 = kernel_sz d \<and> kernel_ofs d1 = kernel_ofs d \<and> flt_kernel d1 = flt_kernel d \<and> mode d1 = mode d"
  by (auto simp: edge_check_def split: if_splits)

lemma kernel_step_sz: "kernel_sz (fst (kernel_step d s)) = kernel_sz d"
  by (simp add: kernel_step_def Let_def)

lemma kernel_step_ofs:
  "kernel_ofs (fst (kernel_step d s)) =
     (if kernel_ofs d + 1 < kernel_sz d then kernel_ofs d + 1 else 0)"
  by (simp add: kernel_step_def Let_def)

lemma process_axis_sz: "kernel_sz (fst (process_axis d s)) = kernel_sz d"
  by (auto simp: process_axis_def kernel_step_sz split: option.splits
      dest!: deadzone_check_kernel edge_check_kernel)

lemma process_axis_ofs:
  "kernel_ofs (fst (process_axis d s)) = kernel_ofs d \<or>
   kernel_ofs (fst (process_axis d s)) =
     (if kernel_ofs d + 1 < kernel_sz d then kernel_ofs d + 1 else 0)"
  by (auto simp: process_axis_def kernel_step_ofs split: option.splits
      dest!: deadzone_check_kernel edge_check_kernel)

lemma analogfilter_axis_bounds:
  "kernel_ofs (analogfilter_axis ax lo hi dz sz kind) = 0 \<and>
   1 \<le> kernel_sz (analogfilter_axis ax lo hi dz sz kind) \<and>
   kernel_sz (analogfilter_axis ax lo hi dz sz kind) \<le> 64"
  by (simp add: analogfilter_axis_def set_analogstate_def kernel_lim_def Let_def)

lemma ofs_inv_step:
  "ofs_inv c ax \<Longrightarrow> ofs_inv (c \<or> is_Configure call) (axis_call_step ax call)"
proof (cases call)
  case (Configure lo hi dz sz kind)
  then show ?thesis
    using analogfilter_axis_bounds [of ax lo hi dz sz kind] by (simp add: ofs_inv_def)
next
  case (Sample s)
  assume inv: "ofs_inv c ax"
  from Sample show ?thesis
    using inv process_axis_sz [of ax s] process_axis_ofs [of ax s]
    by (auto simp: ofs_inv_def split: if_splits)
qed

lemma ofs_inv_foldl:
  "ofs_inv c ax \<Longrightarrow>
     ofs_inv (c \<or> (\<exists>call \<in> set calls. is_Configure call)) (foldl axis_call_step ax calls)"
proof (induction calls arbitrary: c ax)
  case Nil
  then show ?case by simp
next
  case (Cons call calls)
  from Cons.IH [OF ofs_inv_step [OF Cons.prems, of call]]
  show ?case by (simp add: disj_assoc)
qed

lemma fst_feed_Cons: "fst (feed d (a # xs)) = fst (feed (fst (process_axis d a)) xs)"
  by (simp split: prod.splits)

lemma process_axis_admit:
  "mode d \<noteq> ARCAN_ANALOGFILTER_NONE \<Longrightarrow> mode d \<noteq> ARCAN_ANALOGFILTER_PASS \<Longrightarrow>
   process_axis d s =
     (case admit d s of (d1, None) \<Rightarrow> (d1, None) | (d1, Some v) \<Rightarrow> kernel_step d1 v)"
  by (simp add: process_axis_def admit_def split: option.splits)

lemma admit_kernel:
  "admit d s = (d1, r) \<Longrightarrow>
     kernel_sz d1 = kernel_sz d \<and> kernel_ofs d1 = kernel_ofs d \<and>
     flt_kernel d1 = flt_kernel d \<and> mode d1 = mode d"
  by (auto simp: admit_def split: option.splits dest!: deadzone_check_kernel edge_check_kernel)

lemma admit_avg_inv: "avg_inv d K p \<Longrightarrow> admit d s = (d1, r) \<Longrightarrow> avg_inv d1 K p"
  by (drule admit_kernel) (simp add: avg_inv_def)

lemma kernel_step_partial:
  assumes "avg_inv d K p" and "Suc (length p) < K"
  shows "snd (kernel_step d v) = None \<and> avg_inv (fst (kernel_step d v)) K (p @ [sint v])"
proof -
  from assms have ofs: "kernel_ofs d = int (length p)" and sz: "kernel_sz d = int K"
    and len: "length (flt_kernel d) = 64" and K64: "K \<le> 64"
    and tk: "take (length p) (flt_kernel d) = p"
    by (simp_all add: avg_inv_def)
  have lt: "length p < length (flt_kernel d)" using assms(2) len K64 by simp
  have "take (Suc (length p)) ((flt_kernel d)[length p := sint v]) = p @ [sint v]"
    using lt tk by (simp add: take_Suc_conv_app_nth)
  then show ?thesis
    using assms sint16_range [of v] by (simp add: kernel_step_def Let_def avg_inv_def ofs sz)
qed

lemma kernel_step_full:
  assumes "avg_inv d K p" and "Suc (length p) = K"
  shows "map_option sint (snd (kernel_step d v)) =
           Some (c_div (sum_list (p @ [sint v])) (int K)) \<and>
         avg_inv (fst (kernel_step d v)) K []"
proof -
  from assms have ofs: "kernel_ofs d = int (length p)" and sz: "kernel_sz d = int K"
    and len: "length (flt_kernel d) = 64" and K64: "K \<le> 64"
    and tk: "take (length p) (flt_kernel d) = p"
    and md: "mode d = ARCAN_ANALOGFILTER_AVG"
    and rng: "\<forall>e \<in> set p. - 32768 \<le> e \<and> e \<le> 32767"
    by (simp_all add: avg_inv_def)
  have lt: "length p < length (flt_kernel d)" using assms(2) len K64 by simp
  have tk': "take K ((flt_kernel d)[length p := sint v]) = p @ [sint v]"
    using lt tk assms(2) [symmetric] by (simp add: take_Suc_conv_app_nth)
  have "\<forall>e \<in> set (p @ [sint v]). - 32768 \<le> e \<and> e \<le> 32767"
    using rng sint16_range [of v] by simp
  from sum_list_bounds [OF this] assms(2)
  have sb: "- 32768 * int K \<le> sum_list (p @ [sint v])" "sum_list (p @ [sint v]) \<le> 32767 * int K"
    by simp_all
  have Kpos: "0 < int K" using assms(2) by simp
  from c_div_bounds [OF Kpos sb]
  have cb: "- 32768 \<le> c_div (sum_list (p @ [sint v])) (int K)"
           "c_div (sum_list (p @ [sint v])) (int K) \<le> 32767" by simp_all
  have inv': "avg_inv (fst (kernel_step d v)) K []"
    using assms by (simp add: kernel_step_def Let_def avg_inv_def)
  show ?thesis
  proof (cases "K = 1")
    case True
    then have "p = []" using assms(2) by simp
    then show ?thesis using True inv' ofs sz
      by (simp add: kernel_step_def Let_def c_div_one)
  next
    case False
    then have K1: "1 < int K" using assms(2) by simp
    have "snd (kernel_step d v) =
            Some (word_of_int (if sum_list (p @ [sint v]) \<noteq> 0
                               then c_div (sum_list (p @ [sint v])) (int K) else 0))"
      using K1 md tk' assms(2) by (simp add: kernel_step_def Let_def ofs sz)
    moreover have "(if sum_list (p @ [sint v]) \<noteq> 0
                    then c_div (sum_list (p @ [sint v])) (int K) else 0)
                   = c_div (sum_list (p @ [sint v])) (int K)"
      by (simp add: c_div_zero)
    ultimately show ?thesis using inv' cb by (simp add: sint16_of_int)
  qed
qed

lemma last_chunk_shift:
  assumes "length q = K" and "0 < K" and "ys \<noteq> []"
  shows "(let vs = q @ ys
          in if length vs mod K = 0 then Some (f (drop (length vs - K) vs)) else None) =
         (let vs = ys
          in if length vs mod K = 0 then Some (f (drop (length vs - K) vs)) else None)"
proof -
  have m: "length (q @ ys) mod K = length ys mod K" using assms(1) by simp
  show ?thesis
  proof (cases "length ys mod K = 0")
    case False
    then show ?thesis using m by (simp add: Let_def)
  next
    case True
    have "0 < length ys" using assms(3) by simp
    with True assms(2) have "K \<le> length ys"
      by (metis mod_less not_less less_irrefl)
    then have "drop (length (q @ ys) - K) (q @ ys) = drop (length ys - K) ys"
      using assms(1) by simp
    then show ?thesis using m True by (simp add: Let_def)
  qed
qed

lemma avg_gen:
  assumes "avg_inv d K p"
  shows "map_option sint (snd (process_axis (fst (feed d xs)) x)) =
           (case snd (admit (fst (feed d xs)) x) of
              None \<Rightarrow> None
            | Some v \<Rightarrow>
                (let vs = p @ accepted d xs @ [sint v]
                 in if length vs mod K = 0
                    then Some (c_div (sum_list (drop (length vs - K) vs)) (int K))
                    else None))"
  using assms
proof (induction xs arbitrary: d p)
  case Nil
  then have md: "mode d \<noteq> ARCAN_ANALOGFILTER_NONE" "mode d \<noteq> ARCAN_ANALOGFILTER_PASS"
    by (simp_all add: avg_inv_def)
  obtain d1 r where ad: "admit d x = (d1, r)" by (cases "admit d x")
  have inv1: "avg_inv d1 K p" by (rule admit_avg_inv [OF Nil ad])
  then have lp: "length p < K" by (simp add: avg_inv_def)
  show ?case
  proof (cases r)
    case None
    then show ?thesis using ad md by (simp add: process_axis_admit)
  next
    case (Some v)
    show ?thesis
    proof (cases "Suc (length p) = K")
      case True
      from kernel_step_full [OF inv1 True, of v] True Some ad md
      show ?thesis by (simp add: process_axis_admit)
    next
      case False
      then have "Suc (length p) < K" using lp by simp
      from kernel_step_partial [OF inv1 this, of v] this Some ad md
      show ?thesis by (simp add: process_axis_admit)
    qed
  qed
next
  case (Cons a xs)
  then have md: "mode d \<noteq> ARCAN_ANALOGFILTER_NONE" "mode d \<noteq> ARCAN_ANALOGFILTER_PASS"
    by (simp_all add: avg_inv_def)
  obtain d1 r where ad: "admit d a = (d1, r)" by (cases "admit d a")
  have inv1: "avg_inv d1 K p" by (rule admit_avg_inv [OF Cons.prems ad])
  then have lp: "length p < K" by (simp add: avg_inv_def)
  let ?d' = "fst (process_axis d a)"
  show ?case
  proof (cases r)
    case None
    then have pd: "?d' = d1" using ad md by (simp add: process_axis_admit)
    have acc: "accepted d (a # xs) = accepted ?d' xs" using None ad by simp
    from inv1 pd have inv2: "avg_inv ?d' K p" by simp
    show ?thesis unfolding fst_feed_Cons acc by (rule Cons.IH [OF inv2])
  next
    case (Some v)
    then have pd: "?d' = fst (kernel_step d1 v)" using ad md by (simp add: process_axis_admit)
    have acc: "accepted d (a # xs) = sint v # accepted ?d' xs" using Some ad by simp
    show ?thesis
    proof (cases "Suc (length p) = K")
      case True
      from kernel_step_full [OF inv1 True, of v] pd
      have inv2: "avg_inv ?d' K []" by simp
      have Kpos: "0 < K" using True by simp
      have lq: "length (p @ [sint v]) = K" using True by simp
      have "\<And>w. (let vs = p @ (sint v # accepted ?d' xs) @ [w]
                   in if length vs mod K = 0
                      then Some (c_div (sum_list (drop (length vs - K) vs)) (int K))
                      else None) =
                 (let vs = [] @ accepted ?d' xs @ [w]
                   in if length vs mod K = 0
                      then Some (c_div (sum_list (drop (length vs - K) vs)) (int K))
                      else None)"
        using last_chunk_shift [OF lq Kpos, of "accepted ?d' xs @ [w]"
            "\<lambda>l. c_div (sum_list l) (int K)" for w]
        by simp
      then show ?thesis unfolding fst_feed_Cons acc using Cons.IH [OF inv2]
        by (simp cong: option.case_cong)
    next
      case False
      then have lt: "Suc (length p) < K" using lp by simp
      from kernel_step_partial [OF inv1 lt, of v] pd
      have inv2: "avg_inv ?d' K (p @ [sint v])" by simp
      show ?thesis unfolding fst_feed_Cons acc using Cons.IH [OF inv2]
        by (simp cong: option.case_cong)
    qed
  qed
qed

lemma in_band_admit:
  "in_band d s \<Longrightarrow> snd (admit d s) = Some s"
  by (simp add: in_band_def admit_def deadzone_check_def edge_check_def)

lemma process_axis_bounds:
  "lower (fst (process_axis d s)) = lower d \<and> upper (fst (process_axis d s)) = upper d \<and>
   deadzone (fst (process_axis d s)) = deadzone d"
  by (auto simp: process_axis_def kernel_step_def deadzone_check_def edge_check_def Let_def
      split: option.splits if_splits)

lemma in_band_process: "in_band (fst (process_axis d a)) s = in_band d s"
  by (simp add: in_band_def process_axis_bounds)

lemma in_band_accepted:
  "\<forall>s \<in> set xs. in_band d s \<Longrightarrow> accepted d xs = map sint xs"
  by (induction xs arbitrary: d) (simp_all add: in_band_admit in_band_process)

lemma in_band_feed: "in_band (fst (feed d xs)) s = in_band d s"
proof (induction xs arbitrary: d)
  case Nil
  then show ?case by simp
next
  case (Cons a xs)
  show ?case unfolding fst_feed_Cons by (simp add: Cons.IH in_band_process)
qed


lemma as_int16_sint: "sint (word_of_int v :: 16 word) = as_int16 v"
  by (simp add: sint_sbintrunc' signed_take_bit_eq_take_bit_shift take_bit_eq_mod as_int16_def)

lemma spec_stages_admit:
  "spec_stages (lower d) (upper d) (deadzone d) (flags_of d) (sint s) =
     (flags_of (fst (admit d s)), map_option sint (snd (admit d s)))"
  by (simp add: spec_stages_def admit_def deadzone_check_def edge_check_def flags_of_def
      as_int16_sint Let_def)

lemma admit_bounds:
  "lower (fst (admit d s)) = lower d \<and> upper (fst (admit d s)) = upper d \<and>
   deadzone (fst (admit d s)) = deadzone d \<and> mode (fst (admit d s)) = mode d"
  by (simp add: admit_def deadzone_check_def edge_check_def)

lemma kernel_step_flags: "flags_of (fst (kernel_step d v)) = flags_of d"
  by (simp add: kernel_step_def flags_of_def Let_def)

lemma kernel_step_bounds:
  "lower (fst (kernel_step d v)) = lower d \<and> upper (fst (kernel_step d v)) = upper d \<and>
   deadzone (fst (kernel_step d v)) = deadzone d \<and> mode (fst (kernel_step d v)) = mode d"
  by (simp add: kernel_step_def Let_def)

lemma process_axis_flags:
  assumes "mode d \<noteq> ARCAN_ANALOGFILTER_NONE" and "mode d \<noteq> ARCAN_ANALOGFILTER_PASS"
  shows "flags_of (fst (process_axis d s)) = flags_of (fst (admit d s)) \<and>
         mode (fst (process_axis d s)) = mode d"
proof (cases "admit d s")
  case (Pair d1 r)
  then show ?thesis
    using assms admit_bounds [of d s]
    by (cases r) (simp_all add: process_axis_admit kernel_step_flags kernel_step_bounds)
qed

lemma accepted_spec_stored:
  assumes "mode d \<noteq> ARCAN_ANALOGFILTER_NONE" and "mode d \<noteq> ARCAN_ANALOGFILTER_PASS"
  shows "accepted d xs = spec_stored (lower d) (upper d) (deadzone d) (flags_of d) (map sint xs)"
  using assms
proof (induction xs arbitrary: d)
  case Nil
  then show ?case by simp
next
  case (Cons a xs)
  let ?d' = "fst (process_axis d a)"
  have f: "flags_of ?d' = flags_of (fst (admit d a))" and m: "mode ?d' = mode d"
    using process_axis_flags [OF Cons.prems, of a] by simp_all
  have b: "lower ?d' = lower d" "upper ?d' = upper d" "deadzone ?d' = deadzone d"
    using process_axis_bounds [of d a] by simp_all
  have ih: "accepted ?d' xs =
      spec_stored (lower d) (upper d) (deadzone d) (flags_of (fst (admit d a))) (map sint xs)"
    using Cons.IH [of ?d'] Cons.prems m f b by simp
  show ?case
    by (cases "snd (admit d a)") (simp_all add: spec_stages_admit ih)
qed

lemma accepted_snoc:
  "accepted d (xs @ [x]) =
     accepted d xs @ (case snd (admit (fst (feed d xs)) x) of None \<Rightarrow> [] | Some v \<Rightarrow> [sint v])"
proof (induction xs arbitrary: d)
  case Nil
  then show ?case by (simp split: option.splits)
next
  case (Cons a xs)
  show ?case
    unfolding append_Cons fst_feed_Cons
    by (cases "snd (admit d a)") (simp_all add: Cons.IH del: feed.simps)
qed

text \<open>
  Claim C1, amended. A filter in averaging mode with kernel size \<open>K\<close> (1..64, offset 0,
  as the configuration call leaves it) is fed any samples \<open>xs\<close> and then \<open>x\<close>. The
  samples that pass the deadzone and edge stages are stored: an in-band sample as it is,
  the first sample of a deadzone run as 0, the first sample beyond a clamp bound as that
  bound. The call on \<open>x\<close> has an output exactly when \<open>x\<close> is stored and is the \<open>K\<close>-th,
  \<open>2K\<close>-th, ... stored sample of the run, and the output is the sum of the last \<open>K\<close>
  stored values divided by \<open>K\<close> with truncation toward zero, 0 for a sum of zero. When all
  samples are in band this is an output at every \<open>K\<close>-th sample, the truncated mean of
  the last \<open>K\<close> samples.
\<close>

theorem average_once_per_kernel:
  assumes "mode d = ARCAN_ANALOGFILTER_AVG" and "kernel_sz d = int K" and "1 \<le> K" and "K \<le> 64"
    and "kernel_ofs d = 0" and "length (flt_kernel d) = 64"
  shows "map_option sint (snd (process_axis (fst (feed d xs)) x)) =
           (let before = spec_stored (lower d) (upper d) (deadzone d) (flags_of d) (map sint xs);
                vs = spec_stored (lower d) (upper d) (deadzone d) (flags_of d)
                       (map sint (xs @ [x]))
            in if length before < length vs \<and> length vs mod K = 0
               then Some (c_div (sum_list (drop (length vs - K) vs)) (int K))
               else None) \<and>
         ((\<forall>s \<in> set (xs @ [x]). in_band d s) \<longrightarrow>
            map_option sint (snd (process_axis (fst (feed d xs)) x)) =
              (if Suc (length xs) mod K = 0
               then Some (c_div (sum_list (drop (Suc (length xs) - K) (map sint (xs @ [x]))))
                            (int K))
               else None)) \<and>
         c_div 0 (int K) = 0"
proof -
  have inv: "avg_inv d K []" using assms by (simp add: avg_inv_def)
  have md: "mode d \<noteq> ARCAN_ANALOGFILTER_NONE" "mode d \<noteq> ARCAN_ANALOGFILTER_PASS"
    using assms(1) by simp_all
  let ?r = "snd (admit (fst (feed d xs)) x)"
  have g: "map_option sint (snd (process_axis (fst (feed d xs)) x)) =
           (case ?r of
              None \<Rightarrow> None
            | Some v \<Rightarrow>
                (let vs = accepted d xs @ [sint v]
                 in if length vs mod K = 0
                    then Some (c_div (sum_list (drop (length vs - K) vs)) (int K))
                    else None))"
    using avg_gen [OF inv, of xs x] unfolding append_Nil .
  have sn: "accepted d (xs @ [x]) =
       accepted d xs @ (case ?r of None \<Rightarrow> [] | Some v \<Rightarrow> [sint v])"
    by (rule accepted_snoc)
  have a: "map_option sint (snd (process_axis (fst (feed d xs)) x)) =
           (let before = accepted d xs; vs = accepted d (xs @ [x])
            in if length before < length vs \<and> length vs mod K = 0
               then Some (c_div (sum_list (drop (length vs - K) vs)) (int K))
               else None)"
    unfolding g sn by (cases ?r) (simp_all add: Let_def)
  have a': "map_option sint (snd (process_axis (fst (feed d xs)) x)) =
           (let before = spec_stored (lower d) (upper d) (deadzone d) (flags_of d) (map sint xs);
                vs = spec_stored (lower d) (upper d) (deadzone d) (flags_of d)
                       (map sint (xs @ [x]))
            in if length before < length vs \<and> length vs mod K = 0
               then Some (c_div (sum_list (drop (length vs - K) vs)) (int K))
               else None)"
    using a unfolding accepted_spec_stored [OF md] .
  have b: "(\<forall>s \<in> set (xs @ [x]). in_band d s) \<longrightarrow>
            map_option sint (snd (process_axis (fst (feed d xs)) x)) =
              (if Suc (length xs) mod K = 0
               then Some (c_div (sum_list (drop (Suc (length xs) - K) (map sint (xs @ [x]))))
                            (int K))
               else None)"
  proof
    assume ib: "\<forall>s \<in> set (xs @ [x]). in_band d s"
    then have "\<forall>s \<in> set xs. in_band d s" by simp
    then have e1: "accepted d xs = map sint xs" by (rule in_band_accepted)
    have e2: "accepted d (xs @ [x]) = map sint (xs @ [x])" using ib by (rule in_band_accepted)
    show "map_option sint (snd (process_axis (fst (feed d xs)) x)) =
              (if Suc (length xs) mod K = 0
               then Some (c_div (sum_list (drop (Suc (length xs) - K) (map sint (xs @ [x]))))
                            (int K))
               else None)"
      unfolding a e1 e2 by (simp add: Let_def)
  qed
  show ?thesis using a' b by (simp add: c_div_zero)
qed

theorem average_once_per_kernel_witness:
  "map_option sint
     (snd (process_axis
        (fst (feed (analogfilter_axis axis_default (- 100) 100 10 2 ARCAN_ANALOGFILTER_AVG)
                [50, 3, 60]))
        70)) = Some 65 \<and>
   spec_stored (- 100) 100 10
     \<lparr>in_lower_zone = False, in_upper_zone = False, in_deadzone = False\<rparr> [50, 3, 60, 70] =
     [50, 0, 60, 70]"
proof -
  let ?d = "analogfilter_axis axis_default (- 100) 100 10 2 ARCAN_ANALOGFILTER_AVG"
  have h1: "mode ?d = ARCAN_ANALOGFILTER_AVG" by code_simp
  have h2: "kernel_sz ?d = int 2" by code_simp
  have h3: "kernel_ofs ?d = 0" by code_simp
  have h4: "length (flt_kernel ?d) = 64" by code_simp
  have p: "lower ?d = - 100" "upper ?d = 100" "deadzone ?d = 10"
    "flags_of ?d = \<lparr>in_lower_zone = False, in_upper_zone = False, in_deadzone = False\<rparr>"
    by code_simp+
  have s3: "spec_stored (- 100) 100 10
     \<lparr>in_lower_zone = False, in_upper_zone = False, in_deadzone = False\<rparr> [50, 3, 60] =
     [50, 0, 60]" by (simp add: spec_stages_def Let_def)
  have s4: "spec_stored (- 100) 100 10
     \<lparr>in_lower_zone = False, in_upper_zone = False, in_deadzone = False\<rparr> [50, 3, 60, 70] =
     [50, 0, 60, 70]" by (simp add: spec_stages_def Let_def)
  have m3: "map sint [50, 3, 60 :: 16 word] = [50, 3, 60]" by simp
  have m4: "map sint ([50, 3, 60] @ [70 :: 16 word]) = [50, 3, 60, 70]" by simp
  have k: "(1 :: nat) \<le> 2" "(2 :: nat) \<le> 64" by simp_all
  note t = average_once_per_kernel [OF h1 h2 k h3 h4, of "[50, 3, 60]" 70, THEN conjunct1]
  have "map_option sint (snd (process_axis (fst (feed ?d [50, 3, 60])) 70)) = Some 65"
    using t unfolding p m3 m4 s3 s4 by (simp add: c_div_def del: feed.simps)
  then show ?thesis using s4 by simp
qed

text \<open>
  The claim as stated fails on a run that is not in band throughout. With kernel size 2 and
  deadzone 10, of the samples 50, 3, 60, 70 all but 3 are in band; the claim asks for one
  output, the mean 55 of 50 and 60, at the second in-band sample. The code stores the 3 as
  0 and gives 25 at the second sample and 65 at the fourth.
\<close>

theorem average_in_band_counterexample:
  "in_band (analogfilter_axis axis_default (- 100) 100 10 2 ARCAN_ANALOGFILTER_AVG) 50 \<and>
   \<not> in_band (analogfilter_axis axis_default (- 100) 100 10 2 ARCAN_ANALOGFILTER_AVG) 3 \<and>
   in_band (analogfilter_axis axis_default (- 100) 100 10 2 ARCAN_ANALOGFILTER_AVG) 60 \<and>
   in_band (analogfilter_axis axis_default (- 100) 100 10 2 ARCAN_ANALOGFILTER_AVG) 70 \<and>
   map (map_option sint)
     (snd (feed (analogfilter_axis axis_default (- 100) 100 10 2 ARCAN_ANALOGFILTER_AVG)
             [50, 3, 60, 70])) =
     [None, Some 25, None, Some 65]"
  by code_simp

lemma cfg_inv_step:
  "cfg_inv c ax \<Longrightarrow> cfg_inv (c \<or> is_Configure call) (axis_call_step ax call)"
proof (cases call)
  case (Configure lo hi dz sz kind)
  then show ?thesis
    using analogfilter_axis_bounds [of ax lo hi dz sz kind] by (simp add: cfg_inv_def)
next
  case (Sample s)
  assume inv: "cfg_inv c ax"
  from Sample show ?thesis
    using inv process_axis_sz [of ax s] process_axis_ofs [of ax s]
    by (auto simp: cfg_inv_def split: if_splits)
qed

lemma cfg_inv_foldl:
  "cfg_inv c ax \<Longrightarrow>
     cfg_inv (c \<or> (\<exists>call \<in> set calls. is_Configure call)) (foldl axis_call_step ax calls)"
proof (induction calls arbitrary: c ax)
  case Nil
  then show ?case by simp
next
  case (Cons call calls)
  from Cons.IH [OF cfg_inv_step [OF Cons.prems, of call]]
  show ?case by (simp add: disj_assoc)
qed

lemma axis_created_zero:
  "axis_created ainf = Inr axc \<Longrightarrow> kernel_sz axc = 0 \<and> kernel_ofs axc = 0"
  by (auto simp: axis_created_def axis_default_def axis_zero_def split: option.splits if_splits)

text \<open>
  Claim C9, amended. For every axis filter, whatever its creation has left in it: after
  any sequence of configuration and sample calls with at least one configuration call, the
  kernel size is within 1..64 and the write offset is at least 0 and strictly below the
  size. A filter that \<^verbatim>\<open>map_axes\<close> creates has kernel size 0 and offset 0, and keeps them
  through any sample calls until its first configuration call, so that the offset is not
  below the size until then. Every configuration call sets the offset to 0 and the size to
  the requested one clamped to 1..64.
\<close>

theorem kernel_ofs_below_size:
  "((\<exists>call \<in> set calls. is_Configure call) \<longrightarrow>
      1 \<le> kernel_sz (foldl axis_call_step ax calls) \<and>
      kernel_sz (foldl axis_call_step ax calls) \<le> 64 \<and>
      0 \<le> kernel_ofs (foldl axis_call_step ax calls) \<and>
      kernel_ofs (foldl axis_call_step ax calls) < kernel_sz (foldl axis_call_step ax calls)) \<and>
   (axis_created ainf = Inr axc \<and> \<not> (\<exists>call \<in> set calls. is_Configure call) \<longrightarrow>
      kernel_sz (foldl axis_call_step axc calls) = 0 \<and>
      kernel_ofs (foldl axis_call_step axc calls) = 0) \<and>
   kernel_ofs (analogfilter_axis ax2 lo hi dz sz kind) = 0 \<and>
   kernel_sz (analogfilter_axis ax2 lo hi dz sz kind) = max 1 (min 64 sz)"
proof -
  have "cfg_inv False ax" by (simp add: cfg_inv_def)
  from cfg_inv_foldl [OF this, of calls]
  have a: "cfg_inv (\<exists>call \<in> set calls. is_Configure call) (foldl axis_call_step ax calls)"
    by simp
  have b: "axis_created ainf = Inr axc \<and> \<not> (\<exists>call \<in> set calls. is_Configure call) \<longrightarrow>
      kernel_sz (foldl axis_call_step axc calls) = 0 \<and>
      kernel_ofs (foldl axis_call_step axc calls) = 0"
  proof
    assume h: "axis_created ainf = Inr axc \<and> \<not> (\<exists>call \<in> set calls. is_Configure call)"
    then have "ofs_inv False axc" using axis_created_zero [of ainf axc] by (simp add: ofs_inv_def)
    from ofs_inv_foldl [OF this, of calls] h
    show "kernel_sz (foldl axis_call_step axc calls) = 0 \<and>
      kernel_ofs (foldl axis_call_step axc calls) = 0" by (simp add: ofs_inv_def)
  qed
  have c: "kernel_sz (analogfilter_axis ax2 lo hi dz sz kind) = max 1 (min 64 sz)"
    by (simp add: analogfilter_axis_def set_analogstate_def kernel_lim_def Let_def)
  show ?thesis
    using a b c analogfilter_axis_bounds [of ax2 lo hi dz sz kind] by (simp add: cfg_inv_def)
qed

theorem kernel_ofs_below_size_witness:
  "kernel_ofs (foldl axis_call_step (axis_zero\<lparr>kernel_sz := 21845, kernel_ofs := 7\<rparr>)
       [Sample 5, Configure (- 100) 100 10 200 ARCAN_ANALOGFILTER_AVG, Sample 50])
     < kernel_sz (foldl axis_call_step (axis_zero\<lparr>kernel_sz := 21845, kernel_ofs := 7\<rparr>)
       [Sample 5, Configure (- 100) 100 10 200 ARCAN_ANALOGFILTER_AVG, Sample 50]) \<and>
   axis_created (Some (0, 255)) = Inr (axis_default\<lparr>upper := 255, lower := 0\<rparr>) \<and>
   kernel_sz (foldl axis_call_step (axis_default\<lparr>upper := 255, lower := 0\<rparr>)
       [Sample 5, Sample 6]) = 0 \<and>
   kernel_ofs (foldl axis_call_step (axis_default\<lparr>upper := 255, lower := 0\<rparr>)
       [Sample 5, Sample 6]) = 0"
proof -
  have h1: "\<exists>call \<in> set [Sample 5, Configure (- 100) 100 10 200 ARCAN_ANALOGFILTER_AVG, Sample 50].
      is_Configure call" by simp
  have h2: "axis_created (Some (0, 255)) = Inr (axis_default\<lparr>upper := 255, lower := 0\<rparr>)"
    by (simp add: axis_created_def)
  have h3: "\<not> (\<exists>call \<in> set [Sample 5, Sample 6]. is_Configure call)" by simp
  from kernel_ofs_below_size [of
      "[Sample 5, Configure (- 100) 100 10 200 ARCAN_ANALOGFILTER_AVG, Sample 50]"
      "axis_zero\<lparr>kernel_sz := 21845, kernel_ofs := 7\<rparr>"] h1
  have a: "kernel_ofs (foldl axis_call_step (axis_zero\<lparr>kernel_sz := 21845, kernel_ofs := 7\<rparr>)
       [Sample 5, Configure (- 100) 100 10 200 ARCAN_ANALOGFILTER_AVG, Sample 50])
     < kernel_sz (foldl axis_call_step (axis_zero\<lparr>kernel_sz := 21845, kernel_ofs := 7\<rparr>)
       [Sample 5, Configure (- 100) 100 10 200 ARCAN_ANALOGFILTER_AVG, Sample 50])"
    by blast
  from kernel_ofs_below_size [of "[Sample 5, Sample 6]" _ "Some (0, 255)"
      "axis_default\<lparr>upper := 255, lower := 0\<rparr>"] h2 h3
  have b: "kernel_sz (foldl axis_call_step (axis_default\<lparr>upper := 255, lower := 0\<rparr>)
       [Sample 5, Sample 6]) = 0 \<and>
   kernel_ofs (foldl axis_call_step (axis_default\<lparr>upper := 255, lower := 0\<rparr>)
       [Sample 5, Sample 6]) = 0" by blast
  from a b h2 show ?thesis by simp
qed

text \<open>
  The claim as stated fails for the filter that \<^verbatim>\<open>map_axes\<close> creates, before and after a
  first sample: offset and size are both 0.
\<close>

theorem kernel_ofs_at_creation_counterexample:
  "axis_created None = Inr axis_default \<and>
   \<not> kernel_ofs (foldl axis_call_step axis_default [Sample 5])
       < kernel_sz (foldl axis_call_step axis_default [Sample 5])"
  by code_simp

lemma process_axis_in_zone:
  assumes "mode d \<noteq> ARCAN_ANALOGFILTER_NONE" and "mode d \<noteq> ARCAN_ANALOGFILTER_PASS"
    and "indzone d" and "\<bar>sint z\<bar> < deadzone d"
  shows "process_axis d z = (d, None)"
  using assms by (simp add: process_axis_def deadzone_check_def)

lemma feed_in_zone:
  assumes "mode d \<noteq> ARCAN_ANALOGFILTER_NONE" and "mode d \<noteq> ARCAN_ANALOGFILTER_PASS"
    and "indzone d" and "\<forall>z \<in> set zs. \<bar>sint z\<bar> < deadzone d"
  shows "feed d zs = (d, replicate (length zs) None)"
  using assms by (induction zs) (simp_all add: process_axis_in_zone)

lemma process_axis_zone_entry:
  assumes "mode d \<noteq> ARCAN_ANALOGFILTER_NONE" and "mode d \<noteq> ARCAN_ANALOGFILTER_PASS"
    and "\<not> indzone d" and "\<bar>sint z\<bar> < deadzone d"
    and "kernel_sz d \<le> 1" and "kernel_ofs d = 0" and "lower d \<le> 0" and "0 \<le> upper d"
  shows "process_axis d z =
           (d\<lparr>indzone := True, inlzone := False, inuzone := False,
              flt_kernel := (flt_kernel d)[0 := 0], kernel_ofs := 0\<rparr>, Some 0)"
  using assms by (simp add: process_axis_def deadzone_check_def edge_check_def kernel_step_def Let_def)

lemma process_axis_zone_exit:
  assumes "mode d \<noteq> ARCAN_ANALOGFILTER_NONE" and "mode d \<noteq> ARCAN_ANALOGFILTER_PASS"
    and "\<not> \<bar>sint s\<bar> < deadzone d" and "lower d \<le> sint s" and "sint s \<le> upper d"
    and "kernel_sz d \<le> 1" and "kernel_ofs d = 0"
  shows "snd (process_axis d s) = Some s \<and> \<not> indzone (fst (process_axis d s))"
  using assms by (simp add: process_axis_def deadzone_check_def edge_check_def kernel_step_def Let_def)

lemma snd_feed_Cons:
  "snd (feed d (a # xs)) = snd (process_axis d a) # snd (feed (fst (process_axis d a)) xs)"
  by (simp split: prod.splits)

lemma snd_feed_append:
  "snd (feed d (xs @ ys)) = snd (feed d xs) @ snd (feed (fst (feed d xs)) ys)"
proof (induction xs arbitrary: d)
  case Nil
  then show ?case by simp
next
  case (Cons a xs)
  show ?case
    unfolding append_Cons snd_feed_Cons fst_feed_Cons by (simp add: Cons.IH)
qed

text \<open>
  Claim C2, amended. For a filter that is neither disabled nor pass-through, with kernel
  size at most 1 and clamp bounds around 0, that is outside the deadzone: a run of samples
  below the deadzone gives the output 0 at its first sample and no output at the others;
  the next sample at or above the deadzone, if within the clamp bounds, is output as it is.
\<close>

theorem deadzone_zero_once:
  assumes "mode d \<noteq> ARCAN_ANALOGFILTER_NONE" and "mode d \<noteq> ARCAN_ANALOGFILTER_PASS"
    and "\<forall>z \<in> set (z0 # zs). \<bar>sint z\<bar> < deadzone d"
    and "\<not> \<bar>sint s\<bar> < deadzone d" and "lower d \<le> sint s" and "sint s \<le> upper d"
    and "\<not> indzone d" and "kernel_sz d \<le> 1" and "kernel_ofs d = 0"
    and "lower d \<le> 0" and "0 \<le> upper d"
  shows "snd (feed d (z0 # zs @ [s])) = Some 0 # replicate (length zs) None @ [Some s]"
proof -
  let ?d1 = "d\<lparr>indzone := True, inlzone := False, inuzone := False,
               flt_kernel := (flt_kernel d)[0 := 0], kernel_ofs := 0\<rparr>"
  have z0: "\<bar>sint z0\<bar> < deadzone d" and zs: "\<forall>z \<in> set zs. \<bar>sint z\<bar> < deadzone ?d1"
    using assms(3) by simp_all
  have e: "process_axis d z0 = (?d1, Some 0)"
    by (rule process_axis_zone_entry [OF assms(1,2,7) z0 assms(8,9,10,11)])
  have m1: "mode ?d1 \<noteq> ARCAN_ANALOGFILTER_NONE" "mode ?d1 \<noteq> ARCAN_ANALOGFILTER_PASS"
    using assms(1,2) by simp_all
  have f: "feed ?d1 zs = (?d1, replicate (length zs) None)"
    by (rule feed_in_zone [OF m1 _ zs]) simp
  have x: "snd (process_axis ?d1 s) = Some s"
    using process_axis_zone_exit [OF m1, of s] assms(4,5,6,8) by simp
  have "snd (feed ?d1 (zs @ [s])) = replicate (length zs) None @ [Some s]"
    using f x by (simp add: snd_feed_append snd_feed_Cons del: feed.simps(2))
  then show ?thesis using e by (simp add: snd_feed_Cons del: feed.simps(2))
qed

theorem deadzone_zero_once_witness:
  "snd (feed (analogfilter_axis axis_default (- 100) 100 10 1 ARCAN_ANALOGFILTER_AVG)
          (3 # [- 4, 0] @ [50])) =
     Some 0 # replicate (length [- 4, 0 :: 16 word]) None @ [Some 50]"
proof -
  let ?d = "analogfilter_axis axis_default (- 100) 100 10 1 ARCAN_ANALOGFILTER_AVG"
  have h1: "mode ?d \<noteq> ARCAN_ANALOGFILTER_NONE" by code_simp
  have h2: "mode ?d \<noteq> ARCAN_ANALOGFILTER_PASS" by code_simp
  have h3: "\<forall>z \<in> set (3 # [- 4, 0 :: 16 word]). \<bar>sint z\<bar> < deadzone ?d" by code_simp
  have h4: "\<not> \<bar>sint (50 :: 16 word)\<bar> < deadzone ?d" by code_simp
  have h5: "lower ?d \<le> sint (50 :: 16 word)" by code_simp
  have h6: "sint (50 :: 16 word) \<le> upper ?d" by code_simp
  have h7: "\<not> indzone ?d" by code_simp
  have h8: "kernel_sz ?d \<le> 1" by code_simp
  have h9: "kernel_ofs ?d = 0" by code_simp
  have h10: "lower ?d \<le> 0" by code_simp
  have h11: "0 \<le> upper ?d" by code_simp
  show ?thesis by (rule deadzone_zero_once [OF h1 h2 h3 h4 h5 h6 h7 h8 h9 h10 h11])
qed

text \<open>
  The claim as stated fails when the kernel holds more than one sample: the zeroed sample
  is stored in the kernel and the call has no output.
\<close>

theorem deadzone_entry_counterexample:
  "mode (analogfilter_axis axis_default (- 100) 100 10 2 ARCAN_ANALOGFILTER_AVG) = ARCAN_ANALOGFILTER_AVG \<and>
   \<not> indzone (analogfilter_axis axis_default (- 100) 100 10 2 ARCAN_ANALOGFILTER_AVG) \<and>
   \<bar>sint (3 :: 16 word)\<bar> < deadzone (analogfilter_axis axis_default (- 100) 100 10 2 ARCAN_ANALOGFILTER_AVG) \<and>
   snd (process_axis (analogfilter_axis axis_default (- 100) 100 10 2 ARCAN_ANALOGFILTER_AVG) 3) = None"
  by code_simp
section \<open>Properties of the hat decoder\<close>

lemma decode_hat_positive:
  assumes "0 < v"
  shows "decode_hat node ind v =
           (node\<lparr>game_hats := (game_hats node)[ind * 2 + 1 := 1]\<rparr>,
            [Digital EVENT_IDEVKIND_GAMEDEV (devnum node) (64 + int (ind * 2 + 1)) True])"
  using assms by (simp add: decode_hat_def Let_def)

lemma decode_hat_negative:
  assumes "v < 0"
  shows "decode_hat node ind v =
           (node\<lparr>game_hats := (game_hats node)[ind * 2 := - 1]\<rparr>,
            [Digital EVENT_IDEVKIND_GAMEDEV (devnum node) (64 + int (ind * 2)) True])"
  using assms by (simp add: decode_hat_def Let_def)

text \<open>
  Claim C5, amended. For a hat axis 0..7 of a game device: from the centred state, a
  positive value followed by 0 gives exactly two events, the activation and the
  deactivation of the positive sub-id, and none for the negative sub-id. A single
  transition emits at most one activation. It does not release the opposite direction:
  both directions of the component are active afterwards only if both were active before,
  or the value is non-zero while the opposite direction was active. The value 0 leaves no
  direction of the component active.
\<close>

theorem hat_transitions:
  assumes "ind \<le> 7" and "length (game_hats node) = 16"
  shows "(game_hats node ! (ind * 2) = 0 \<and> game_hats node ! (ind * 2 + 1) = 0 \<and> 0 < v \<longrightarrow>
            snd (decode_hats node ind [v, 0]) =
              [Digital EVENT_IDEVKIND_GAMEDEV (devnum node) (64 + int (ind * 2 + 1)) True,
               Digital EVENT_IDEVKIND_GAMEDEV (devnum node) (64 + int (ind * 2 + 1)) False]) \<and>
         length (filter is_activation (snd (decode_hat node ind w))) \<le> 1 \<and>
         (game_hats (fst (decode_hat node ind w)) ! (ind * 2) \<noteq> 0 \<and>
          game_hats (fst (decode_hat node ind w)) ! (ind * 2 + 1) \<noteq> 0 \<longrightarrow>
            (game_hats node ! (ind * 2) \<noteq> 0 \<and> game_hats node ! (ind * 2 + 1) \<noteq> 0) \<or>
            (0 < w \<and> game_hats node ! (ind * 2) \<noteq> 0) \<or>
            (w < 0 \<and> game_hats node ! (ind * 2 + 1) \<noteq> 0)) \<and>
         (w = 0 \<longrightarrow> game_hats (fst (decode_hat node ind w)) ! (ind * 2) = 0 \<and>
                     game_hats (fst (decode_hat node ind w)) ! (ind * 2 + 1) = 0)"
proof -
  have i: "ind * 2 < length (game_hats node)" "ind * 2 + 1 < length (game_hats node)"
    using assms by simp_all
  have a: "game_hats node ! (ind * 2) = 0 \<and> game_hats node ! (ind * 2 + 1) = 0 \<and> 0 < v \<longrightarrow>
            snd (decode_hats node ind [v, 0]) =
              [Digital EVENT_IDEVKIND_GAMEDEV (devnum node) (64 + int (ind * 2 + 1)) True,
               Digital EVENT_IDEVKIND_GAMEDEV (devnum node) (64 + int (ind * 2 + 1)) False]"
    using i by (auto simp: decode_hat_positive) (simp add: decode_hat_def Let_def)
  have b: "length (filter is_activation (snd (decode_hat node ind w))) \<le> 1"
    by (simp add: decode_hat_def Let_def split: prod.splits)
  have c: "game_hats (fst (decode_hat node ind w)) ! (ind * 2) \<noteq> 0 \<and>
          game_hats (fst (decode_hat node ind w)) ! (ind * 2 + 1) \<noteq> 0 \<longrightarrow>
            (game_hats node ! (ind * 2) \<noteq> 0 \<and> game_hats node ! (ind * 2 + 1) \<noteq> 0) \<or>
            (0 < w \<and> game_hats node ! (ind * 2) \<noteq> 0) \<or>
            (w < 0 \<and> game_hats node ! (ind * 2 + 1) \<noteq> 0)"
  proof (cases "w = 0")
    case True
    then show ?thesis using i by (auto simp: decode_hat_def Let_def split: if_splits)
  next
    case False
    then show ?thesis using i
      by (cases "w < 0") (auto simp: decode_hat_negative decode_hat_positive)
  qed
  have d: "w = 0 \<longrightarrow> game_hats (fst (decode_hat node ind w)) ! (ind * 2) = 0 \<and>
                     game_hats (fst (decode_hat node ind w)) ! (ind * 2 + 1) = 0"
    using i by (auto simp: decode_hat_def Let_def split: if_splits)
  from a b c d show ?thesis by blast
qed

theorem hat_transitions_witness:
  "snd (decode_hats devnode_zero 3 [1, 0]) =
     [Digital EVENT_IDEVKIND_GAMEDEV 0 71 True, Digital EVENT_IDEVKIND_GAMEDEV 0 71 False] \<and>
   game_hats (fst (decode_hat devnode_zero 3 0)) ! 6 = 0"
proof -
  have h1: "(3 :: nat) \<le> 7" by simp
  have h2: "length (game_hats devnode_zero) = 16" by (simp add: devnode_zero_def)
  have h3: "game_hats devnode_zero ! (3 * 2) = 0 \<and> game_hats devnode_zero ! (3 * 2 + 1) = 0"
    by (simp add: devnode_zero_def)
  have h4: "devnum devnode_zero = 0" by (simp add: devnode_zero_def)
  from hat_transitions [OF h1 h2, of 1 0] h3 h4 show ?thesis by simp
qed

text \<open>
  The claim as stated fails when a hat goes from -1 to +1 with no 0 in between: the only
  event of the second transition activates sub-id 65, sub-id 64 is not released, and both
  directions are active although sub-id 65 was not active before.
\<close>

theorem hat_opposite_counterexample:
  "snd (decode_hat devnode_zero 0 (- 1)) = [Digital EVENT_IDEVKIND_GAMEDEV 0 64 True] \<and>
   snd (decode_hat (fst (decode_hat devnode_zero 0 (- 1))) 0 1) =
     [Digital EVENT_IDEVKIND_GAMEDEV 0 65 True] \<and>
   \<not> digital_active 65 False (snd (decode_hats devnode_zero 0 [- 1])) \<and>
   digital_active 64 False (snd (decode_hats devnode_zero 0 [- 1, 1])) \<and>
   digital_active 65 False (snd (decode_hats devnode_zero 0 [- 1, 1])) \<and>
   game_hats (fst (decode_hats devnode_zero 0 [- 1, 1])) ! 0 \<noteq> 0 \<and>
   game_hats (fst (decode_hats devnode_zero 0 [- 1, 1])) ! 1 \<noteq> 0"
  by code_simp

section \<open>Properties of the keyboard decoder\<close>

lemma kbd_records_append:
  "kbd_records x dev st (pre @ post) =
     (fst (kbd_records x dev (fst (kbd_records x dev st pre)) post),
      snd (kbd_records x dev st pre) @ snd (kbd_records x dev (fst (kbd_records x dev st pre)) post))"
  by (induction pre arbitrary: st) (simp_all add: Let_def split: prod.splits)

lemma kbd_records_key:
  assumes "ev_type inev = EV_KEY"
  shows "kbd_records x dev st (inev # post) =
     (let m = update_state x (ev_code inev) (ev_value inev \<noteq> 0) st;
          ev = Translated dev (ev_code inev) (lookup_keycode x (ev_code inev)) m
                 (lookup_character x (ev_code inev) m)
      in (fst (kbd_records x dev m post),
          (if ev_value inev = 2 then [ev False, ev True]
           else if ev_value inev = 0 then [ev False]
           else [ev True]) @ snd (kbd_records x dev m post)))"
  using assms by (simp add: Let_def split: prod.splits)

lemma snd_defhandler_kbd:
  "snd (defhandler_kbd x st j (Read_records batch)) =
     snd (kbd_records x (devnum (nodes st ! j)) (keyboard_state (nodes st ! j)) batch)"
  by (simp add: defhandler_kbd_def split: prod.splits)

text \<open>
  Claim C6. In any batch that the keyboard decoder reads, a key record contributes, after
  the events of the records before it and before those of the records after it: for a
  press exactly one translated event with \<open>active\<close> true, for a release exactly one with
  \<open>active\<close> false, for a repeat (value 2) exactly two, a release followed by a press.
  Each carries the device number, the code, its key symbol and the modifier mask as
  \<^verbatim>\<open>update_state\<close> leaves it for this record: the left shift key sets its bit on a press
  and clears it on a release, and a key that is none of the five tracked modifiers leaves
  the mask as it is.
\<close>

theorem kbd_press_release_repeat:
  assumes "ev_type inev = EV_KEY"
  shows "snd (defhandler_kbd x st j (Read_records (pre @ inev # post))) =
           (let dev = devnum (nodes st ! j);
                s0 = fst (kbd_records x dev (keyboard_state (nodes st ! j)) pre);
                m = update_state x (ev_code inev) (ev_value inev \<noteq> 0) s0;
                ev = Translated dev (ev_code inev) (lookup_keycode x (ev_code inev)) m
                       (lookup_character x (ev_code inev) m)
            in snd (kbd_records x dev (keyboard_state (nodes st ! j)) pre) @
               (if ev_value inev = 2 then [ev False, ev True]
                else if ev_value inev = 0 then [ev False]
                else [ev True]) @
               snd (kbd_records x dev m post)) \<and>
         (klut x (ev_code inev) = K_LSHIFT x \<and> ARKMOD_LSHIFT x < 32 \<longrightarrow>
            bit (update_state x (ev_code inev) True s) (ARKMOD_LSHIFT x) \<and>
            \<not> bit (update_state x (ev_code inev) False s) (ARKMOD_LSHIFT x)) \<and>
         (klut x (ev_code inev) \<notin> {K_LSHIFT x, K_RSHIFT x, K_LCTRL x, K_RCTRL x, K_CAPSLOCK x} \<longrightarrow>
            update_state x (ev_code inev) b s = s)"
proof -
  have a: "snd (defhandler_kbd x st j (Read_records (pre @ inev # post))) =
           (let dev = devnum (nodes st ! j);
                s0 = fst (kbd_records x dev (keyboard_state (nodes st ! j)) pre);
                m = update_state x (ev_code inev) (ev_value inev \<noteq> 0) s0;
                ev = Translated dev (ev_code inev) (lookup_keycode x (ev_code inev)) m
                       (lookup_character x (ev_code inev) m)
            in snd (kbd_records x dev (keyboard_state (nodes st ! j)) pre) @
               (if ev_value inev = 2 then [ev False, ev True]
                else if ev_value inev = 0 then [ev False]
                else [ev True]) @
               snd (kbd_records x dev m post))"
    by (simp add: snd_defhandler_kbd kbd_records_append [of x _ _ pre "inev # post"]
        kbd_records_key [OF assms] Let_def del: kbd_records.simps)
  have b: "klut x (ev_code inev) = K_LSHIFT x \<and> ARKMOD_LSHIFT x < 32 \<longrightarrow>
            bit (update_state x (ev_code inev) True s) (ARKMOD_LSHIFT x) \<and>
            \<not> bit (update_state x (ev_code inev) False s) (ARKMOD_LSHIFT x)"
    by (simp add: update_state_def Let_def bit_or_iff bit_and_iff bit_not_iff bit_push_bit_iff bit_exp_iff)
  have c: "klut x (ev_code inev) \<notin> {K_LSHIFT x, K_RSHIFT x, K_LCTRL x, K_RCTRL x, K_CAPSLOCK x} \<longrightarrow>
            update_state x (ev_code inev) b s = s"
    by (simp add: update_state_def Let_def)
  from a b c show ?thesis by blast
qed

theorem kbd_press_release_repeat_witness:
  "snd (defhandler_kbd example_xlate
          (example_registry\<lparr>nodes := [devnode_zero\<lparr>devnum := 300, type := DEVNODE_KEYBOARD\<rparr>]\<rparr>) 0
          (Read_records ([] @ \<lparr>ev_type = 1, ev_code = 42, ev_value = 1\<rparr> #
             [\<lparr>ev_type = 1, ev_code = 30, ev_value = 2\<rparr>,
              \<lparr>ev_type = 1, ev_code = 42, ev_value = 0\<rparr>]))) =
     [Translated 300 42 42 1 42 True,
      Translated 300 30 30 1 30 False, Translated 300 30 30 1 30 True,
      Translated 300 42 42 0 42 False]"
proof -
  have h: "ev_type \<lparr>ev_type = 1, ev_code = 42, ev_value = 1\<rparr> = EV_KEY" by (simp add: EV_KEY_def)
  have u1: "update_state example_xlate 42 True 0 = 1"
    by (simp add: update_state_def example_xlate_def Let_def)
  have u2: "update_state example_xlate 30 True 1 = 1"
    by (simp add: update_state_def example_xlate_def Let_def)
  have u3: "update_state example_xlate 42 False 1 = 0"
    by (simp add: update_state_def example_xlate_def Let_def)
  have k: "lookup_keycode example_xlate = (\<lambda>c. c)" "lookup_character example_xlate = (\<lambda>c m. c)"
    by (simp_all add: example_xlate_def)
  from kbd_press_release_repeat [OF h, of example_xlate
      "example_registry\<lparr>nodes := [devnode_zero\<lparr>devnum := 300, type := DEVNODE_KEYBOARD\<rparr>]\<rparr>" 0 "[]"
      "[\<lparr>ev_type = 1, ev_code = 30, ev_value = 2\<rparr>, \<lparr>ev_type = 1, ev_code = 42, ev_value = 0\<rparr>]"]
  show ?thesis
    by (simp add: Let_def devnode_zero_def EV_KEY_def u1 u2 u3 k)
qed

section \<open>Properties of the mouse decoder\<close>

lemma process_axis_pass:
  "mode f = ARCAN_ANALOGFILTER_PASS \<Longrightarrow> process_axis f w = (f, Some w)"
  by (simp add: process_axis_def)

text \<open>
  Claim C7, amended. For a relative X or Y record whose axis filter is in pass-through
  mode (the mode that the classification gives a mouse), the filter accepts the sample and
  its output is the record's value as a 16-bit integer, which is the raw value when that
  fits 16 bits. The decoder adds it to the position counter of the axis, which becomes 0
  when the sum is negative and is kept in 16 bits otherwise, and emits exactly one analog
  event with the new position, the delta, the relative flag and the axis as sub-id.
\<close>

theorem mouse_relative_pass_through:
  assumes "ev_type inev = EV_REL" and "length (cursor_flt node) = 2"
  shows "(ev_code inev = REL_X \<and> mode (cursor_flt node ! 0) = ARCAN_ANALOGFILTER_PASS \<longrightarrow>
            process_axis (cursor_flt node ! 0) (word_of_int (ev_value inev)) =
              (cursor_flt node ! 0, Some (word_of_int (ev_value inev))) \<and>
            (let delta = sint (word_of_int (ev_value inev) :: 16 word);
                 pos = (if int (cursor_mx node) + delta < 0 then 0
                        else nat ((int (cursor_mx node) + delta) mod 65536))
             in mouse_record node inev =
                  (node\<lparr>cursor_mx := pos\<rparr>,
                   [Analog EVENT_IDEVKIND_MOUSE True 0 (devnum node) (int pos) delta 2]))) \<and>
         (ev_code inev = REL_Y \<and> mode (cursor_flt node ! 1) = ARCAN_ANALOGFILTER_PASS \<longrightarrow>
            process_axis (cursor_flt node ! 1) (word_of_int (ev_value inev)) =
              (cursor_flt node ! 1, Some (word_of_int (ev_value inev))) \<and>
            (let delta = sint (word_of_int (ev_value inev) :: 16 word);
                 pos = (if int (cursor_my node) + delta < 0 then 0
                        else nat ((int (cursor_my node) + delta) mod 65536))
             in mouse_record node inev =
                  (node\<lparr>cursor_my := pos\<rparr>,
                   [Analog EVENT_IDEVKIND_MOUSE True 1 (devnum node) (int pos) delta 2]))) \<and>
         (- 32768 \<le> ev_value inev \<and> ev_value inev \<le> 32767 \<longrightarrow>
            sint (word_of_int (ev_value inev) :: 16 word) = ev_value inev)"
proof -
  have ne: "EV_REL \<noteq> EV_KEY" "REL_Y \<noteq> REL_X" by (simp_all add: EV_REL_def EV_KEY_def REL_X_def REL_Y_def)
  have x: "ev_code inev = REL_X \<and> mode (cursor_flt node ! 0) = ARCAN_ANALOGFILTER_PASS \<longrightarrow>
            process_axis (cursor_flt node ! 0) (word_of_int (ev_value inev)) =
              (cursor_flt node ! 0, Some (word_of_int (ev_value inev))) \<and>
            (let delta = sint (word_of_int (ev_value inev) :: 16 word);
                 pos = (if int (cursor_mx node) + delta < 0 then 0
                        else nat ((int (cursor_mx node) + delta) mod 65536))
             in mouse_record node inev =
                  (node\<lparr>cursor_mx := pos\<rparr>,
                   [Analog EVENT_IDEVKIND_MOUSE True 0 (devnum node) (int pos) delta 2]))"
    using assms ne by (simp add: mouse_record_def process_axis_pass cursor_add_def Let_def)
  have y: "ev_code inev = REL_Y \<and> mode (cursor_flt node ! 1) = ARCAN_ANALOGFILTER_PASS \<longrightarrow>
            process_axis (cursor_flt node ! 1) (word_of_int (ev_value inev)) =
              (cursor_flt node ! 1, Some (word_of_int (ev_value inev))) \<and>
            (let delta = sint (word_of_int (ev_value inev) :: 16 word);
                 pos = (if int (cursor_my node) + delta < 0 then 0
                        else nat ((int (cursor_my node) + delta) mod 65536))
             in mouse_record node inev =
                  (node\<lparr>cursor_my := pos\<rparr>,
                   [Analog EVENT_IDEVKIND_MOUSE True 1 (devnum node) (int pos) delta 2]))"
    using assms ne by (simp add: mouse_record_def process_axis_pass cursor_add_def Let_def)
  from x y show ?thesis by (simp add: sint16_of_int)
qed

theorem mouse_relative_pass_through_witness:
  "mouse_record example_pass_mouse \<lparr>ev_type = 2, ev_code = 0, ev_value = - 7\<rparr> =
     (example_pass_mouse\<lparr>cursor_mx := 0\<rparr>, [Analog EVENT_IDEVKIND_MOUSE True 0 400 0 (- 7) 2]) \<and>
   mouse_record example_pass_mouse \<lparr>ev_type = 2, ev_code = 1, ev_value = 3\<rparr> =
     (example_pass_mouse\<lparr>cursor_my := 8\<rparr>, [Analog EVENT_IDEVKIND_MOUSE True 1 400 8 3 2])"
proof -
  have t: "ev_type \<lparr>ev_type = 2, ev_code = 0, ev_value = - 7\<rparr> = EV_REL"
          "ev_type \<lparr>ev_type = 2, ev_code = 1, ev_value = 3\<rparr> = EV_REL"
    by (simp_all add: EV_REL_def)
  have l: "length (cursor_flt example_pass_mouse) = 2" by (simp add: example_pass_mouse_def)
  have m: "mode (cursor_flt example_pass_mouse ! 0) = ARCAN_ANALOGFILTER_PASS"
          "mode (cursor_flt example_pass_mouse ! 1) = ARCAN_ANALOGFILTER_PASS"
          "cursor_mx example_pass_mouse = 5" "cursor_my example_pass_mouse = 5"
          "devnum example_pass_mouse = 400"
    by (simp_all add: example_pass_mouse_def)
  from mouse_relative_pass_through [OF t(1) l] mouse_relative_pass_through [OF t(2) l] m
  show ?thesis by (simp add: REL_X_def REL_Y_def Let_def)
qed

text \<open>
  The claim as stated fails for filters that average: on the X axis the raw value 20 is
  added where the filter's output is 15, and on the Y axis the event carries the filter's
  output 15 where the raw delta is 20.
\<close>

theorem mouse_filter_output_counterexample:
  "snd (process_axis (cursor_flt example_avg_mouse ! 0) (word_of_int 20)) = Some 15 \<and>
   cursor_mx example_avg_mouse = 100 \<and>
   mouse_record example_avg_mouse \<lparr>ev_type = 2, ev_code = 0, ev_value = 20\<rparr> =
     (example_avg_mouse\<lparr>cursor_flt := (cursor_flt example_avg_mouse)
          [0 := fst (process_axis (cursor_flt example_avg_mouse ! 0) (word_of_int 20))],
        cursor_mx := 120\<rparr>,
      [Analog EVENT_IDEVKIND_MOUSE True 0 400 120 20 2]) \<and>
   snd (process_axis (cursor_flt example_avg_mouse ! 1) (word_of_int 20)) = Some 15 \<and>
   snd (mouse_record example_avg_mouse \<lparr>ev_type = 2, ev_code = 1, ev_value = 20\<rparr>) =
     [Analog EVENT_IDEVKIND_MOUSE True 1 400 115 15 2]"
  by code_simp

section \<open>Properties of the classification\<close>

lemma probe_bits_skip:
  "\<forall>b \<in> set bs. b \<noteq> EV_KEY \<and> b \<noteq> EV_REL \<and> b \<noteq> EV_ABS \<Longrightarrow>
     probe_bits e prop bs acc = Inr acc"
  by (induction bs) (simp_all add: probe_case_def)

lemma upt_EV_MAX: "[0..<EV_MAX] = [0, EV_KEY, EV_REL, EV_ABS] @ [4..<31]"
  by (simp add: EV_MAX_def EV_KEY_def EV_REL_def EV_ABS_def upt_rec)

lemma probe_bits_append:
  "probe_bits e prop (bs @ cs) acc =
     (case probe_bits e prop bs acc of Inl a \<Rightarrow> Inl a | Inr acc1 \<Rightarrow> probe_bits e prop cs acc1)"
  by (induction bs arbitrary: acc) (simp_all split: sum.splits)

lemma map_axes_loop_ok:
  "list_all (\<lambda>i. bits i \<longrightarrow> (case absinfo e i of None \<Rightarrow> True | Some (mn, mx) \<Rightarrow> mn < mx)) is \<Longrightarrow>
     \<exists>axs. map_axes_loop e bits is = Inr axs"
proof (induction "is")
  case Nil
  then show ?case by simp
next
  case (Cons i "is")
  then obtain axs where axs: "map_axes_loop e bits is = Inr axs" by auto
  show ?case
  proof (cases "bits i")
    case False
    then show ?thesis using axs by simp
  next
    case True
    with Cons.prems have "case absinfo e i of None \<Rightarrow> True | Some (mn, mx) \<Rightarrow> mn < mx" by simp
    then obtain ax where "axis_created (absinfo e i) = Inr ax"
      by (auto simp: axis_created_def split: option.splits)
    then show ?thesis using True axs by simp
  qed
qed

lemma map_axes_ok:
  assumes "abs_ranges_ok e" and "type node = DEVNODE_GAME"
  shows "\<exists>a d. map_axes e EV_ABS node = Inr (node\<lparr>game_axes := a, game_adata := d\<rparr>)"
proof (cases "evbit e EV_ABS")
  case None
  then have "map_axes e EV_ABS node = Inr (node\<lparr>game_axes := game_axes node, game_adata := game_adata node\<rparr>)"
    by (simp add: map_axes_def)
  then show ?thesis by blast
next
  case (Some bits)
  with assms(1) obtain axs where axs: "map_axes_loop e bits [0..<ABS_MAX] = Inr axs"
    using map_axes_loop_ok [of bits e "[0..<ABS_MAX]"] by (auto simp: abs_ranges_ok_def)
  show ?thesis
  proof (cases "game_adata node \<noteq> []")
    case True
    then have "map_axes e EV_ABS node = Inr (node\<lparr>game_axes := game_axes node, game_adata := game_adata node\<rparr>)"
      using Some assms(2) by (simp add: map_axes_def)
    then show ?thesis by blast
  next
    case False
    show ?thesis
    proof (cases "length (filter bits [0..<ABS_MAX]) = 0")
      case True
      then have "map_axes e EV_ABS node = Inr (node\<lparr>game_axes := 0, game_adata := game_adata node\<rparr>)"
        using Some assms(2) False by (simp add: map_axes_def Let_def)
      then show ?thesis by blast
    next
      case nz: False
      then have "map_axes e EV_ABS node =
          Inr (node\<lparr>game_axes := length (filter bits [0..<ABS_MAX]), game_adata := axs\<rparr>)"
        using Some assms(2) False axs by (simp add: map_axes_def Let_def)
      then show ?thesis by blast
    qed
  qed
qed

lemma probe_bits_result:
  assumes "evbit e 0 = Some prop" and "abs_ranges_ok e" and "type node = DEVNODE_GAME"
  shows "\<exists>a d. probe_bits e prop [0..<EV_MAX]
             \<lparr>acc_node = node, mouse_ax = False, mouse_btn = False, joystick_btn = False\<rparr> =
           Inr \<lparr>acc_node = node\<lparr>button_count := (if prop EV_KEY then counted_buttons e else button_count node),
                                  game_axes := a, game_adata := d\<rparr>,
                mouse_ax = has_rel_xy e, mouse_btn = has_mouse_button e,
                joystick_btn = has_joystick_button e\<rparr>"
proof -
  let ?acc0 = "\<lparr>acc_node = node, mouse_ax = False, mouse_btn = False, joystick_btn = False\<rparr>"
  have skip: "\<And>acc. probe_bits e prop [4..<31] acc = Inr acc"
    by (rule probe_bits_skip) (simp add: EV_KEY_def EV_REL_def EV_ABS_def)
  have c0: "probe_case e 0 ?acc0 = Inr ?acc0"
    by (simp add: probe_case_def EV_KEY_def EV_REL_def EV_ABS_def)
  define n1 where "n1 = (if prop EV_KEY then node\<lparr>button_count := counted_buttons e\<rparr> else node)"
  define acc1 where "acc1 = \<lparr>acc_node = n1, mouse_ax = False, mouse_btn = has_mouse_button e,
      joystick_btn = has_joystick_button e\<rparr>"
  have s1: "(if prop EV_KEY then probe_case e EV_KEY ?acc0 else Inr ?acc0) = Inr acc1"
    using assms(1)
    by (auto simp: probe_case_def button_count_fn_def acc1_def n1_def counted_buttons_def
        has_mouse_button_def has_joystick_button_def split: option.splits)
  define acc2 where "acc2 = acc1\<lparr>mouse_ax := has_rel_xy e\<rparr>"
  have s2: "(if prop EV_REL then probe_case e EV_REL acc1 else Inr acc1) = Inr acc2"
    using assms(1)
    by (auto simp: probe_case_def check_mouse_axis_def acc2_def acc1_def has_rel_xy_def
        EV_KEY_def EV_REL_def split: option.splits)
  have t1: "type n1 = DEVNODE_GAME" using assms(3) by (simp add: n1_def)
  from map_axes_ok [OF assms(2) t1] obtain a d where
    ma: "map_axes e EV_ABS n1 = Inr (n1\<lparr>game_axes := a, game_adata := d\<rparr>)" by blast
  define a' where "a' = (if prop EV_ABS then a else game_axes n1)"
  define d' where "d' = (if prop EV_ABS then d else game_adata n1)"
  define acc3 where "acc3 = acc2\<lparr>acc_node := n1\<lparr>game_axes := a', game_adata := d'\<rparr>\<rparr>"
  have s3: "(if prop EV_ABS then probe_case e EV_ABS acc2 else Inr acc2) = Inr acc3"
    using ma
    by (auto simp: probe_case_def acc3_def acc2_def acc1_def a'_def d'_def
        EV_KEY_def EV_REL_def EV_ABS_def)
  have "probe_bits e prop [0..<EV_MAX] ?acc0 = Inr acc3"
    unfolding upt_EV_MAX probe_bits_append
    using c0 s1 s2 s3 skip by (auto split: sum.splits if_splits)
  moreover have "acc3 = \<lparr>acc_node = node\<lparr>button_count := (if prop EV_KEY then counted_buttons e else button_count node),
                                  game_axes := a', game_adata := d'\<rparr>,
                mouse_ax = has_rel_xy e, mouse_btn = has_mouse_button e,
                joystick_btn = has_joystick_button e\<rparr>"
    by (simp add: acc3_def acc2_def acc1_def n1_def)
  ultimately show ?thesis by blast
qed

text \<open>
  Claim C4. A device that passes the probes of \<^verbatim>\<open>got_device\<close> and has no label
  override is classified, and its class is: Mouse, with both cursor filters in
  pass-through mode, when the relative X and Y axes and a mouse button are present;
  otherwise Keyboard when no mouse button and no joystick button is present and more than
  84 buttons are counted; otherwise GameController. This is so while the registry is below
  the device limit; at the limit the descriptor is closed before the capabilities are
  read, and the device is dropped without a class.
\<close>

theorem classification_rules:
  assumes "discoverable e" and "identify e = Some (lbl, dnum)"
    and "handler (lookup_dev_handler db lbl) = None"
  shows "if n_devs st < MAX_DEVICES then
           \<exists>st1 node.
             probe_device db st new_fd e = Inr (st1, Some node) \<and>
             type node =
               (if has_rel_xy e \<and> has_mouse_button e then DEVNODE_MOUSE
                else if \<not> has_mouse_button e \<and> \<not> has_joystick_button e \<and> 84 < counted_buttons e
                     then DEVNODE_KEYBOARD
                     else DEVNODE_GAME) \<and>
             (has_rel_xy e \<and> has_mouse_button e \<longrightarrow>
                map mode (cursor_flt node) = [ARCAN_ANALOGFILTER_PASS, ARCAN_ANALOGFILTER_PASS]) \<and>
             handle node = new_fd \<and> devnum node = dnum \<and> label node = lbl \<and>
             button_count node = counted_buttons e
         else probe_device db st new_fd e = Inr (st\<lparr>closed := closed st @ [new_fd, new_fd]\<rparr>, None)"
proof (cases "n_devs st < MAX_DEVICES")
  case False
  from assms(1) have "fstat_ok e" "st_chr_or_blk e" by (simp_all add: discoverable_def)
  then show ?thesis using False assms(2) by (simp add: probe_device_def Let_def)
next
  case True
  from assms(1) obtain pr where pr: "evbit e 0 = Some pr"
    and ok: "fstat_ok e" "st_chr_or_blk e" "abs_ranges_ok e"
    by (auto simp: discoverable_def)
  let ?node1 = "devnode_zero\<lparr>handle := new_fd, label := lbl, devnum := dnum, type := DEVNODE_GAME\<rparr>"
  have t: "type ?node1 = DEVNODE_GAME" by simp
  from probe_bits_result [OF pr ok(3) t] obtain a d where
    pb: "probe_bits e pr [0..<EV_MAX]
           \<lparr>acc_node = ?node1, mouse_ax = False, mouse_btn = False, joystick_btn = False\<rparr> =
         Inr \<lparr>acc_node = ?node1\<lparr>button_count := (if pr EV_KEY then counted_buttons e
                                                     else button_count ?node1),
                                  game_axes := a, game_adata := d\<rparr>,
              mouse_ax = has_rel_xy e, mouse_btn = has_mouse_button e,
              joystick_btn = has_joystick_button e\<rparr>"
    by blast
  have bc: "(if pr EV_KEY then counted_buttons e else button_count ?node1) = counted_buttons e"
    using pr by (simp add: counted_buttons_def devnode_zero_def)
  show ?thesis
    using ok(1,2) assms(2,3) True pr pb
    by (auto simp: probe_device_def classify_def union_view_def Let_def bc devnode_zero_def)
qed

lemmas ex_defs = example_mouse_env_def example_kbd_env_def example_pad_env_def
  example_stick_env_def
  discoverable_def abs_ranges_ok_def has_rel_xy_def has_mouse_button_def has_joystick_button_def
  counted_buttons_def identify_def MAX_DEVICES_def
  EV_KEY_def EV_REL_def EV_ABS_def REL_X_def REL_Y_def BTN_MOUSE_def BTN_LEFT_def BTN_RIGHT_def
  BTN_MIDDLE_def BTN_JOYSTICK_def BTN_GAMEPAD_def BTN_WHEEL_def

lemma length_filter_less: "length (filter (\<lambda>b. b < k) [0..<n]) = min k n"
  by (induction n) auto

theorem classification_rules_witness:
  "(\<exists>st1 node. probe_device example_db iodev_init 7 example_mouse_env = Inr (st1, Some node) \<and>
      type node = DEVNODE_MOUSE \<and>
      map mode (cursor_flt node) = [ARCAN_ANALOGFILTER_PASS, ARCAN_ANALOGFILTER_PASS]) \<and>
   (\<exists>st1 node. probe_device example_db iodev_init 8 example_kbd_env = Inr (st1, Some node) \<and>
      type node = DEVNODE_KEYBOARD) \<and>
   (\<exists>st1 node. probe_device example_db iodev_init 9 example_pad_env = Inr (st1, Some node) \<and>
      type node = DEVNODE_GAME)"
proof -
  have h: "handler (lookup_dev_handler example_db l) = None" for l
    by (simp add: example_db_def evhandler_zero_def)
  have m1: "discoverable example_mouse_env" by (simp add: ex_defs)
  have m2: "identify example_mouse_env = Some (''mouse'', 4464)" by (simp add: ex_defs)
  have m3: "has_rel_xy example_mouse_env" "has_mouse_button example_mouse_env"
    by (simp_all add: ex_defs)
  have k1: "discoverable example_kbd_env" by (simp add: ex_defs)
  have k2: "identify example_kbd_env = Some (''keyboard'', 4465)" by (simp add: ex_defs)
  have k3: "\<not> has_rel_xy example_kbd_env" "\<not> has_mouse_button example_kbd_env"
    "\<not> has_joystick_button example_kbd_env" "counted_buttons example_kbd_env = 120"
    by (simp_all add: ex_defs KEY_MAX_def length_filter_less)
  have p1: "discoverable example_pad_env" by (simp add: ex_defs ABS_MAX_def list_all_iff)
  have p2: "identify example_pad_env = Some (''unknown'', 4466)" by (simp add: ex_defs)
  have p3: "\<not> has_rel_xy example_pad_env" "\<not> has_mouse_button example_pad_env"
    "has_joystick_button example_pad_env" by (simp_all add: ex_defs)
  have n: "n_devs iodev_init < MAX_DEVICES" by (simp add: iodev_init_def MAX_DEVICES_def)
  from classification_rules [OF m1 m2 h, of iodev_init 7] m3
    classification_rules [OF k1 k2 h, of iodev_init 8] k3
    classification_rules [OF p1 p2 h, of iodev_init 9] p3 n
  show ?thesis by auto
qed
section \<open>Properties of the registry\<close>

lemma probe_device_node:
  assumes "discoverable e" and "identify e = Some (lbl, dnum)" and "n_devs st < MAX_DEVICES"
  shows "\<exists>st1 node.
           probe_device db st new_fd e = Inr (st1, Some node) \<and>
           devnum node = dnum \<and> handle node = new_fd \<and>
           nodes st1 = nodes st \<and> pollset st1 = pollset st \<and> n_devs st1 = n_devs st \<and>
           sz_nodes st1 = sz_nodes st \<and> closed st1 = closed st"
proof -
  from assms(1) obtain pr where pr: "evbit e 0 = Some pr"
    and ok: "fstat_ok e" "st_chr_or_blk e" "abs_ranges_ok e"
    by (auto simp: discoverable_def)
  let ?node1 = "devnode_zero\<lparr>handle := new_fd, label := lbl, devnum := dnum, type := DEVNODE_GAME\<rparr>"
  have t: "type ?node1 = DEVNODE_GAME" by simp
  from probe_bits_result [OF pr ok(3) t] obtain acc where
    pb: "probe_bits e pr [0..<EV_MAX]
           \<lparr>acc_node = ?node1, mouse_ax = False, mouse_btn = False, joystick_btn = False\<rparr> = Inr acc"
    and dn: "devnum (acc_node acc) = dnum" "handle (acc_node acc) = new_fd"
    by fastforce
  show ?thesis
    using ok(1,2) assms(2,3) pr pb dn
    by (auto simp: probe_device_def classify_def union_view_def Let_def
        split: prod.splits if_splits)
qed

lemma find_slot_match:
  assumes "\<forall>k \<in> set ks. devnum (ns ! k) \<noteq> dn" and "devnum (ns ! i) = dn"
    and "0 < handle (ns ! i) \<or> hole \<noteq> - 1 \<or> (\<exists>k \<in> set ks. handle (ns ! k) \<le> 0)"
  shows "find_slot ns dn (ks @ i # rest) hole = Inl i"
  using assms by (induction ks arbitrary: hole) auto

lemma upt_split: "i < n \<Longrightarrow> [0..<n] = [0..<i] @ i # [Suc i..<n]"
proof -
  assume lt: "i < n"
  have "[0..<i + (n - i)] = [0..<i] @ [i..<i + (n - i)]" by (rule upt_add_eq_append) simp
  then show ?thesis using lt by (simp add: upt_conv_Cons)
qed

text \<open>
  The reconnect path of the slot scan. A device passes the probes and its identity is
  that of slot \<open>i\<close>, the first slot with this identity; the slot holds a valid handle, or
  a free slot lies before it. Then the registration allocates no slot and leaves the
  device count as it is: a valid old handle is closed, the slot and its poll entry get
  the new descriptor, and the rest of the slot (identity, label, class, sub-state with
  every axis filter) and all other slots stay as they were.
\<close>

lemma reconnect_splices_handle:
  assumes "discoverable e" and "identify e = Some (lbl, dnum)" and "n_devs st < MAX_DEVICES"
    and "i < sz_nodes st"
    and "devnum (nodes st ! i) = dnum"
    and "0 < handle (nodes st ! i) \<or> (\<exists>k < i. handle (nodes st ! k) \<le> 0)"
    and "\<forall>k < i. devnum (nodes st ! k) \<noteq> dnum"
  shows "\<exists>st'. got_device db st new_fd e = Inr st' \<and>
           n_devs st' = n_devs st \<and> sz_nodes st' = sz_nodes st \<and>
           nodes st' = (nodes st)[i := (nodes st ! i)\<lparr>handle := new_fd\<rparr>] \<and>
           pollset st' = (pollset st)[i := \<lparr>fd = new_fd, events = POLLIN\<rparr>] \<and>
           closed st' = closed st @
                          (if 0 < handle (nodes st ! i) then [handle (nodes st ! i)] else [])"
proof -
  from probe_device_node [OF assms(1,2,3), of db new_fd] obtain st1 node where
    pd: "probe_device db st new_fd e = Inr (st1, Some node)"
    and nd: "devnum node = dnum"
    and s1: "nodes st1 = nodes st" "pollset st1 = pollset st" "n_devs st1 = n_devs st"
            "sz_nodes st1 = sz_nodes st" "closed st1 = closed st"
    by blast
  have a: "\<forall>k \<in> set [0..<i]. devnum (nodes st ! k) \<noteq> dnum" using assms(7) by simp
  have b: "0 < handle (nodes st ! i) \<or> (- 1 :: int) \<noteq> - 1 \<or>
             (\<exists>k \<in> set [0..<i]. handle (nodes st ! k) \<le> 0)"
    using assms(6) by auto
  from find_slot_match [OF a assms(5) b, of "[Suc i..<sz_nodes st]"]
  have fs: "find_slot (nodes st1) (devnum node) [0..<sz_nodes st1] (- 1) = Inl i"
    using upt_split [OF assms(4)] s1 nd by simp
  have "register_node st1 node new_fd e =
          (if 0 < handle (nodes st ! i)
           then st1\<lparr>closed := closed st1 @ [handle (nodes st ! i)]\<rparr> else st1)
            \<lparr>nodes := (nodes st)[i := (nodes st ! i)\<lparr>handle := new_fd\<rparr>],
             pollset := (pollset st)[i := \<lparr>fd = new_fd, events = POLLIN\<rparr>]\<rparr>"
    using fs s1 by (simp add: register_node_def Let_def)
  then show ?thesis using pd s1 by (simp add: got_device_def)
qed

lemma probe_bits_unset:
  "\<forall>b \<in> set bs. \<not> pr b \<Longrightarrow> probe_bits e pr bs acc = Inr acc"
  by (induction bs) simp_all

lemma map_axes_loop_unset:
  "\<forall>i \<in> set is. \<not> bits i \<Longrightarrow> map_axes_loop e bits is = Inr []"
  by (induction "is") simp_all

lemma upt_ABS_MAX: "[0..<ABS_MAX] = 0 # 1 # [2..<63]"
  by (simp add: ABS_MAX_def upt_rec)

lemma upt_8: "[0..<8] = [0, 1, 2, 3, 4, 5, 6, 7]"
  by (simp add: upt_rec)

lemma replicate_8: "replicate 8 x = [x, x, x, x, x, x, x, x]"
  by (simp add: eval_nat_numeral)

lemma probe_plain:
  assumes "n_devs st < MAX_DEVICES" and "256 \<le> h" and "h < 65536"
  shows "probe_device example_db st new_fd (example_plain_env h) =
           Inr (st, Some (example_plain_node h new_fd))"
proof -
  let ?e = "example_plain_env h"
  have pb: "\<And>acc. probe_bits ?e (\<lambda>b. False) [0..<EV_MAX] acc = Inr acc"
    by (rule probe_bits_unset) simp
  have e: "fstat_ok ?e" "st_chr_or_blk ?e" "evbit ?e 0 = Some (\<lambda>b. False)"
    "identify ?e = Some (''unknown'', h)"
    using assms by (simp_all add: example_plain_env_def identify_def MAX_DEVICES_def)
  show ?thesis
    using assms(1)
    by (simp add: probe_device_def e pb classify_def union_view_def example_db_def
          evhandler_zero_def devnode_zero_def example_plain_node_def Let_def)
qed

lemma probe_stick:
  assumes "n_devs st < MAX_DEVICES"
  shows "probe_device example_db st new_fd example_stick_env =
           Inr (st, Some (example_stick_node new_fd))"
proof -
  let ?e = "example_stick_env"
  have e: "fstat_ok ?e" "st_chr_or_blk ?e" "evbit ?e 0 = Some (\<lambda>b. b = 0 \<or> b = 3)"
    "evbit ?e 3 = Some (\<lambda>b. b < 2)" "identify ?e = Some (''unknown'', 4467)"
    "absinfo ?e 0 = Some (0, 255)" "absinfo ?e (Suc 0) = None" "aliased ?e = alias_two_axes"
    by (simp_all add: example_stick_env_def identify_def MAX_DEVICES_def)
  have rest: "map_axes_loop ?e (\<lambda>b. b < 2) [2..<63] = Inr []"
    by (rule map_axes_loop_unset) simp
  have ax: "map_axes_loop ?e (\<lambda>b. b < 2) [0..<ABS_MAX] =
              Inr [axis_default\<lparr>upper := 255, lower := 0\<rparr>, axis_default]"
    by (simp add: upt_ABS_MAX e axis_created_def rest del: upt_rec_numeral)
  have ma: "\<And>node. type node = DEVNODE_GAME \<Longrightarrow> game_adata node = [] \<Longrightarrow>
              map_axes ?e 3 node =
                Inr (node\<lparr>game_axes := 2,
                       game_adata := [axis_default\<lparr>upper := 255, lower := 0\<rparr>, axis_default]\<rparr>)"
    by (simp add: map_axes_def e ax [unfolded ABS_MAX_def] length_filter_less ABS_MAX_def
          del: upt_rec_numeral)
  have pb: "\<And>acc. type (acc_node acc) = DEVNODE_GAME \<Longrightarrow> game_adata (acc_node acc) = [] \<Longrightarrow>
      probe_bits ?e (\<lambda>b. b = 0 \<or> b = 3) [0..<EV_MAX] acc =
        Inr (acc\<lparr>acc_node := (acc_node acc)\<lparr>game_axes := 2,
                       game_adata := [axis_default\<lparr>upper := 255, lower := 0\<rparr>, axis_default]\<rparr>\<rparr>)"
    by (simp add: upt_EV_MAX probe_bits_append probe_bits_skip probe_case_def ma
          EV_KEY_def EV_REL_def EV_ABS_def)
  show ?thesis
    using assms
    by (simp add: probe_device_def e pb classify_def union_view_def example_db_def
          evhandler_zero_def devnode_zero_def example_stick_node_def alias_two_axes_def Let_def)
qed

lemma got_stick:
  "n_devs st < MAX_DEVICES \<Longrightarrow>
     got_device example_db st new_fd example_stick_env =
       Inr (register_node st (example_stick_node new_fd) new_fd example_stick_env)"
  by (simp add: got_device_def probe_stick)

lemma got_plain:
  "n_devs st < MAX_DEVICES \<Longrightarrow> 256 \<le> h \<Longrightarrow> h < 65536 \<Longrightarrow>
     got_device example_db st new_fd (example_plain_env h) =
       Inr (register_node st (example_plain_node h new_fd) new_fd (example_plain_env h))"
  by (simp add: got_device_def probe_plain)

lemma realloc_ok:
  "nodes_realloc_ok example_stick_env" "pollset_realloc_ok example_stick_env"
  "nodes_realloc_ok (example_plain_env h)" "pollset_realloc_ok (example_plain_env h)"
  by (simp_all add: example_stick_env_def example_plain_env_def)

lemma node_fields:
  "handle (example_stick_node f) = f" "devnum (example_stick_node f) = 4467"
  "handle (example_plain_node h f) = f" "devnum (example_plain_node h f) = h"
  "handle devnode_zero = 0" "devnum devnode_zero = 0"
  by (simp_all add: example_stick_node_def example_plain_node_def devnode_zero_def)

text \<open>The registry after the stick and the two plain devices have been registered.\<close>

lemma example_three_eq:
  "example_three =
     \<lparr>n_devs = 3, sz_nodes = 8, mouseid = 0,
      nodes = [example_stick_node 7, example_plain_node 300 8, example_plain_node 301 9,
               devnode_zero, devnode_zero, devnode_zero, devnode_zero, devnode_zero],
      pollset = [\<lparr>fd = 7, events = POLLIN\<rparr>, \<lparr>fd = 8, events = POLLIN\<rparr>,
                 \<lparr>fd = 9, events = POLLIN\<rparr>, pollfd_zero, pollfd_zero, pollfd_zero,
                 pollfd_zero, pollfd_zero],
      closed = []\<rparr>"
proof -
  define S1 where "S1 =
    \<lparr>n_devs = 1, sz_nodes = 8, mouseid = 0,
     nodes = [example_stick_node 7, devnode_zero, devnode_zero, devnode_zero,
              devnode_zero, devnode_zero, devnode_zero, devnode_zero],
     pollset = [\<lparr>fd = 7, events = POLLIN\<rparr>, pollfd_zero, pollfd_zero, pollfd_zero,
                pollfd_zero, pollfd_zero, pollfd_zero, pollfd_zero],
     closed = []\<rparr>"
  define S2 where "S2 =
    S1\<lparr>n_devs := 2, nodes := (nodes S1)[1 := example_plain_node 300 8],
       pollset := (pollset S1)[1 := \<lparr>fd = 8, events = POLLIN\<rparr>]\<rparr>"
  define S3 where "S3 =
    S2\<lparr>n_devs := 3, nodes := (nodes S2)[2 := example_plain_node 301 9],
       pollset := (pollset S2)[2 := \<lparr>fd = 9, events = POLLIN\<rparr>]\<rparr>"
  note S = S1_def S2_def S3_def
  have n1: "n_devs iodev_init < MAX_DEVICES" by (simp add: iodev_init_def MAX_DEVICES_def)
  have n2: "n_devs S1 < MAX_DEVICES" by (simp add: S MAX_DEVICES_def)
  have n3: "n_devs S2 < MAX_DEVICES" by (simp add: S MAX_DEVICES_def)
  have s1: "got_device example_db iodev_init 7 example_stick_env = Inr S1"
    unfolding got_stick [OF n1]
    by (simp add: register_node_def realloc_ok node_fields iodev_init_def replicate_8 S)
  have s2: "got_device example_db S1 8 (example_plain_env 300) = Inr S2"
    unfolding got_plain [OF n2, of 300, simplified]
    by (simp add: register_node_def realloc_ok node_fields upt_8 S)
  have s3: "got_device example_db S2 9 (example_plain_env 301) = Inr S3"
    unfolding got_plain [OF n3, of 301, simplified]
    by (simp add: register_node_def realloc_ok node_fields upt_8 S)
  have "example_three = S3"
    by (simp add: example_three_def s1 s2 s3)
  then show ?thesis by (simp add: S)
qed

text \<open>
  Claim C3. The claim holds on the reconnect path above, but not for a device whose slot
  is the first free one. The stick with identity 4467 sits in slot 0 of three devices; its
  first filter has been configured (kernel of 4 samples, deadzone 5) and a failed read has
  disconnected it, so slot 0 keeps the identity with handle 0. When the same device is
  discovered again with descriptor 10, the scan takes slot 0 as the first free slot and
  goes on to slot 1 without comparing the identity (line 745); no other slot matches, so
  the device is entered as a new one: the device count grows from 3 to 4 and the node in
  slot 0 is overwritten by the freshly built one, whose filter has kernel size 0 and
  deadzone 0.
\<close>

theorem replug_overwrites_first_slot:
  "n_devs example_unplugged = 3 \<and>
   map devnum (take 3 (nodes example_unplugged)) = [4467, 300, 301] \<and>
   map handle (take 3 (nodes example_unplugged)) = [0, 8, 9] \<and>
   kernel_sz (game_adata (nodes example_unplugged ! 0) ! 0) = 4 \<and>
   deadzone (game_adata (nodes example_unplugged ! 0) ! 0) = 5 \<and>
   identify example_stick_env = Some (''unknown'', 4467) \<and>
   got_device example_db example_unplugged 10 example_stick_env = Inr example_replugged \<and>
   n_devs example_replugged = 4 \<and>
   map devnum (take 4 (nodes example_replugged)) = [4467, 300, 301, 0] \<and>
   map handle (take 4 (nodes example_replugged)) = [10, 8, 9, 0] \<and>
   kernel_sz (game_adata (nodes example_replugged ! 0) ! 0) = 0 \<and>
   deadzone (game_adata (nodes example_replugged ! 0) ! 0) = 0"
proof -
  define cfg where "cfg =
    (example_stick_node 7)\<lparr>game_adata :=
       [analogfilter_axis (axis_default\<lparr>upper := 255, lower := 0\<rparr>) (- 100) 100 5 4
          ARCAN_ANALOGFILTER_AVG, axis_default]\<rparr>"
  define S4 where "S4 =
    example_three\<lparr>closed := [7], nodes := (nodes example_three)[0 := cfg\<lparr>handle := 0\<rparr>],
       pollset := (pollset example_three)[0 := \<lparr>fd = 0, events = 0\<rparr>]\<rparr>"
  define S5 where "S5 =
    S4\<lparr>n_devs := 4, nodes := (nodes S4)[0 := example_stick_node 10],
       pollset := (pollset S4)[0 := \<lparr>fd = 10, events = POLLIN\<rparr>]\<rparr>"
  note S = S4_def S5_def example_three_eq
  have n5: "n_devs S4 < MAX_DEVICES" by (simp add: S MAX_DEVICES_def)
  have c: "handle cfg = 7" "devnum cfg = 4467"
    by (simp_all add: cfg_def node_fields)
  have s4: "example_unplugged = S4"
    unfolding example_unplugged_def S4_def example_three_eq
    by (simp add: platform_event_analogfilter_def find_axis_def lookup_devnode_def
          disconnect_def node_fields example_stick_node_def [of 7] cfg_def upt_rec)
  have s5: "got_device example_db S4 10 example_stick_env = Inr S5"
    unfolding got_stick [OF n5]
    by (simp add: register_node_def realloc_ok node_fields c upt_8 S)
  have s6: "example_replugged = S5"
    by (simp add: example_replugged_def s4 s5)
  have f: "kernel_sz (game_adata cfg ! 0) = 4" "deadzone (game_adata cfg ! 0) = 5"
    "kernel_sz (game_adata (example_stick_node 10) ! 0) = 0"
    "deadzone (game_adata (example_stick_node 10) ! 0) = 0"
    by (simp_all add: cfg_def analogfilter_axis_def set_analogstate_def kernel_lim_def
          example_stick_node_def axis_default_def axis_zero_def)
  have i: "identify example_stick_env = Some (''unknown'', 4467)"
    by (simp add: example_stick_env_def identify_def MAX_DEVICES_def)
  show ?thesis
    unfolding s4 s6 s5 [unfolded s6 [symmetric]]
    by (simp add: i f c node_fields S s5 s4 s6)
qed

lemma find_slot_none:
  assumes "\<forall>k \<in> set ks. devnum (ns ! k) \<noteq> dn"
  shows "find_slot ns dn ks hole =
           Inr (if hole \<noteq> - 1 then hole
                else (case List.find (\<lambda>k. handle (ns ! k) \<le> 0) ks of
                        None \<Rightarrow> - 1 | Some k \<Rightarrow> int k))"
  using assms by (induction ks arbitrary: hole) auto

lemma find_append_None:
  "\<forall>x \<in> set xs. \<not> P x \<Longrightarrow> List.find P (xs @ ys) = List.find P ys"
  by (induction xs) simp_all

lemma find_first_hole:
  assumes "reg_inv st ids fds"
  shows "List.find (\<lambda>k. handle (nodes st ! k) \<le> 0) [0..<length (nodes st)] =
           (if length ids < length (nodes st) then Some (length ids) else None)"
proof (cases "length ids < length (nodes st)")
  case True
  have pos: "\<forall>k \<in> set [0..<length ids]. \<not> handle (nodes st ! k) \<le> 0"
    using assms by (auto simp: reg_inv_def)
  have z: "handle (nodes st ! length ids) \<le> 0"
    using assms True by (simp add: reg_inv_def devnode_zero_def)
  show ?thesis
    unfolding upt_split [OF True] using True z by (simp add: find_append_None [OF pos])
next
  case False
  then have eq: "length (nodes st) = length ids" using assms by (simp add: reg_inv_def)
  have "\<forall>k \<in> set [0..<length (nodes st)]. \<not> handle (nodes st ! k) \<le> 0"
    using assms eq by (auto simp: reg_inv_def)
  then show ?thesis using False by (simp add: find_None_iff)
qed

lemma reg_inv_no_match:
  assumes "reg_inv st ids fds" and "dn \<notin> set ids" and "dn \<noteq> 0"
  shows "\<forall>k \<in> set [0..<sz_nodes st]. devnum (nodes st ! k) \<noteq> dn"
proof
  fix k assume "k \<in> set [0..<sz_nodes st]"
  then have k: "k < length (nodes st)" using assms(1) by (simp add: reg_inv_def)
  show "devnum (nodes st ! k) \<noteq> dn"
  proof (cases "k < length ids")
    case True
    then have "devnum (nodes st ! k) = ids ! k" using assms(1) by (simp add: reg_inv_def)
    then show ?thesis using True assms(2) by (metis nth_mem)
  next
    case False
    then have "nodes st ! k = devnode_zero" using assms(1) k by (simp add: reg_inv_def)
    then show ?thesis using assms(3) by (simp add: devnode_zero_def)
  qed
qed

lemma register_node_inv:
  assumes "reg_inv st ids fds" and "dn \<notin> set ids" and "dn \<noteq> 0"
    and "devnum node = dn" and "handle node = new_fd" and "0 < new_fd"
    and "nodes_realloc_ok e" and "pollset_realloc_ok e"
  shows "reg_inv (register_node st node new_fd e) (ids @ [dn]) (fds @ [new_fd])"
proof -
  have sz: "sz_nodes st = length (nodes st)" using assms(1) by (simp add: reg_inv_def)
  have fs: "find_slot (nodes st) (devnum node) [0..<sz_nodes st] (- 1) =
              Inr (if length ids < length (nodes st) then int (length ids) else - 1)"
    using find_slot_none [OF reg_inv_no_match [OF assms(1,2,3)], of "- 1"]
      find_first_hole [OF assms(1)] assms(4) sz by simp
  show ?thesis
  proof (cases "length ids < length (nodes st)")
    case True
    then have "register_node st node new_fd e =
        st\<lparr>n_devs := n_devs st + 1,
           pollset := (pollset st)[length ids := \<lparr>fd = new_fd, events = POLLIN\<rparr>],
           nodes := (nodes st)[length ids := node]\<rparr>"
      using fs by (simp add: register_node_def Let_def)
    then show ?thesis using assms(1,4,5,6) True
      by (auto simp: reg_inv_def nth_list_update nth_append)
  next
    case False
    then have eq: "length (nodes st) = length ids" using assms(1) by (simp add: reg_inv_def)
    have "register_node st node new_fd e =
        st\<lparr>nodes := (nodes st @ replicate 8 devnode_zero)[length ids := node],
           pollset := (pollset st @ replicate 8 pollfd_zero)
                        [length ids := \<lparr>fd = new_fd, events = POLLIN\<rparr>],
           sz_nodes := sz_nodes st + 8, n_devs := n_devs st + 1\<rparr>"
      using fs False assms(1,7,8) eq by (simp add: register_node_def Let_def reg_inv_def)
    then show ?thesis using assms(1,4,5,6) eq
      by (auto simp: reg_inv_def nth_list_update nth_append)
  qed
qed

lemma identify_range:
  "identify e = Some (lbl, dn) \<Longrightarrow> MAX_DEVICES \<le> dn \<and> dn < 65536"
  by (auto simp: identify_def Let_def MAX_DEVICES_def split: option.splits if_splits)

lemma reg_inv_fields:
  "nodes st1 = nodes st \<Longrightarrow> pollset st1 = pollset st \<Longrightarrow> n_devs st1 = n_devs st \<Longrightarrow>
   sz_nodes st1 = sz_nodes st \<Longrightarrow> closed st1 = closed st \<Longrightarrow>
   reg_inv st1 ids fds = reg_inv st ids fds"
  by (simp add: reg_inv_def)

lemma got_device_inv:
  assumes "reg_inv st ids fds" and "discoverable e" and "identify e = Some (lbl, dn)"
    and "dn \<notin> set ids" and "0 < new_fd" and "nodes_realloc_ok e" and "pollset_realloc_ok e"
    and "length ids < MAX_DEVICES"
  shows "\<exists>st'. got_device db st new_fd e = Inr st' \<and> reg_inv st' (ids @ [dn]) (fds @ [new_fd])"
proof -
  have lim: "n_devs st < MAX_DEVICES" using assms(1,8) by (simp add: reg_inv_def)
  from probe_device_node [OF assms(2,3) lim, of db new_fd] obtain st1 node where
    pd: "probe_device db st new_fd e = Inr (st1, Some node)"
    and nd: "devnum node = dn" "handle node = new_fd"
    and s1: "nodes st1 = nodes st" "pollset st1 = pollset st" "n_devs st1 = n_devs st"
            "sz_nodes st1 = sz_nodes st" "closed st1 = closed st"
    by blast
  have inv1: "reg_inv st1 ids fds" using assms(1) reg_inv_fields [OF s1] by simp
  have nz: "dn \<noteq> 0" using identify_range [OF assms(3)] by (simp add: MAX_DEVICES_def)
  from register_node_inv [OF inv1 assms(4) nz nd assms(5,6,7)] pd
  show ?thesis by (simp add: got_device_def)
qed

lemma got_devices_inv:
  assumes "reg_inv st ids fds"
    and "\<forall>(new_fd, e) \<in> set ds. 0 < new_fd \<and> discoverable e \<and> nodes_realloc_ok e \<and> pollset_realloc_ok e"
    and "map (\<lambda>(new_fd, e). derived_identity e) ds = map Some new_ids"
    and "distinct (ids @ new_ids)"
    and "length ids + length ds \<le> MAX_DEVICES"
  shows "\<exists>st'. got_devices db st ds = Inr st' \<and> reg_inv st' (ids @ new_ids) (fds @ map fst ds)"
  using assms
proof (induction ds arbitrary: st ids fds new_ids)
  case Nil
  then show ?case by simp
next
  case (Cons d ds)
  obtain new_fd e where d: "d = (new_fd, e)" by (cases d)
  from Cons.prems(3) d obtain dn rest where ni: "new_ids = dn # rest"
    and di: "derived_identity e = Some dn"
    and mr: "map (\<lambda>(new_fd, e). derived_identity e) ds = map Some rest"
    by (cases new_ids) auto
  from di obtain lbl where idf: "identify e = Some (lbl, dn)"
    by (auto simp: derived_identity_def split: option.splits)
  have ok: "0 < new_fd" "discoverable e" "nodes_realloc_ok e" "pollset_realloc_ok e"
    using Cons.prems(2) d by auto
  have nin: "dn \<notin> set ids" using Cons.prems(4) ni by auto
  have lim: "length ids < MAX_DEVICES" using Cons.prems(5) by simp
  from got_device_inv [OF Cons.prems(1) ok(2) idf nin ok(1,3,4) lim, of db] obtain st1 where
    g: "got_device db st new_fd e = Inr st1" and inv1: "reg_inv st1 (ids @ [dn]) (fds @ [new_fd])"
    by blast
  have rest_ok: "\<forall>(new_fd, e) \<in> set ds. 0 < new_fd \<and> discoverable e \<and> nodes_realloc_ok e \<and> pollset_realloc_ok e"
    using Cons.prems(2) by simp
  have dist: "distinct ((ids @ [dn]) @ rest)" using Cons.prems(4) ni by simp
  have lim1: "length (ids @ [dn]) + length ds \<le> MAX_DEVICES" using Cons.prems(5) by simp
  from Cons.IH [OF inv1 rest_ok mr dist lim1] obtain st' where
    "got_devices db st1 ds = Inr st'"
    "reg_inv st' ((ids @ [dn]) @ rest) ((fds @ [new_fd]) @ map fst ds)" by blast
  then show ?case using g d ni by simp
qed

lemma reg_inv_init: "reg_inv iodev_init [] []"
  by (simp add: reg_inv_def iodev_init_def)

lemma reg_inv_lookup:
  assumes "reg_inv st ids fds" and "distinct ids" and "k < length ids"
    and "length ids \<le> ids ! k"
  shows "lookup_devnode st (int (ids ! k)) = Some k"
proof -
  have n: "n_devs st = length ids" using assms(1) by (simp add: reg_inv_def)
  have dv: "\<And>i. i < length ids \<Longrightarrow> devnum (nodes st ! i) = ids ! i"
    using assms(1) by (simp add: reg_inv_def)
  have "List.find (\<lambda>i. int (devnum (nodes st ! i)) = int (ids ! k)) [0..<length ids] = Some k"
    unfolding find_Some_iff
    using assms(2,3) dv by (auto simp: nth_eq_iff_index_eq intro!: exI [of _ k])
  then show ?thesis using assms(4) n by (simp add: lookup_devnode_def Let_def)
qed

text \<open>
  Claim C8, amended. Registering at most \<^verbatim>\<open>MAX_DEVICES\<close> = 256 devices with distinct
  derived identities into the empty registry succeeds when every device passes the probes,
  has a positive descriptor and the table can grow: device \<open>k\<close> occupies slot \<open>k\<close> with
  its identity and descriptor, and the lookup of its identity resolves to that slot.
\<close>

theorem registrations_resolvable:
  assumes "length ds \<le> MAX_DEVICES"
    and "\<forall>(new_fd, e) \<in> set ds.
           0 < new_fd \<and> discoverable e \<and> nodes_realloc_ok e \<and> pollset_realloc_ok e"
    and "map (\<lambda>(new_fd, e). derived_identity e) ds = map Some ids" and "distinct ids"
  shows "\<exists>st. got_devices db iodev_init ds = Inr st \<and> n_devs st = length ds \<and>
           (\<forall>k < length ds.
              lookup_devnode st (int (ids ! k)) = Some k \<and>
              devnum (nodes st ! k) = ids ! k \<and> handle (nodes st ! k) = fst (ds ! k))"
proof -
  have len: "length ids = length ds" using assms(3) by (metis length_map)
  have lim: "length ([] :: nat list) + length ds \<le> MAX_DEVICES" using assms(1) by simp
  from got_devices_inv [OF reg_inv_init assms(2,3) _ lim, of db] assms(4) obtain st where
    g: "got_devices db iodev_init ds = Inr st" and inv: "reg_inv st ids (map fst ds)"
    by auto
  have ge: "length ids \<le> ids ! k" if "k < length ids" for k
  proof -
    from that len have "k < length ds" by simp
    with assms(3) that have "derived_identity (snd (ds ! k)) = Some (ids ! k)"
      by (metis (no_types, lifting) case_prod_beta length_map nth_map)
    then obtain lbl where "identify (snd (ds ! k)) = Some (lbl, ids ! k)"
      by (auto simp: derived_identity_def split: option.splits)
    from identify_range [OF this] assms(1) len show ?thesis by simp
  qed
  have "\<forall>k < length ds.
              lookup_devnode st (int (ids ! k)) = Some k \<and>
              devnum (nodes st ! k) = ids ! k \<and> handle (nodes st ! k) = fst (ds ! k)"
  proof (intro allI impI)
    fix k assume k: "k < length ds"
    then have k': "k < length ids" using len by simp
    from reg_inv_lookup [OF inv assms(4) k' ge [OF k']]
    have "lookup_devnode st (int (ids ! k)) = Some k" .
    moreover have "devnum (nodes st ! k) = ids ! k" "handle (nodes st ! k) = fst (ds ! k)"
      using inv k k' by (simp_all add: reg_inv_def)
    ultimately show "lookup_devnode st (int (ids ! k)) = Some k \<and>
              devnum (nodes st ! k) = ids ! k \<and> handle (nodes st ! k) = fst (ds ! k)" by simp
  qed
  moreover have "n_devs st = length ds" using inv len by (simp add: reg_inv_def)
  ultimately show ?thesis using g by blast
qed

lemma example_plain_env_ok:
  "discoverable (example_plain_env h) \<and> nodes_realloc_ok (example_plain_env h) \<and>
   pollset_realloc_ok (example_plain_env h)"
  by (simp add: example_plain_env_def discoverable_def abs_ranges_ok_def EV_ABS_def)

lemma example_plain_env_identity:
  "256 \<le> h \<Longrightarrow> h < 65536 \<Longrightarrow> derived_identity (example_plain_env h) = Some h"
  by (simp add: example_plain_env_def derived_identity_def identify_def MAX_DEVICES_def)

lemma got_devices_append:
  "got_devices db st (xs @ ys) =
     (case got_devices db st xs of Inl a \<Rightarrow> Inl a | Inr st1 \<Rightarrow> got_devices db st1 ys)"
  by (induction xs arbitrary: st) (auto split: sum.splits)

text \<open>
  At the device limit: the descriptor is closed by line 649, the probe of line 675 fails
  on it, line 678 closes it again and the function returns; nothing is entered.
\<close>

lemma got_device_full:
  assumes "MAX_DEVICES \<le> n_devs st" and "fstat_ok e" and "st_chr_or_blk e"
    and "id_hash e \<noteq> None"
  shows "got_device db st new_fd e = Inr (st\<lparr>closed := closed st @ [new_fd, new_fd]\<rparr>)"
  using assms
  by (auto simp: got_device_def probe_device_def identify_def Let_def split: option.splits)

lemma got_devices_full:
  assumes "MAX_DEVICES \<le> n_devs st"
    and "\<forall>(new_fd, e) \<in> set ds. fstat_ok e \<and> st_chr_or_blk e \<and> id_hash e \<noteq> None"
  shows "got_devices db st ds =
           Inr (st\<lparr>closed := closed st @ concat (map (\<lambda>(new_fd, e). [new_fd, new_fd]) ds)\<rparr>)"
  using assms
proof (induction ds arbitrary: st)
  case Nil
  then show ?case by simp
next
  case (Cons d ds)
  obtain new_fd e where d: "d = (new_fd, e)" by (cases d)
  have e: "fstat_ok e" "st_chr_or_blk e" "id_hash e \<noteq> None" using Cons.prems(2) d by auto
  have g: "got_device db st new_fd e = Inr (st\<lparr>closed := closed st @ [new_fd, new_fd]\<rparr>)"
    by (rule got_device_full [OF Cons.prems(1) e])
  have n: "MAX_DEVICES \<le> n_devs (st\<lparr>closed := closed st @ [new_fd, new_fd]\<rparr>)"
    using Cons.prems(1) by simp
  have r: "\<forall>(new_fd, e) \<in> set ds. fstat_ok e \<and> st_chr_or_blk e \<and> id_hash e \<noteq> None"
    using Cons.prems(2) by simp
  show ?case using Cons.IH [OF n r] g d by simp
qed

lemma closed_twice_member:
  "(new_fd, e) \<in> set ds \<Longrightarrow>
     new_fd \<in> set (concat (map (\<lambda>(new_fd, e). [new_fd, new_fd]) ds))"
  by (induction ds) auto

text \<open>
  The claim as stated fails for 300 devices with the identities 256..555: the first 256
  are entered; the device count then stands at the limit, and each of the other 44 has its
  descriptor closed and is not entered. The device with descriptor 257 and identity 512 is
  in no slot, and the lookup of its identity finds nothing.
\<close>

theorem device_over_limit_counterexample:
  "\<not> isl (got_devices example_db iodev_init example_300) \<and>
   n_devs (projr (got_devices example_db iodev_init example_300)) = 256 \<and>
   example_300 ! 256 = (257, example_plain_env 512) \<and>
   derived_identity (example_plain_env 512) = Some 512 \<and>
   lookup_devnode (projr (got_devices example_db iodev_init example_300)) 512 = None \<and>
   512 \<notin> devnum ` set (nodes (projr (got_devices example_db iodev_init example_300))) \<and>
   257 \<in> set (closed (projr (got_devices example_db iodev_init example_300)))"
proof -
  let ?f = "\<lambda>k. (int k + 1, example_plain_env (256 + k))"
  let ?ids = "map (\<lambda>k. 256 + k) [0..<256 :: nat]"
  let ?xs = "map ?f [0..<256]"
  let ?ys = "map ?f [256..<300]"
  have "[0..<256 + 44 :: nat] = [0..<256] @ [256..<256 + 44]" by (rule upt_add_eq_append) simp
  then have sp: "example_300 = ?xs @ ?ys"
    unfolding example_300_def by (simp del: upt_rec_numeral)
  have a: "\<forall>(new_fd, e) \<in> set ?xs.
           0 < new_fd \<and> discoverable e \<and> nodes_realloc_ok e \<and> pollset_realloc_ok e"
    by (auto simp: example_plain_env_ok)
  have b: "map (\<lambda>(new_fd, e). derived_identity e) ?xs = map Some ?ids"
    by (simp add: example_plain_env_identity)
  have c: "distinct ([] @ ?ids)" by (simp add: distinct_map inj_on_def)
  have d: "length ([] :: nat list) + length ?xs \<le> MAX_DEVICES"
    by (simp add: MAX_DEVICES_def)
  from got_devices_inv [OF reg_inv_init a b c d, of example_db] obtain st1 where
    g1: "got_devices example_db iodev_init ?xs = Inr st1"
    and inv: "reg_inv st1 ?ids (map fst ?xs)" by auto
  have n1: "n_devs st1 = 256" "closed st1 = []" using inv by (simp_all add: reg_inv_def)
  have lim: "MAX_DEVICES \<le> n_devs st1" using n1 by (simp add: MAX_DEVICES_def)
  have r: "\<forall>(new_fd, e) \<in> set ?ys. fstat_ok e \<and> st_chr_or_blk e \<and> id_hash e \<noteq> None"
    by (auto simp: example_plain_env_def simp del: upt_rec_numeral)
  define st where
    "st = st1\<lparr>closed := closed st1 @ concat (map (\<lambda>(new_fd, e). [new_fd, new_fd]) ?ys)\<rparr>"
  have g2: "got_devices example_db st1 ?ys = Inr st"
    unfolding st_def by (rule got_devices_full [OF lim r])
  have g: "got_devices example_db iodev_init example_300 = Inr st"
    unfolding sp got_devices_append g1 using g2 by (simp del: upt_rec_numeral)
  have n: "n_devs st = 256" using n1 by (simp add: st_def)
  have dv: "\<And>k. k < 256 \<Longrightarrow> devnum (nodes st ! k) = 256 + k"
    using inv by (simp add: reg_inv_def st_def)
  have z: "\<And>k. 256 \<le> k \<Longrightarrow> k < length (nodes st) \<Longrightarrow> nodes st ! k = devnode_zero"
    using inv by (simp add: reg_inv_def st_def)
  have l: "lookup_devnode st 512 = None"
    using n dv by (auto simp: lookup_devnode_def find_None_iff)
  have m: "512 \<notin> devnum ` set (nodes st)"
  proof
    assume "512 \<in> devnum ` set (nodes st)"
    then obtain k where k: "k < length (nodes st)" "devnum (nodes st ! k) = 512"
      by (auto simp: in_set_conv_nth)
    show False
    proof (cases "k < 256")
      case True
      with dv [OF True] k show False by simp
    next
      case False
      with z [of k] k show False by (simp add: devnode_zero_def)
    qed
  qed
  have "(257, example_plain_env 512) \<in> ?f ` {256..<300}"
    by (rule image_eqI [of _ _ 256]) simp_all
  then have "(257, example_plain_env 512) \<in> set ?ys" by (simp del: upt_rec_numeral)
  then have "257 \<in> set (concat (map (\<lambda>(new_fd, e). [new_fd, new_fd]) ?ys))"
    by (rule closed_twice_member)
  then have cl: "257 \<in> set (closed st)" unfolding st_def by (simp del: upt_rec_numeral)
  have e: "example_300 ! 256 = (257, example_plain_env 512)"
    by (simp add: example_300_def del: upt_rec_numeral)
  have i: "derived_identity (example_plain_env 512) = Some 512"
    by (simp add: example_plain_env_identity)
  show ?thesis using g n l m cl e i by simp
qed

theorem registrations_resolvable_witness:
  "\<exists>st. got_devices example_db iodev_init
          [(7, example_mouse_env), (8, example_kbd_env), (9, example_pad_env)] = Inr st \<and>
        n_devs st = 3 \<and>
        lookup_devnode st 4464 = Some 0 \<and> lookup_devnode st 4465 = Some 1 \<and>
        lookup_devnode st 4466 = Some 2 \<and>
        devnum (nodes st ! 2) = 4466 \<and> handle (nodes st ! 2) = 9"
proof -
  let ?ds = "[(7 :: int, example_mouse_env), (8, example_kbd_env), (9, example_pad_env)]"
  have h1: "length ?ds \<le> MAX_DEVICES" by (simp add: MAX_DEVICES_def)
  have h2: "\<forall>(new_fd, e) \<in> set ?ds.
           0 < new_fd \<and> discoverable e \<and> nodes_realloc_ok e \<and> pollset_realloc_ok e"
    by (simp add: ex_defs ABS_MAX_def list_all_iff)
  have h3: "map (\<lambda>(new_fd, e). derived_identity e) ?ds = map Some [4464, 4465, 4466]"
    by (simp add: derived_identity_def ex_defs)
  have h4: "distinct [4464, 4465, 4466 :: nat]" by simp
  from registrations_resolvable [OF h1 h2 h3 h4, of example_db] obtain st where
    g: "got_devices example_db iodev_init ?ds = Inr st" and n: "n_devs st = length ?ds"
    and a: "\<forall>k < length ?ds.
              lookup_devnode st (int ([4464, 4465, 4466] ! k)) = Some k \<and>
              devnum (nodes st ! k) = [4464, 4465, 4466] ! k \<and>
              handle (nodes st ! k) = fst (?ds ! k)"
    by blast
  have "lookup_devnode st 4464 = Some 0" using a [rule_format, of 0] by simp
  moreover have "lookup_devnode st 4465 = Some 1" using a [rule_format, of 1] by simp
  moreover have "lookup_devnode st 4466 = Some 2 \<and> devnum (nodes st ! 2) = 4466 \<and>
      handle (nodes st ! 2) = 9" using a [rule_format, of 2] by simp
  ultimately have "lookup_devnode st 4464 = Some 0 \<and> lookup_devnode st 4465 = Some 1 \<and>
        lookup_devnode st 4466 = Some 2 \<and>
        devnum (nodes st ! 2) = 4466 \<and> handle (nodes st ! 2) = 9" by simp
  then show ?thesis using g n by simp
qed
section \<open>Properties of the analog state query\<close>

lemma lookup_names_slot: "lookup_devnode st devid = Some n \<longleftrightarrow> names_slot st devid n"
proof -
  define ident where "ident = (if devid < 0 then int (mouseid st) else devid)"
  have nn: "0 \<le> ident" by (simp add: ident_def)
  show ?thesis
  proof (cases "ident < int (n_devs st)")
    case True
    then show ?thesis
      using nn unfolding lookup_devnode_def names_slot_def ident_def [symmetric]
      by (auto simp: Let_def)
  next
    case False
    then show ?thesis
      unfolding lookup_devnode_def names_slot_def ident_def [symmetric]
      by (auto simp: Let_def find_Some_iff)
  qed
qed

lemma lookup_names_none: "lookup_devnode st devid = None \<longleftrightarrow> \<not> (\<exists>n. names_slot st devid n)"
  using lookup_names_slot [of st devid] by (cases "lookup_devnode st devid") auto

lemma analogstate_found:
  assumes "lookup_devnode st devid = Some n"
  shows "(let node = nodes st ! n; a = nat (axisid mod 2 ^ 32)
          in if type node = DEVNODE_SENSOR \<and> a = 0 then
               platform_event_analogstate st devid axisid outs =
                 (ARCAN_OK,
                  \<lparr>lower_bound = lower (sensor_data node), upper_bound = upper (sensor_data node),
                   deadzone_out = deadzone (sensor_data node),
                   kernel_size = kernel_sz (sensor_data node), mode_out = mode (sensor_data node)\<rparr>)
             else if type node = DEVNODE_GAME \<and> a < game_axes node then
               platform_event_analogstate st devid axisid outs =
                 (ARCAN_OK,
                  \<lparr>lower_bound = lower (game_adata node ! a), upper_bound = upper (game_adata node ! a),
                   deadzone_out = deadzone (game_adata node ! a),
                   kernel_size = kernel_sz (game_adata node ! a), mode_out = mode (game_adata node ! a)\<rparr>)
             else if type node = DEVNODE_MOUSE \<and> a \<le> 1 then
               platform_event_analogstate st devid axisid outs =
                 (ARCAN_OK,
                  \<lparr>lower_bound = lower (cursor_flt node ! a), upper_bound = upper (cursor_flt node ! a),
                   deadzone_out = deadzone (cursor_flt node ! a),
                   kernel_size = kernel_sz (cursor_flt node ! a), mode_out = mode (cursor_flt node ! a)\<rparr>)
             else platform_event_analogstate st devid axisid outs = (ARCAN_ERRC_BAD_RESOURCE, outs))"
proof (cases "type (nodes st ! n)")
  case DEVNODE_SENSOR
  with assms show ?thesis by (simp add: platform_event_analogstate_def find_axis_def Let_def)
next
  case DEVNODE_GAME
  with assms show ?thesis by (simp add: platform_event_analogstate_def find_axis_def Let_def)
next
  case DEVNODE_MOUSE
  with assms show ?thesis
    by (auto simp: platform_event_analogstate_def find_axis_def Let_def le_Suc_eq)
next
  case DEVNODE_TOUCH
  with assms show ?thesis by (simp add: platform_event_analogstate_def find_axis_def Let_def)
next
  case DEVNODE_KEYBOARD
  with assms show ?thesis by (simp add: platform_event_analogstate_def find_axis_def Let_def)
next
  case DEVNODE_UNCLASSIFIED
  with assms show ?thesis by (simp add: platform_event_analogstate_def find_axis_def Let_def)
qed

text \<open>
  Claim C10, amended. An id names a slot as \<open>names_slot\<close> says: a negative id stands for
  the recorded mouse identity, an id below the device count is the index of a slot, any
  other id names the first counted slot that stores it as identity.
  \<^verbatim>\<open>platform_event_analogstate\<close> returns \<^verbatim>\<open>ARCAN_ERRC_NO_SUCH_OBJECT\<close> and leaves the
  five output locations as they were when the id names no slot. When it names slot \<open>n\<close>,
  the function returns \<^verbatim>\<open>ARCAN_OK\<close> with the five values of the axis if the class of the
  node in that slot has an axis of that index (index 0 of a sensor, an index below the
  axis count of a game device, index 0 or 1 of a mouse), and
  \<^verbatim>\<open>ARCAN_ERRC_BAD_RESOURCE\<close> with the output locations as they were otherwise.
\<close>

theorem analogstate_by_slot:
  "(\<not> (\<exists>n. names_slot st devid n) \<longrightarrow>
      platform_event_analogstate st devid axisid outs = (ARCAN_ERRC_NO_SUCH_OBJECT, outs)) \<and>
   (\<forall>n. names_slot st devid n \<longrightarrow>
      (let node = nodes st ! n; a = nat (axisid mod 2 ^ 32)
       in if type node = DEVNODE_SENSOR \<and> a = 0 then
            platform_event_analogstate st devid axisid outs =
              (ARCAN_OK,
               \<lparr>lower_bound = lower (sensor_data node), upper_bound = upper (sensor_data node),
                deadzone_out = deadzone (sensor_data node),
                kernel_size = kernel_sz (sensor_data node), mode_out = mode (sensor_data node)\<rparr>)
          else if type node = DEVNODE_GAME \<and> a < game_axes node then
            platform_event_analogstate st devid axisid outs =
              (ARCAN_OK,
               \<lparr>lower_bound = lower (game_adata node ! a), upper_bound = upper (game_adata node ! a),
                deadzone_out = deadzone (game_adata node ! a),
                kernel_size = kernel_sz (game_adata node ! a), mode_out = mode (game_adata node ! a)\<rparr>)
          else if type node = DEVNODE_MOUSE \<and> a \<le> 1 then
            platform_event_analogstate st devid axisid outs =
              (ARCAN_OK,
               \<lparr>lower_bound = lower (cursor_flt node ! a), upper_bound = upper (cursor_flt node ! a),
                deadzone_out = deadzone (cursor_flt node ! a),
                kernel_size = kernel_sz (cursor_flt node ! a), mode_out = mode (cursor_flt node ! a)\<rparr>)
          else platform_event_analogstate st devid axisid outs = (ARCAN_ERRC_BAD_RESOURCE, outs)))"
proof (intro conjI impI allI)
  assume "\<not> (\<exists>n. names_slot st devid n)"
  then have "lookup_devnode st devid = None" by (simp add: lookup_names_none)
  then show "platform_event_analogstate st devid axisid outs = (ARCAN_ERRC_NO_SUCH_OBJECT, outs)"
    by (simp add: platform_event_analogstate_def find_axis_def)
next
  fix n assume "names_slot st devid n"
  then have "lookup_devnode st devid = Some n" by (simp add: lookup_names_slot)
  then show "(let node = nodes st ! n; a = nat (axisid mod 2 ^ 32)
       in if type node = DEVNODE_SENSOR \<and> a = 0 then
            platform_event_analogstate st devid axisid outs =
              (ARCAN_OK,
               \<lparr>lower_bound = lower (sensor_data node), upper_bound = upper (sensor_data node),
                deadzone_out = deadzone (sensor_data node),
                kernel_size = kernel_sz (sensor_data node), mode_out = mode (sensor_data node)\<rparr>)
          else if type node = DEVNODE_GAME \<and> a < game_axes node then
            platform_event_analogstate st devid axisid outs =
              (ARCAN_OK,
               \<lparr>lower_bound = lower (game_adata node ! a), upper_bound = upper (game_adata node ! a),
                deadzone_out = deadzone (game_adata node ! a),
                kernel_size = kernel_sz (game_adata node ! a), mode_out = mode (game_adata node ! a)\<rparr>)
          else if type node = DEVNODE_MOUSE \<and> a \<le> 1 then
            platform_event_analogstate st devid axisid outs =
              (ARCAN_OK,
               \<lparr>lower_bound = lower (cursor_flt node ! a), upper_bound = upper (cursor_flt node ! a),
                deadzone_out = deadzone (cursor_flt node ! a),
                kernel_size = kernel_sz (cursor_flt node ! a), mode_out = mode (cursor_flt node ! a)\<rparr>)
          else platform_event_analogstate st devid axisid outs = (ARCAN_ERRC_BAD_RESOURCE, outs))"
    by (rule analogstate_found)
qed

lemma example_three_nodes:
  "n_devs example_three = 3" "mouseid example_three = 0"
  "nodes example_three ! 0 = example_stick_node 7"
  "nodes example_three ! Suc 0 = example_plain_node 300 8"
  "nodes example_three ! 2 = example_plain_node 301 9"
  by (simp_all add: example_three_eq)

lemma example_node_axes:
  "type (example_stick_node f) = DEVNODE_GAME" "game_axes (example_stick_node f) = 2"
  "game_adata (example_stick_node f) ! 0 = axis_default\<lparr>upper := 255, lower := 0\<rparr>"
  "type (example_plain_node h f) = DEVNODE_GAME" "game_axes (example_plain_node h f) = 0"
  by (simp_all add: example_stick_node_def example_plain_node_def devnode_zero_def)

lemma axis_default_fields:
  "deadzone axis_default = 0" "kernel_sz axis_default = 0"
  "mode axis_default = ARCAN_ANALOGFILTER_AVG"
  by (simp_all add: axis_default_def axis_zero_def)

theorem analogstate_by_slot_witness:
  "\<not> (\<exists>n. names_slot example_three 9999 n) \<and>
   platform_event_analogstate example_three 9999 0 example_outs =
     (ARCAN_ERRC_NO_SUCH_OBJECT, example_outs) \<and>
   names_slot example_three 300 1 \<and>
   platform_event_analogstate example_three 300 0 example_outs =
     (ARCAN_ERRC_BAD_RESOURCE, example_outs) \<and>
   names_slot example_three 4467 0 \<and>
   platform_event_analogstate example_three 4467 0 example_outs =
     (ARCAN_OK,
      \<lparr>lower_bound = 0, upper_bound = 255, deadzone_out = 0, kernel_size = 0,
       mode_out = ARCAN_ANALOGFILTER_AVG\<rparr>)"
proof -
  have lt3: "\<And>n. n < 3 \<longleftrightarrow> n = 0 \<or> n = Suc 0 \<or> n = (2 :: nat)" by auto
  have h1: "\<not> (\<exists>n. names_slot example_three 9999 n)"
    by (auto simp: names_slot_def example_three_nodes node_fields lt3)
  have h2: "names_slot example_three 300 1"
    by (simp add: names_slot_def example_three_nodes node_fields)
  have h3: "names_slot example_three 4467 0"
    by (simp add: names_slot_def example_three_nodes node_fields)
  from analogstate_by_slot [of example_three 9999 0 example_outs] h1
  have r1: "platform_event_analogstate example_three 9999 0 example_outs =
     (ARCAN_ERRC_NO_SUCH_OBJECT, example_outs)" by blast
  from analogstate_by_slot [of example_three 300 0 example_outs] h2
  have r2: "platform_event_analogstate example_three 300 0 example_outs =
     (ARCAN_ERRC_BAD_RESOURCE, example_outs)"
    by (simp add: Let_def example_three_nodes example_node_axes)
  from analogstate_by_slot [of example_three 4467 0 example_outs] h3
  have r3: "platform_event_analogstate example_three 4467 0 example_outs =
     (ARCAN_OK,
      \<lparr>lower_bound = 0, upper_bound = 255, deadzone_out = 0, kernel_size = 0,
       mode_out = ARCAN_ANALOGFILTER_AVG\<rparr>)"
    by (simp add: Let_def example_three_nodes example_node_axes axis_default_fields)
  from h1 h2 h3 r1 r2 r3 show ?thesis by simp
qed

text \<open>
  The claim as stated fails on the registry of the stick and the two plain devices, which
  hold the identities 4467, 300 and 301 and are all game devices; no mouse has been
  recorded. No device has the identity 0, and the id -1 stands for no device; both ids
  are taken for slot 0, and the query returns \<^verbatim>\<open>ARCAN_OK\<close> with the first axis of the
  stick.
\<close>

theorem analogstate_slot_index_counterexample:
  "n_devs example_three = 3 \<and> mouseid example_three = 0 \<and>
   map devnum (take 3 (nodes example_three)) = [4467, 300, 301] \<and>
   map type (take 3 (nodes example_three)) = [DEVNODE_GAME, DEVNODE_GAME, DEVNODE_GAME] \<and>
   platform_event_analogstate example_three 0 0 example_outs =
     (ARCAN_OK,
      \<lparr>lower_bound = 0, upper_bound = 255, deadzone_out = 0, kernel_size = 0,
       mode_out = ARCAN_ANALOGFILTER_AVG\<rparr>) \<and>
   platform_event_analogstate example_three (- 1) 0 example_outs =
     (ARCAN_OK,
      \<lparr>lower_bound = 0, upper_bound = 255, deadzone_out = 0, kernel_size = 0,
       mode_out = ARCAN_ANALOGFILTER_AVG\<rparr>)"
proof -
  have l: "lookup_devnode example_three 0 = Some 0" "lookup_devnode example_three (- 1) = Some 0"
    by (simp_all add: lookup_devnode_def example_three_nodes)
  have q: "platform_event_analogstate example_three 0 0 example_outs =
     (ARCAN_OK,
      \<lparr>lower_bound = 0, upper_bound = 255, deadzone_out = 0, kernel_size = 0,
       mode_out = ARCAN_ANALOGFILTER_AVG\<rparr>)"
    "platform_event_analogstate example_three (- 1) 0 example_outs =
     (ARCAN_OK,
      \<lparr>lower_bound = 0, upper_bound = 255, deadzone_out = 0, kernel_size = 0,
       mode_out = ARCAN_ANALOGFILTER_AVG\<rparr>)"
    by (simp_all add: platform_event_analogstate_def find_axis_def l example_three_nodes
          example_node_axes axis_default_fields)
  have n: "map devnum (take 3 (nodes example_three)) = [4467, 300, 301]"
    "map type (take 3 (nodes example_three)) = [DEVNODE_GAME, DEVNODE_GAME, DEVNODE_GAME]"
    by (simp_all add: example_three_eq node_fields example_node_axes)
  show ?thesis using q n by (simp add: example_three_nodes)
qed

end
